theory Spec2Isabelle
  imports Complex_Main "HOL-Library.Word"
begin

unbundle bit_operations_syntax

section \<open>Machine types and the wire message (helpers.h)\<close>

text \<open>
  The simulation is built for an LP64 target: \<open>long\<close> is a 64-bit and \<open>int\<close> a 32-bit
  two's complement integer, \<open>char\<close> is one byte and a \<open>std::string\<close> a sequence of bytes.
  Signed values are read with \<open>sint\<close>, and their arithmetic wraps around, which is
  what the machine does where the language leaves signed overflow undefined. A
  \<open>simtime_t\<close> is a fixed-point number whose sums, differences and comparisons are
  exact; it is modelled by the real number it denotes. A \<open>double\<close> is modelled by the
  real number it denotes as well (rounding, infinities and NaN are outside the model).
\<close>

type_synonym long = "64 word"
type_synonym cint = "32 word"
type_synonym cstring = "8 word list"
type_synonym simtime = real
type_synonym double = real

text \<open>Message kinds (the anonymous enum of helpers.h) and priorities.\<close>

abbreviation (input) DNS_QUERY :: int where "DNS_QUERY \<equiv> 10"
abbreviation (input) DNS_RESPONSE :: int where "DNS_RESPONSE \<equiv> 11"
abbreviation (input) HTTP_GET :: int where "HTTP_GET \<equiv> 20"
abbreviation (input) HTTP_RESPONSE :: int where "HTTP_RESPONSE \<equiv> 21"
abbreviation (input) TCP_SYN :: int where "TCP_SYN \<equiv> 30"
abbreviation (input) TCP_SYN_ACK :: int where "TCP_SYN_ACK \<equiv> 31"
abbreviation (input) TCP_ACK :: int where "TCP_ACK \<equiv> 32"
abbreviation (input) TCP_DATA :: int where "TCP_DATA \<equiv> 33"
abbreviation (input) TCP_FIN :: int where "TCP_FIN \<equiv> 34"
abbreviation (input) UDP_DATA :: int where "UDP_DATA \<equiv> 40"
abbreviation (input) KEY_EXCHANGE :: int where "KEY_EXCHANGE \<equiv> 50"
abbreviation (input) ENCRYPTED_DATA :: int where "ENCRYPTED_DATA \<equiv> 51"
abbreviation (input) OSPF_HELLO :: int where "OSPF_HELLO \<equiv> 60"
abbreviation (input) OSPF_LSA :: int where "OSPF_LSA \<equiv> 61"
abbreviation (input) OSPF_TE_UPDATE :: int where "OSPF_TE_UPDATE \<equiv> 62"
abbreviation (input) RIP_UPDATE :: int where "RIP_UPDATE \<equiv> 63"
abbreviation (input) RIP_REQUEST :: int where "RIP_REQUEST \<equiv> 64"

abbreviation (input) PRIORITY_LOW :: long where "PRIORITY_LOW \<equiv> 0"
abbreviation (input) PRIORITY_NORMAL :: long where "PRIORITY_NORMAL \<equiv> 1"
abbreviation (input) PRIORITY_HIGH :: long where "PRIORITY_HIGH \<equiv> 2"
abbreviation (input) PRIORITY_CRITICAL :: long where "PRIORITY_CRITICAL \<equiv> 3"

datatype TCPState =
  TCP_CLOSED | TCP_LISTEN | TCP_SYN_SENT | TCP_SYN_RECEIVED | TCP_ESTABLISHED
| TCP_FIN_WAIT | TCP_CLOSE_WAIT | TCP_CLOSING | TCP_TIME_WAIT

text \<open>
  A message parameter (\<open>cMsgPar\<close>) holds a long, a double, a bool or a string. The five
  parameters that \<open>mk\<close> adds to every packet (src, dst, seq, ack, priority) are fields of
  the record; the parameters added later with \<open>addPar\<close> are kept, in order, in \<open>pars\<close>.
\<close>

datatype parval = LongPar long | DoublePar double | BoolPar bool | StringPar cstring

record cMessage =
  msgName :: string
  msgKind :: int
  par_src :: long
  par_dst :: long
  par_seq :: long
  par_ack :: long
  par_priority :: long
  byteLength :: int
  pars :: "(string \<times> parval) list"

definition mk :: "string \<Rightarrow> int \<Rightarrow> long \<Rightarrow> long \<Rightarrow> cMessage" where
  "mk name knd src dst =
     \<lparr>msgName = name, msgKind = knd, par_src = src, par_dst = dst, par_seq = 0,
      par_ack = 0, par_priority = PRIORITY_NORMAL, byteLength = 1000, pars = []\<rparr>"

definition SRC :: "cMessage \<Rightarrow> long" where "SRC m = par_src m"
definition DST :: "cMessage \<Rightarrow> long" where "DST m = par_dst m"
definition SEQ :: "cMessage \<Rightarrow> long" where "SEQ m = par_seq m"
definition ACK :: "cMessage \<Rightarrow> long" where "ACK m = par_ack m"

text \<open>\<open>PRIORITY\<close> returns an \<open>int\<close>: the long value is narrowed to 32 bits.\<close>

definition PRIORITY :: "cMessage \<Rightarrow> cint" where "PRIORITY m = ucast (par_priority m)"

definition addPar :: "string \<Rightarrow> parval \<Rightarrow> cMessage \<Rightarrow> cMessage" where
  "addPar name v m = m\<lparr>pars := pars m @ [(name, v)]\<rparr>"

definition hasPar :: "cMessage \<Rightarrow> string \<Rightarrow> bool" where
  "hasPar m name = (case map_of (pars m) name of None \<Rightarrow> False | Some v \<Rightarrow> True)"

text \<open>
  Reading a parameter that is missing, or of another type, raises a \<open>cRuntimeError\<close>,
  which ends the simulation: the value \<open>None\<close>.
\<close>

definition longPar :: "cMessage \<Rightarrow> string \<Rightarrow> long option" where
  "longPar m name = (case map_of (pars m) name of Some (LongPar v) \<Rightarrow> Some v | _ \<Rightarrow> None)"

definition doublePar :: "cMessage \<Rightarrow> string \<Rightarrow> double option" where
  "doublePar m name = (case map_of (pars m) name of Some (DoublePar v) \<Rightarrow> Some v | _ \<Rightarrow> None)"

definition boolPar :: "cMessage \<Rightarrow> string \<Rightarrow> bool option" where
  "boolPar m name = (case map_of (pars m) name of Some (BoolPar v) \<Rightarrow> Some v | _ \<Rightarrow> None)"

definition stringPar :: "cMessage \<Rightarrow> string \<Rightarrow> cstring option" where
  "stringPar m name = (case map_of (pars m) name of Some (StringPar v) \<Rightarrow> Some v | _ \<Rightarrow> None)"

record TCPConnection =
  remoteAddr :: long
  state :: TCPState
  sendSeq :: long
  recvSeq :: long
  conn_cwnd :: double
  conn_ssthresh :: double
  rtt :: simtime
  lastSent :: simtime
  sharedKey :: cstring

text \<open>The default constructor \<open>TCPConnection()\<close>.\<close>

definition TCPConnection_new :: TCPConnection where
  "TCPConnection_new =
     \<lparr>remoteAddr = 0, state = TCP_CLOSED, sendSeq = 0, recvSeq = 0, conn_cwnd = 1,
      conn_ssthresh = 64, rtt = 0, lastSent = 0, sharedKey = []\<rparr>"

subsection \<open>SYN cookies\<close>

definition generateSYNCookie :: "long \<Rightarrow> long \<Rightarrow> long \<Rightarrow> long" where
  "generateSYNCookie src dst seq =
     (let secret = 0x5EED
      in ((src XOR dst XOR seq XOR secret) AND 0xFFFFFF) OR (push_bit 24 seq))"

definition validateSYNCookie :: "long \<Rightarrow> long \<Rightarrow> long \<Rightarrow> long \<Rightarrow> bool" where
  "validateSYNCookie cookie src dst seq =
     (let expected = generateSYNCookie src dst seq
      in (cookie AND 0xFFFFFF) = (expected AND 0xFFFFFF))"

subsection \<open>The XOR cipher and the key exchange\<close>

text \<open>
  \<open>simpleEncrypt\<close> appends, for each index \<open>i\<close> of the data, the byte
  \<open>data[i] ^ key[i % key.length()] ^ 0xAA\<close>. With an empty key the index expression
  divides by zero (undefined behaviour): the value \<open>None\<close>.
\<close>

definition simpleEncrypt :: "cstring \<Rightarrow> cstring \<Rightarrow> cstring option" where
  "simpleEncrypt data key =
     (if data \<noteq> [] \<and> key = [] then None
      else Some (map (\<lambda>i. (data ! i) XOR (key ! (i mod length key)) XOR 0xAA)
                  [0..<length data]))"

definition simpleDecrypt :: "cstring \<Rightarrow> cstring \<Rightarrow> cstring option" where
  "simpleDecrypt data key = simpleEncrypt data key"

text \<open>
  \<open>computeSharedSecret\<close> concatenates the two keys and derives 16 bytes; with an empty
  concatenation the index expression divides by zero: the value \<open>None\<close>.
\<close>

definition computeSharedSecret :: "cstring \<Rightarrow> cstring \<Rightarrow> cstring option" where
  "computeSharedSecret myPrivate theirPublic =
     (let combined = myPrivate @ theirPublic
      in if combined = [] then None
         else Some (map (\<lambda>i. ((combined ! (i mod length combined)) XOR 0x5A) + of_nat i)
                     [0..<16]))"


text \<open>A string literal of the source, as bytes.\<close>

definition literal :: "string \<Rightarrow> cstring" where
  "literal s = map of_char s"

text \<open>
  \<open>ss << hex << v\<close> prints the 64 bits of a long as an unsigned number in base 16, in
  lower case, with no leading zeros.
\<close>

definition hexDigit :: "long \<Rightarrow> 8 word" where
  "hexDigit d = (if d < 10 then 0x30 + ucast d else 0x57 + ucast d)"

definition hex :: "long \<Rightarrow> cstring" where
  "hex v =
     (let ds = dropWhile (\<lambda>d. d = 0) (map (\<lambda>i. drop_bit (4 * i) v AND 0xF) (rev [0..<16]))
      in if ds = [] then literal ''0'' else map hexDigit ds)"

definition generateECDHPublicKey :: "long \<Rightarrow> cstring" where
  "generateECDHPublicKey address = hex (address * 0x12345 + 0x6789ABCD)"

text \<open>
  \<open>setStringValue(s.c_str())\<close> and \<open>stringValue()\<close> pass a string through a
  \<open>const char*\<close>: it ends at its first zero byte.
\<close>

definition c_str :: "cstring \<Rightarrow> cstring" where
  "c_str s = takeWhile (\<lambda>c. c \<noteq> 0) s"

section \<open>The link transmitter of an endpoint (pc.cc, http.cc, dns.cc, mail.cc, database.cc)\<close>

text \<open>
  What a handler hands to the simulator: \<open>send(msg, gate)\<close> and
  \<open>sendDelayed(msg, delay, gate)\<close>, with the index of the output gate (an endpoint's
  only gate \<open>ppp$o\<close> has index 0).
\<close>

datatype emission = Send nat cMessage | SendDelayed simtime nat cMessage

text \<open>
  The state every endpoint class declares: its address, its keys, its connection map and
  its transmit state (\<open>txQueue\<close>, \<open>endTxEvent\<close>: the time the timer is scheduled for,
  \<open>None\<close> for \<open>nullptr\<close>). The last two fields are the transmission channel of
  \<open>ppp$o\<close> as the simulator keeps it: \<open>getTransmissionFinishTime()\<close> and the time the
  channel takes to transmit a frame.
\<close>

record endpoint =
  addr :: cint
  sharedKeys :: "long \<rightharpoonup> cstring"
  myPublicKey :: cstring
  myPrivateKey :: cstring
  tcpConnections :: "long \<rightharpoonup> TCPConnection"
  txQueue :: "cMessage list"
  endTxEvent :: "simtime option"
  chFinishTime :: simtime
  chDuration :: "cMessage \<Rightarrow> simtime"

text \<open>
  Modelled from the spec: the simulator's \<open>send\<close> and \<open>scheduleAt\<close> are not part of the
  repository. Sending on a channel that is still busy is a fatal error of the harness
  (section 7 of the specification), the value \<open>None\<close>; otherwise the frame is on the
  wire until now plus its duration. Scheduling a self-message in the past is an error.
\<close>

definition send :: "simtime \<Rightarrow> cMessage \<Rightarrow> 'a endpoint_scheme \<Rightarrow> ('a endpoint_scheme \<times> emission list) option" where
  "send now msg s =
     (if chFinishTime s > now then None
      else Some (s\<lparr>chFinishTime := now + chDuration s msg\<rparr>, [Send 0 msg]))"

definition scheduleAt :: "simtime \<Rightarrow> simtime \<Rightarrow> simtime option" where
  "scheduleAt now t = (if t < now then None else Some t)"

text \<open>
  \<open>startTransmission\<close> and \<open>sendPacketOnGate\<close> are the same text in PC, HTTP, DNS,
  MailServer and DatabaseServer (up to the prefix of the log line).
\<close>

definition startTransmission :: "simtime \<Rightarrow> cMessage \<Rightarrow> 'a endpoint_scheme \<Rightarrow> ('a endpoint_scheme \<times> emission list) option" where
  "startTransmission now msg s =
     (case send now msg s of
        None \<Rightarrow> None
      | Some (s1, out) \<Rightarrow>
          (let finishTime = chFinishTime s1
           in case scheduleAt now finishTime of
                None \<Rightarrow> None
              | Some t \<Rightarrow> Some (s1\<lparr>endTxEvent := Some t\<rparr>, out)))"

definition sendPacketOnGate :: "simtime \<Rightarrow> cMessage \<Rightarrow> 'a endpoint_scheme \<Rightarrow> ('a endpoint_scheme \<times> emission list) option" where
  "sendPacketOnGate now msg s =
     (let finishTime = chFinishTime s
      in if finishTime > now then Some (s\<lparr>txQueue := txQueue s @ [msg]\<rparr>, [])
         else if endTxEvent s \<noteq> None then Some (s\<lparr>txQueue := txQueue s @ [msg]\<rparr>, [])
         else startTransmission now msg s)"

text \<open>The branch \<open>msg == endTxEvent\<close> of \<open>handleSelfMessage\<close>.\<close>

definition handleEndTx :: "simtime \<Rightarrow> 'a endpoint_scheme \<Rightarrow> ('a endpoint_scheme \<times> emission list) option" where
  "handleEndTx now s =
     (let s1 = s\<lparr>endTxEvent := None\<rparr>
      in case txQueue s1 of
           [] \<Rightarrow> Some (s1, [])
         | nextMsg # rest \<Rightarrow> startTransmission now nextMsg (s1\<lparr>txQueue := rest\<rparr>))"

section \<open>The servers (http.cc, dns.cc)\<close>

text \<open>
  \<open>handleKeyExchange\<close> is the same text in DNS, HTTP, MailServer and DatabaseServer. The
  shared secret is stored before the test that decides whether to reply.
\<close>

definition handleKeyExchange :: "simtime \<Rightarrow> cMessage \<Rightarrow> 'a endpoint_scheme \<Rightarrow> ('a endpoint_scheme \<times> emission list) option" where
  "handleKeyExchange now msg s =
     (let peerAddr = SRC msg
      in case stringPar msg ''publicKey'' of
           None \<Rightarrow> None
         | Some peerPublicKey \<Rightarrow>
             (case computeSharedSecret (myPrivateKey s) peerPublicKey of
                None \<Rightarrow> None
              | Some sharedSecret \<Rightarrow>
                  (let s1 = s\<lparr>sharedKeys := (sharedKeys s)(peerAddr \<mapsto> sharedSecret)\<rparr>;
                       needed = (case sharedKeys s1 peerAddr of None \<Rightarrow> True | Some k \<Rightarrow> k = []);
                       response = addPar ''publicKey'' (StringPar (c_str (myPublicKey s1)))
                                    (mk ''KEY_EXCHANGE'' KEY_EXCHANGE (scast (addr s1)) peerAddr);
                       response = response\<lparr>par_priority := PRIORITY_HIGH\<rparr>
                   in case (if needed then sendPacketOnGate now response s1 else Some (s1, [])) of
                        None \<Rightarrow> None
                      | Some (s2, out) \<Rightarrow>
                          Some (s2\<lparr>sharedKeys := (sharedKeys s2)(peerAddr \<mapsto> sharedSecret)\<rparr>, out))))"

text \<open>
  The HTTP server. \<open>synCounts\<close> and \<open>synTimestamps\<close> are maps whose entries the sweep
  erases; a timer is the time it is scheduled for (\<open>None\<close>: not scheduled);
  \<open>pageSizeBytes\<close> and \<open>serviceTime\<close> are module parameters. \<open>responseQueue\<close> holds the
  queued responses (the order in which \<open>top()\<close> would return them is not modelled).
\<close>

record HTTP = endpoint +
  synCounts :: "long \<rightharpoonup> cint"
  synTimestamps :: "long \<rightharpoonup> simtime"
  synRateLimit :: double
  synFloodCheckTimer :: "simtime option"
  responseQueue :: "cMessage list"
  sendQueueTimer :: "simtime option"
  cwndMap :: "long \<rightharpoonup> double"
  ssthreshMap :: "long \<rightharpoonup> double"
  pageSizeBytes :: long
  serviceTime :: double

text \<open>The branch a SYN leaves \<open>handleTCPSyn\<close> by (its log line).\<close>

datatype syn_verdict = SynFloodDrop | InvalidCookieDrop | SynAckSent

text \<open>
  \<open>serverSeq\<close> is the draw \<open>intuniform(1000, 9999)\<close>. \<open>synCounts[src]++\<close> on a missing
  key starts from 0.
\<close>

definition HTTP_handleTCPSyn :: "simtime \<Rightarrow> long \<Rightarrow> cMessage \<Rightarrow> HTTP \<Rightarrow> (HTTP \<times> emission list \<times> syn_verdict) option" where
  "HTTP_handleTCPSyn now serverSeq msg s =
     (let src = SRC msg;
          seq = SEQ msg;
          cnt = (case synCounts s src of None \<Rightarrow> 0 | Some c \<Rightarrow> c) + 1;
          s1 = s\<lparr>synCounts := (synCounts s)(src \<mapsto> cnt),
                 synTimestamps := (synTimestamps s)(src \<mapsto> now)\<rparr>
      in if real_of_int (sint cnt) > synRateLimit s1 then Some (s1, [], SynFloodDrop)
         else
           (case longPar msg ''synCookie'' of
              None \<Rightarrow> None
            | Some cookie \<Rightarrow>
                if \<not> validateSYNCookie cookie src (scast (addr s1)) seq
                then Some (s1, [], InvalidCookieDrop)
                else
                  (let synAck = mk ''TCP_SYN_ACK'' TCP_SYN_ACK (scast (addr s1)) src;
                       synAck = synAck\<lparr>par_seq := serverSeq, par_ack := seq + 1,
                                        par_priority := PRIORITY_HIGH\<rparr>;
                       synAck = addPar ''synCookie''
                                  (LongPar (generateSYNCookie (scast (addr s1)) src serverSeq)) synAck
                   in case sendPacketOnGate now synAck s1 of
                        None \<Rightarrow> None
                      | Some (s2, out) \<Rightarrow>
                          (let conn = TCPConnection_new\<lparr>remoteAddr := src, state := TCP_SYN_RECEIVED,
                                        sendSeq := serverSeq + 1, recvSeq := seq + 1,
                                        conn_cwnd := 1, conn_ssthresh := 64\<rparr>
                           in Some (s2\<lparr>tcpConnections := (tcpConnections s2)(src \<mapsto> conn),
                                        cwndMap := (cwndMap s2)(src \<mapsto> 1),
                                        ssthreshMap := (ssthreshMap s2)(src \<mapsto> 64)\<rparr>,
                                    out, SynAckSent)))))"

text \<open>
  The branch \<open>msg == synFloodCheckTimer\<close> of \<open>handleSelfMessage\<close>: the loop erases, from
  both maps, every key whose timestamp is more than 60 seconds old, and the timer is
  scheduled again one second later.
\<close>

definition HTTP_synFloodCheck :: "simtime \<Rightarrow> HTTP \<Rightarrow> HTTP option" where
  "HTTP_synFloodCheck now s =
     (let old = (\<lambda>k. case synTimestamps s k of None \<Rightarrow> False | Some t \<Rightarrow> now - t > 60);
          s1 = s\<lparr>synCounts := (\<lambda>k. if old k then None else synCounts s k),
                 synTimestamps := (\<lambda>k. if old k then None else synTimestamps s k)\<rparr>
      in case scheduleAt now (now + 1) of
           None \<Rightarrow> None
         | Some t \<Rightarrow> Some (s1\<lparr>synFloodCheckTimer := Some t\<rparr>))"

text \<open>
  \<open>initialize\<close>, from the module parameters and the duration of a frame on the channel.
\<close>

definition HTTP_initialize :: "simtime \<Rightarrow> cint \<Rightarrow> double \<Rightarrow> long \<Rightarrow> double \<Rightarrow> (cMessage \<Rightarrow> simtime) \<Rightarrow> HTTP" where
  "HTTP_initialize now address limit pageSize service dur =
     \<lparr>addr = address, sharedKeys = Map.empty,
      myPublicKey = generateECDHPublicKey (scast (address * 2)),
      myPrivateKey = generateECDHPublicKey (scast address),
      tcpConnections = Map.empty, txQueue = [], endTxEvent = None, chFinishTime = 0,
      chDuration = dur, synCounts = Map.empty, synTimestamps = Map.empty,
      synRateLimit = limit, synFloodCheckTimer = Some (now + 1), responseQueue = [],
      sendQueueTimer = None, cwndMap = Map.empty, ssthreshMap = Map.empty,
      pageSizeBytes = pageSize, serviceTime = service\<rparr>"

definition HTTP_handleTCPFin :: "simtime \<Rightarrow> cMessage \<Rightarrow> HTTP \<Rightarrow> (HTTP \<times> emission list) option" where
  "HTTP_handleTCPFin now msg s =
     (let src = SRC msg;
          finAck = (mk ''TCP_FIN'' TCP_FIN (scast (addr s)) src)\<lparr>par_priority := PRIORITY_NORMAL\<rparr>
      in case sendPacketOnGate now finAck s of
           None \<Rightarrow> None
         | Some (s1, out) \<Rightarrow>
             Some (s1\<lparr>tcpConnections := (tcpConnections s1)(src := None),
                      cwndMap := (cwndMap s1)(src := None),
                      ssthreshMap := (ssthreshMap s1)(src := None)\<rparr>, out))"


text \<open>
  A run of the limiter: the SYNs that arrive (each with the server's draw of its
  sequence number) and the firings of \<open>synFloodCheckTimer\<close>, each with its time; the
  result is the final state and the verdict on each SYN, in order.
\<close>

datatype HTTP_event = SynArrival long cMessage | SynFloodCheck

fun HTTP_run :: "HTTP \<Rightarrow> (simtime \<times> HTTP_event) list \<Rightarrow> (HTTP \<times> syn_verdict list) option" where
  "HTTP_run s [] = Some (s, [])"
| "HTTP_run s ((now, SynArrival serverSeq msg) # evs) =
     (case HTTP_handleTCPSyn now serverSeq msg s of
        None \<Rightarrow> None
      | Some (s1, out, v) \<Rightarrow>
          (case HTTP_run s1 evs of
             None \<Rightarrow> None
           | Some (s2, vs) \<Rightarrow> Some (s2, v # vs)))"
| "HTTP_run s ((now, SynFloodCheck) # evs) =
     (case HTTP_synFloodCheck now s of
        None \<Rightarrow> None
      | Some s1 \<Rightarrow> HTTP_run s1 evs)"

text \<open>
  \<open>handleHTTPGet\<close>. A response of priority high or critical is handed to
  \<open>sendDelayed\<close> on the gate itself; the others are pushed on \<open>responseQueue\<close>, which
  the \<open>sendQueueTimer\<close> branch later drains through \<open>sendPacketOnGate\<close>. A negative
  delay is an error of \<open>sendDelayed\<close>.
\<close>

definition HTTP_handleHTTPGet :: "simtime \<Rightarrow> cMessage \<Rightarrow> HTTP \<Rightarrow> (HTTP \<times> emission list) option" where
  "HTTP_handleHTTPGet now msg s =
     (let src = SRC msg
      in case stringPar msg ''path'' of
           None \<Rightarrow> None
         | Some path \<Rightarrow>
         (case (if hasPar msg ''encrypted'' then boolPar msg ''encrypted'' else Some False) of
           None \<Rightarrow> None
         | Some isEncrypted \<Rightarrow>
         (let priority = PRIORITY msg
          in case (if isEncrypted
                   then (case sharedKeys s src of None \<Rightarrow> Some path | Some k \<Rightarrow> simpleDecrypt path k)
                   else Some path) of
           None \<Rightarrow> None
         | Some path \<Rightarrow>
         (let responseKind = (if msgKind msg = TCP_DATA then TCP_DATA else HTTP_RESPONSE);
              resp = mk ''HTTP_RESPONSE'' responseKind (scast (addr s)) src;
              resp = addPar ''bytes'' (LongPar (pageSizeBytes s)) resp;
              resp = resp\<lparr>par_priority := scast priority\<rparr>
          in case (case sharedKeys s src of
                     None \<Rightarrow> Some resp
                   | Some k \<Rightarrow>
                       (case simpleEncrypt (literal ''HTTP_DATA'') k of
                          None \<Rightarrow> None
                        | Some encrypted \<Rightarrow>
                            Some (addPar ''encrypted'' (BoolPar True)
                                   (addPar ''encData'' (StringPar (c_str encrypted)) resp)))) of
           None \<Rightarrow> None
         | Some resp \<Rightarrow>
         (let (resp, s1) =
                (if responseKind = TCP_DATA
                 then (case tcpConnections s src of
                         None \<Rightarrow> (resp, s)
                       | Some c \<Rightarrow>
                           (resp\<lparr>par_seq := sendSeq c, par_ack := recvSeq c\<rparr>,
                            s\<lparr>tcpConnections := (tcpConnections s)(src \<mapsto> c\<lparr>sendSeq := sendSeq c + 1\<rparr>)\<rparr>))
                 else (resp, s))
          in if word_sle 2 priority
             then (if serviceTime s1 * 0.5 < 0 then None
                   else Some (s1, [SendDelayed (serviceTime s1 * 0.5) 0 resp]))
             else
               (let s2 = s1\<lparr>responseQueue := responseQueue s1 @ [resp]\<rparr>
                in case sendQueueTimer s2 of
                     Some t \<Rightarrow> Some (s2, [])
                   | None \<Rightarrow>
                       (case scheduleAt now (now + serviceTime s2) of
                          None \<Rightarrow> None
                        | Some t \<Rightarrow> Some (s2\<lparr>sendQueueTimer := Some t\<rparr>, []))))))))"

text \<open>
  \<open>handleUDPRequest\<close>: the response to a UDP request that carries a path is handed to
  \<open>sendDelayed\<close> on the gate itself, whatever its priority; a request without a path is
  deleted.
\<close>

definition HTTP_handleUDPRequest :: "simtime \<Rightarrow> cMessage \<Rightarrow> HTTP \<Rightarrow> (HTTP \<times> emission list) option" where
  "HTTP_handleUDPRequest now msg s =
     (if hasPar msg ''path''
      then
        (let src = SRC msg
         in case stringPar msg ''path'' of
              None \<Rightarrow> None
            | Some path \<Rightarrow>
            (case (if hasPar msg ''encrypted'' then boolPar msg ''encrypted'' else Some False) of
              None \<Rightarrow> None
            | Some isEncrypted \<Rightarrow>
            (case (if isEncrypted
                   then (case sharedKeys s src of None \<Rightarrow> Some path | Some k \<Rightarrow> simpleDecrypt path k)
                   else Some path) of
              None \<Rightarrow> None
            | Some path \<Rightarrow>
            (let resp = mk ''HTTP_RESPONSE'' UDP_DATA (scast (addr s)) src;
                 resp = addPar ''bytes'' (LongPar (pageSizeBytes s)) resp;
                 resp = resp\<lparr>par_priority := scast (PRIORITY msg)\<rparr>
             in case (case sharedKeys s src of
                        None \<Rightarrow> Some resp
                      | Some k \<Rightarrow>
                          (case simpleEncrypt (literal ''HTTP_UDP_DATA'') k of
                             None \<Rightarrow> None
                           | Some encrypted \<Rightarrow>
                               Some (addPar ''encrypted'' (BoolPar True)
                                      (addPar ''encData'' (StringPar (c_str encrypted)) resp)))) of
              None \<Rightarrow> None
            | Some resp \<Rightarrow>
                if serviceTime s * 0.3 < 0 then None
                else Some (s, [SendDelayed (serviceTime s * 0.3) 0 resp])))))
      else Some (s, []))"

subsection \<open>The DNS server (dns.cc)\<close>

text \<open>\<open>par(name).set...Value(v)\<close> on a parameter the message already has.\<close>

primrec setFirst :: "string \<Rightarrow> parval \<Rightarrow> (string \<times> parval) list \<Rightarrow> (string \<times> parval) list" where
  "setFirst name v [] = []"
| "setFirst name v (p # ps) = (if fst p = name then (name, v) # ps else p # setFirst name v ps)"

definition setPar :: "string \<Rightarrow> parval \<Rightarrow> cMessage \<Rightarrow> cMessage" where
  "setPar name v m = m\<lparr>pars := setFirst name v (pars m)\<rparr>"

text \<open>
  The DNS server. It has no SYN counters: \<open>requestCounts\<close> counts the frames of every
  kind a source sends, \<open>rateLimit\<close> is its module parameter, and the timer that clears
  the counters carries the prefix \<open>dns_\<close> here. \<open>lastRequestTime\<close> and \<open>requestQueue\<close>
  are declared and never written.
\<close>

record DNS = endpoint +
  answer :: cint
  requestCounts :: "long \<rightharpoonup> cint"
  lastRequestTime :: "long \<rightharpoonup> simtime"
  rateLimit :: double
  dns_rateLimitResetTimer :: "simtime option"
  requestQueue :: "cMessage list"

definition DNS_initialize :: "simtime \<Rightarrow> cint \<Rightarrow> cint \<Rightarrow> double \<Rightarrow> (cMessage \<Rightarrow> simtime) \<Rightarrow> DNS" where
  "DNS_initialize now address answerAddr limit dur =
     \<lparr>addr = address, sharedKeys = Map.empty,
      myPublicKey = generateECDHPublicKey (scast (address * 2)),
      myPrivateKey = generateECDHPublicKey (scast address),
      tcpConnections = Map.empty, txQueue = [], endTxEvent = None, chFinishTime = 0,
      chDuration = dur, answer = answerAddr, requestCounts = Map.empty,
      lastRequestTime = Map.empty, rateLimit = limit,
      dns_rateLimitResetTimer = Some (now + 1), requestQueue = []\<rparr>"

text \<open>
  \<open>DNS::handleTCPSyn\<close> has no counter: it reads the cookie, drops the SYN when the cookie
  fails and otherwise answers with a SYN-ACK and records the connection.
\<close>

definition DNS_handleTCPSyn :: "simtime \<Rightarrow> long \<Rightarrow> cMessage \<Rightarrow> DNS \<Rightarrow> (DNS \<times> emission list) option" where
  "DNS_handleTCPSyn now serverSeq msg s =
     (let src = SRC msg;
          seq = SEQ msg
      in case longPar msg ''synCookie'' of
           None \<Rightarrow> None
         | Some cookie \<Rightarrow>
             if \<not> validateSYNCookie cookie src (scast (addr s)) seq then Some (s, [])
             else
               (let synAck = mk ''TCP_SYN_ACK'' TCP_SYN_ACK (scast (addr s)) src;
                    synAck = synAck\<lparr>par_seq := serverSeq, par_ack := seq + 1,
                                     par_priority := PRIORITY_HIGH\<rparr>;
                    synAck = addPar ''synCookie''
                               (LongPar (generateSYNCookie (scast (addr s)) src serverSeq)) synAck
                in case sendPacketOnGate now synAck s of
                     None \<Rightarrow> None
                   | Some (s1, out) \<Rightarrow>
                       (let conn = TCPConnection_new\<lparr>remoteAddr := src, state := TCP_SYN_RECEIVED,
                                     sendSeq := serverSeq + 1, recvSeq := seq + 1\<rparr>
                        in Some (s1\<lparr>tcpConnections := (tcpConnections s1)(src \<mapsto> conn)\<rparr>, out))))"

definition DNS_handleTCPAck :: "cMessage \<Rightarrow> DNS \<Rightarrow> DNS" where
  "DNS_handleTCPAck msg s =
     (let src = SRC msg
      in case tcpConnections s src of
           None \<Rightarrow> s
         | Some c \<Rightarrow>
             if state c = TCP_SYN_RECEIVED
             then s\<lparr>tcpConnections := (tcpConnections s)(src \<mapsto> c\<lparr>state := TCP_ESTABLISHED\<rparr>)\<rparr>
             else s)"

definition DNS_handleDNSQuery :: "simtime \<Rightarrow> cMessage \<Rightarrow> DNS \<Rightarrow> (DNS \<times> emission list) option" where
  "DNS_handleDNSQuery now msg s =
     (let src = SRC msg
      in case stringPar msg ''qname'' of
           None \<Rightarrow> None
         | Some query \<Rightarrow>
         (case (if hasPar msg ''encrypted'' then boolPar msg ''encrypted'' else Some False) of
           None \<Rightarrow> None
         | Some isEncrypted \<Rightarrow>
         (case (if hasPar msg ''protocol''
                then map_option (\<lambda>p. p = literal ''UDP'') (stringPar msg ''protocol'')
                else Some False) of
           None \<Rightarrow> None
         | Some isUDP \<Rightarrow>
         (case (if isEncrypted
                then (case sharedKeys s src of None \<Rightarrow> Some query | Some k \<Rightarrow> simpleDecrypt query k)
                else Some query) of
           None \<Rightarrow> None
         | Some query \<Rightarrow>
         (let responseKind = (if isUDP then UDP_DATA
                              else if msgKind msg = TCP_DATA then TCP_DATA else DNS_RESPONSE);
              resp = mk ''DNS_RESPONSE'' responseKind (scast (addr s)) src;
              resp = addPar ''qname'' (StringPar (c_str query)) resp;
              resp = addPar ''answer'' (LongPar (scast (answer s))) resp
          in case (case sharedKeys s src of
                     None \<Rightarrow> Some resp
                   | Some k \<Rightarrow>
                       (case simpleEncrypt query k of
                          None \<Rightarrow> None
                        | Some encryptedQname \<Rightarrow>
                            Some (addPar ''encrypted'' (BoolPar True)
                                   (setPar ''qname'' (StringPar (c_str encryptedQname)) resp)))) of
           None \<Rightarrow> None
         | Some resp \<Rightarrow>
         (let resp = resp\<lparr>par_priority := scast (PRIORITY msg)\<rparr>;
              (resp, s1) =
                (if responseKind = TCP_DATA
                 then (case tcpConnections s src of
                         None \<Rightarrow> (resp, s)
                       | Some c \<Rightarrow>
                           (resp\<lparr>par_seq := sendSeq c, par_ack := recvSeq c\<rparr>,
                            s\<lparr>tcpConnections := (tcpConnections s)(src \<mapsto> c\<lparr>sendSeq := sendSeq c + 1\<rparr>)\<rparr>))
                 else (resp, s))
          in sendPacketOnGate now resp s1))))))"

definition DNS_handleTCPData :: "simtime \<Rightarrow> cMessage \<Rightarrow> DNS \<Rightarrow> (DNS \<times> emission list) option" where
  "DNS_handleTCPData now msg s =
     (if hasPar msg ''qname'' then DNS_handleDNSQuery now msg s else Some (s, []))"

text \<open>
  \<open>DNS::handleMessage\<close> on a frame from the network: the counter of the source is
  incremented whatever the kind of the frame, and the frame is deleted before the
  \<open>switch\<close> when the counter exceeds \<open>rateLimit\<close>. The third component tells which of
  the two ways the frame went.
\<close>

datatype dns_verdict = RateLimitDrop | Dispatched

definition DNS_handleMessage :: "simtime \<Rightarrow> long \<Rightarrow> cMessage \<Rightarrow> DNS \<Rightarrow> (DNS \<times> emission list \<times> dns_verdict) option" where
  "DNS_handleMessage now serverSeq msg s =
     (let kind = msgKind msg;
          src = SRC msg;
          cnt = (case requestCounts s src of None \<Rightarrow> 0 | Some c \<Rightarrow> c) + 1;
          s1 = s\<lparr>requestCounts := (requestCounts s)(src \<mapsto> cnt)\<rparr>
      in if real_of_int (sint cnt) > rateLimit s1 then Some (s1, [], RateLimitDrop)
         else
           map_option (\<lambda>(s2, out). (s2, out, Dispatched))
             (if kind = KEY_EXCHANGE then handleKeyExchange now msg s1
              else if kind = TCP_SYN then DNS_handleTCPSyn now serverSeq msg s1
              else if kind = TCP_ACK then Some (DNS_handleTCPAck msg s1, [])
              else if kind = TCP_DATA then DNS_handleTCPData now msg s1
              else if kind = DNS_QUERY then DNS_handleDNSQuery now msg s1
              else Some (s1, [])))"

text \<open>The branch \<open>msg == rateLimitResetTimer\<close>: every counter is cleared.\<close>

definition DNS_rateLimitReset :: "simtime \<Rightarrow> DNS \<Rightarrow> DNS option" where
  "DNS_rateLimitReset now s =
     (let s1 = s\<lparr>requestCounts := Map.empty\<rparr>
      in case scheduleAt now (now + 1) of
           None \<Rightarrow> None
         | Some t \<Rightarrow> Some (s1\<lparr>dns_rateLimitResetTimer := Some t\<rparr>))"

text \<open>
  A run of the DNS server: the frames that arrive (each with the draw of the server's
  sequence number), the firings of the reset timer and of the end-of-transmission
  timer, each with its time; the result is the final state and the way each frame went.
\<close>

datatype DNS_event = DnsArrival long cMessage | DnsRateLimitReset | DnsEndTx

fun DNS_run :: "DNS \<Rightarrow> (simtime \<times> DNS_event) list \<Rightarrow> (DNS \<times> dns_verdict list) option" where
  "DNS_run s [] = Some (s, [])"
| "DNS_run s ((now, DnsArrival serverSeq msg) # evs) =
     (case DNS_handleMessage now serverSeq msg s of
        None \<Rightarrow> None
      | Some (s1, out, v) \<Rightarrow>
          (case DNS_run s1 evs of
             None \<Rightarrow> None
           | Some (s2, vs) \<Rightarrow> Some (s2, v # vs)))"
| "DNS_run s ((now, DnsRateLimitReset) # evs) =
     (case DNS_rateLimitReset now s of
        None \<Rightarrow> None
      | Some s1 \<Rightarrow> DNS_run s1 evs)"
| "DNS_run s ((now, DnsEndTx) # evs) =
     (case handleEndTx now s of
        None \<Rightarrow> None
      | Some (s1, out) \<Rightarrow> DNS_run s1 evs)"

section \<open>The client (pc.cc)\<close>

text \<open>The client keeps one congestion window for all its connections.\<close>

record PC = endpoint +
  dnsAddr :: cint
  qname :: cstring
  protocol :: string
  cwnd :: double
  ssthresh :: double
  dupAckCount :: cint
  retransmitTimer :: "simtime option"
  congestionTimer :: "simtime option"

text \<open>\<open>initialize\<close>, from the module parameters and the duration of a frame on the channel.\<close>

definition PC_initialize :: "cint \<Rightarrow> cint \<Rightarrow> cstring \<Rightarrow> string \<Rightarrow> (cMessage \<Rightarrow> simtime) \<Rightarrow> PC" where
  "PC_initialize address dns name proto dur =
     \<lparr>addr = address, sharedKeys = Map.empty,
      myPublicKey = generateECDHPublicKey (scast (address * 2)),
      myPrivateKey = generateECDHPublicKey (scast address),
      tcpConnections = Map.empty, txQueue = [], endTxEvent = None, chFinishTime = 0,
      chDuration = dur, dnsAddr = dns, qname = name, protocol = proto, cwnd = 1,
      ssthresh = 64, dupAckCount = 0, retransmitTimer = None, congestionTimer = None\<rparr>"

definition PC_handleTCPAck :: "cMessage \<Rightarrow> PC \<Rightarrow> PC" where
  "PC_handleTCPAck msg s =
     (let s1 = (if cwnd s < ssthresh s then s\<lparr>cwnd := cwnd s * 2\<rparr>
                else s\<lparr>cwnd := cwnd s + 1 / cwnd s\<rparr>)
      in s1\<lparr>dupAckCount := 0\<rparr>)"

definition PC_handleCongestionTimeout :: "PC \<Rightarrow> PC" where
  "PC_handleCongestionTimeout s =
     (let s1 = s\<lparr>ssthresh := cwnd s / 2\<rparr>;
          s2 = s1\<lparr>cwnd := 1\<rparr>
      in s2\<lparr>dupAckCount := 0\<rparr>)"

text \<open>
  \<open>tcpConnections[peerAddr].state = TCP_CLOSED\<close>: \<open>operator[]\<close> inserts a
  default-constructed connection when the peer has no entry.
\<close>

definition PC_handleTCPFin :: "simtime \<Rightarrow> cMessage \<Rightarrow> PC \<Rightarrow> (PC \<times> emission list) option" where
  "PC_handleTCPFin now msg s =
     (let peerAddr = SRC msg;
          finAck = (mk ''TCP_FIN'' TCP_FIN (scast (addr s)) peerAddr)\<lparr>par_priority := PRIORITY_NORMAL\<rparr>
      in case sendPacketOnGate now finAck s of
           None \<Rightarrow> None
         | Some (s1, out) \<Rightarrow>
             (let c = (case tcpConnections s1 peerAddr of None \<Rightarrow> TCPConnection_new | Some c \<Rightarrow> c)
              in Some (s1\<lparr>tcpConnections := (tcpConnections s1)(peerAddr \<mapsto> c\<lparr>state := TCP_CLOSED\<rparr>)\<rparr>,
                       out)))"

text \<open>The events that change the client's congestion window, and a run of them.\<close>

datatype cwnd_event = AckReceived cMessage | CongestionTimeout

fun PC_cwnd_step :: "PC \<Rightarrow> cwnd_event \<Rightarrow> PC" where
  "PC_cwnd_step s (AckReceived msg) = PC_handleTCPAck msg s"
| "PC_cwnd_step s CongestionTimeout = PC_handleCongestionTimeout s"


section \<open>The router (router.cc)\<close>

record RouteEntry =
  destAddr :: long
  nextHop :: cint
  metric :: double
  bandwidth :: double
  delay :: double
  hopCount :: cint
  lastUpdate :: simtime

text \<open>The fields of \<open>LinkState\<close> carry the prefix \<open>ls_\<close>.\<close>

record LinkState =
  ls_routerId :: long
  ls_linkId :: cint
  ls_cost :: double
  ls_bandwidth :: double
  ls_delay :: double
  ls_timestamp :: simtime

text \<open>
  The router's state. The maps that the code reads with \<open>operator[]\<close> only
  (\<open>linkBandwidth\<close>, \<open>linkUtilization\<close>, \<open>synCounts\<close>, \<open>txQueue\<close>, \<open>endTxEvent\<close>) are
  total functions (a missing key reads as 0, the empty queue, \<open>nullptr\<close>); the fields
  whose names an endpoint already uses carry the prefix \<open>r_\<close>. \<open>outputQueues\<close> is the
  vector of priority queues, each the list of the frames pushed on it. \<open>gateSize\<close> is
  \<open>gateSize("pppg")\<close>; the last two fields are the transmission channels of the output
  gates, as the simulator keeps them.
\<close>

record Router =
  routingTable :: "long \<rightharpoonup> RouteEntry"
  linkStateDB :: "long \<rightharpoonup> LinkState"
  routerId :: long
  routingProtocol :: string
  ospfHelloInterval :: double
  ospfLSAInterval :: double
  ospfHelloTimer :: "simtime option"
  ospfLSATimer :: "simtime option"
  ripUpdateInterval :: double
  ripUpdateTimer :: "simtime option"
  linkBandwidth :: "nat \<Rightarrow> double"
  linkUtilization :: "nat \<Rightarrow> double"
  r_synCounts :: "long \<Rightarrow> cint"
  r_synRateLimit :: double
  rateLimitResetTimer :: "simtime option"
  outputQueues :: "cMessage list list"
  r_txQueue :: "nat \<Rightarrow> cMessage list"
  r_endTxEvent :: "nat \<Rightarrow> simtime option"
  gateSize :: nat
  r_chFinishTime :: "nat \<Rightarrow> simtime"
  r_chDuration :: "nat \<Rightarrow> cMessage \<Rightarrow> simtime"

text \<open>
  The C library calls the router makes on strings, taken as parameters:
  \<open>sscanf(item, "%ld:%lf:%d", ...) == 3\<close> (\<open>scanRoute\<close>),
  \<open>sscanf(item, "%ld:%d", ...) == 2\<close> (\<open>scanStatic\<close>) and the \<open>stringstream\<close> loop of
  \<open>sendRIPUpdate\<close> that prints the routing table as \<open>dest:metric:hops,\<close> in key order
  (\<open>printRoutes\<close>).
\<close>

record libc =
  scanRoute :: "cstring \<Rightarrow> (long \<times> double \<times> cint) option"
  scanStatic :: "cstring \<Rightarrow> (long \<times> cint) option"
  printRoutes :: "(long \<rightharpoonup> RouteEntry) \<Rightarrow> cstring"

text \<open>
  \<open>while (getline(ss, item, ','))\<close>: the items between commas; a last item that no
  comma ends is returned when it is not empty.
\<close>

primrec getlines :: "cstring \<Rightarrow> cstring \<Rightarrow> cstring list" where
  "getlines item [] = (if item = [] then [] else [item])"
| "getlines item (c # cs) =
     (if c = 0x2C then item # getlines [] cs else getlines (item @ [c]) cs)"

subsection \<open>The per-gate transmitter\<close>

text \<open>
  Modelled from the spec: the simulator's \<open>send\<close> on the channel of gate \<open>g\<close>, a fatal
  error while the channel is busy.
\<close>

definition r_send :: "simtime \<Rightarrow> cMessage \<Rightarrow> nat \<Rightarrow> Router \<Rightarrow> (Router \<times> emission list) option" where
  "r_send now msg g s =
     (if r_chFinishTime s g > now then None
      else Some (s\<lparr>r_chFinishTime := (r_chFinishTime s)(g := now + r_chDuration s g msg)\<rparr>,
                 [Send g msg]))"

definition r_startTransmission :: "simtime \<Rightarrow> cMessage \<Rightarrow> nat \<Rightarrow> Router \<Rightarrow> (Router \<times> emission list) option" where
  "r_startTransmission now msg gateIndex s =
     (case r_send now msg gateIndex s of
        None \<Rightarrow> None
      | Some (s1, out) \<Rightarrow>
          (let finishTime = r_chFinishTime s1 gateIndex
           in if finishTime > now
              then Some (s1\<lparr>r_endTxEvent := (r_endTxEvent s1)(gateIndex := Some finishTime)\<rparr>, out)
              else Some (s1, out)))"

definition r_sendPacketOnGate :: "simtime \<Rightarrow> cMessage \<Rightarrow> nat \<Rightarrow> Router \<Rightarrow> (Router \<times> emission list) option" where
  "r_sendPacketOnGate now msg gateIndex s =
     (let finishTime = r_chFinishTime s gateIndex
      in if finishTime > now
         then Some (s\<lparr>r_txQueue := (r_txQueue s)(gateIndex := r_txQueue s gateIndex @ [msg])\<rparr>, [])
         else r_startTransmission now msg gateIndex s)"

text \<open>A loop that hands one frame after the other to \<open>sendPacketOnGate\<close>.\<close>

fun sendAll :: "simtime \<Rightarrow> (nat \<times> cMessage) list \<Rightarrow> Router \<Rightarrow> (Router \<times> emission list) option" where
  "sendAll now [] s = Some (s, [])"
| "sendAll now ((g, m) # rest) s =
     (case r_sendPacketOnGate now m g s of
        None \<Rightarrow> None
      | Some (s1, out1) \<Rightarrow>
          (case sendAll now rest s1 of
             None \<Rightarrow> None
           | Some (s2, out2) \<Rightarrow> Some (s2, out1 @ out2)))"

subsection \<open>The control plane\<close>

definition sendOSPFHello :: "simtime \<Rightarrow> Router \<Rightarrow> (Router \<times> emission list) option" where
  "sendOSPFHello now s =
     sendAll now
       (map (\<lambda>i. (i, (mk ''OSPF_HELLO'' OSPF_HELLO (routerId s) (- 1))\<lparr>par_priority := PRIORITY_HIGH\<rparr>))
          [0..<gateSize s]) s"

text \<open>
  \<open>sendOSPFLSA\<close>: the local \<open>LinkState ls\<close> of link \<open>i\<close> is stamped with the current
  time; the frame built from it carries the link id, the cost, the bandwidth and the
  delay, but no timestamp, and goes to every gate but \<open>i\<close>. (Where the denominator of the
  cost is 0 the double is an infinity, which the model does not have.)
\<close>

definition lsOf :: "simtime \<Rightarrow> Router \<Rightarrow> nat \<Rightarrow> LinkState" where
  "lsOf now s i =
     \<lparr>ls_routerId = routerId s, ls_linkId = of_nat i,
      ls_cost = 1 / (linkBandwidth s i - linkUtilization s i + 1),
      ls_bandwidth = linkBandwidth s i - linkUtilization s i,
      ls_delay = 1, ls_timestamp = now\<rparr>"

definition lsaOf :: "simtime \<Rightarrow> Router \<Rightarrow> nat \<Rightarrow> cMessage" where
  "lsaOf now s i =
     (let ls = lsOf now s i;
          lsa = mk ''OSPF_LSA'' OSPF_TE_UPDATE (routerId s) (- 1);
          lsa = addPar ''linkId'' (LongPar (of_nat i)) lsa;
          lsa = addPar ''cost'' (DoublePar (ls_cost ls)) lsa;
          lsa = addPar ''bandwidth'' (DoublePar (ls_bandwidth ls)) lsa;
          lsa = addPar ''delay'' (DoublePar (ls_delay ls)) lsa
      in lsa\<lparr>par_priority := PRIORITY_HIGH\<rparr>)"

definition sendOSPFLSA :: "simtime \<Rightarrow> Router \<Rightarrow> (Router \<times> emission list) option" where
  "sendOSPFLSA now s =
     sendAll now
       (concat (map (\<lambda>i. map (\<lambda>j. (j, lsaOf now s i)) (filter (\<lambda>j. j \<noteq> i) [0..<gateSize s]))
          [0..<gateSize s])) s"

definition handleOSPFHello :: "cMessage \<Rightarrow> Router \<Rightarrow> (Router \<times> emission list) option" where
  "handleOSPFHello msg s = Some (s, [])"

text \<open>
  \<open>handleOSPFLSA\<close>: the record is stamped with the time of receipt and stored under
  \<open>originRouter * 1000 + linkId\<close>, whatever the database holds; \<open>computeOSPFRoutes\<close>
  only writes a log line; the frame is then flooded to every gate but the arrival gate.
\<close>

definition handleOSPFLSA :: "simtime \<Rightarrow> nat \<Rightarrow> cMessage \<Rightarrow> Router \<Rightarrow> (Router \<times> emission list) option" where
  "handleOSPFLSA now inGate msg s =
     (let originRouter = SRC msg
      in case longPar msg ''linkId'' of None \<Rightarrow> None | Some linkIdL \<Rightarrow>
        (case doublePar msg ''cost'' of None \<Rightarrow> None | Some cost \<Rightarrow>
        (case doublePar msg ''bandwidth'' of None \<Rightarrow> None | Some bw \<Rightarrow>
        (case doublePar msg ''delay'' of None \<Rightarrow> None | Some dl \<Rightarrow>
          (let linkId = (ucast linkIdL :: cint);
               ls = \<lparr>ls_routerId = originRouter, ls_linkId = linkId, ls_cost = cost,
                     ls_bandwidth = bw, ls_delay = dl, ls_timestamp = now\<rparr>;
               s1 = s\<lparr>linkStateDB := (linkStateDB s)(originRouter * 1000 + scast linkId \<mapsto> ls)\<rparr>
           in sendAll now (map (\<lambda>i. (i, msg)) (filter (\<lambda>i. i \<noteq> inGate) [0..<gateSize s1])) s1)))))"

definition sendRIPUpdate :: "libc \<Rightarrow> simtime \<Rightarrow> Router \<Rightarrow> (Router \<times> emission list) option" where
  "sendRIPUpdate L now s =
     sendAll now
       (map (\<lambda>i. (i, (addPar ''routes'' (StringPar (c_str (printRoutes L (routingTable s))))
                        (mk ''RIP_UPDATE'' RIP_UPDATE (routerId s) (- 1)))
                     \<lparr>par_priority := PRIORITY_NORMAL\<rparr>))
          [0..<gateSize s]) s"

text \<open>
  The body of the loop of \<open>handleRIPUpdate\<close> for one item of the routes string, on the
  routing table. The entry it installs is a default-constructed \<open>RouteEntry\<close>
  (bandwidth 0, delay 0) with the five fields the code assigns. \<open>hops + 1\<close> is an
  addition of \<open>int\<close>: at \<open>INT_MAX\<close> it overflows, and the sum is taken as the machine
  gives it, wrapped around to \<open>INT_MIN\<close>.
\<close>

definition ripImport :: "libc \<Rightarrow> simtime \<Rightarrow> nat \<Rightarrow> cstring \<Rightarrow> (long \<rightharpoonup> RouteEntry) \<Rightarrow> (long \<rightharpoonup> RouteEntry)" where
  "ripImport L now inGate item tbl =
     (if item = [] then tbl
      else case scanRoute L item of
             None \<Rightarrow> tbl
           | Some (dest, mtr, hops) \<Rightarrow>
               (let newMetric = mtr + 1;
                    newHops = hops + 1
                in if sint newHops < 16
                   then (if (case tbl dest of None \<Rightarrow> True | Some e \<Rightarrow> newMetric < metric e)
                         then tbl(dest \<mapsto> \<lparr>destAddr = dest, nextHop = of_nat inGate,
                                            metric = newMetric, bandwidth = 0, delay = 0,
                                            hopCount = newHops, lastUpdate = now\<rparr>)
                         else tbl)
                   else tbl))"

definition handleRIPUpdate :: "libc \<Rightarrow> simtime \<Rightarrow> nat \<Rightarrow> cMessage \<Rightarrow> Router \<Rightarrow> (Router \<times> emission list) option" where
  "handleRIPUpdate L now inGate msg s =
     (case stringPar msg ''routes'' of
        None \<Rightarrow> None
      | Some routes \<Rightarrow>
          Some (s\<lparr>routingTable := foldl (\<lambda>tbl item. ripImport L now inGate item tbl)
                                     (routingTable s) (getlines [] routes)\<rparr>, []))"

definition handleRIPRequest :: "libc \<Rightarrow> simtime \<Rightarrow> Router \<Rightarrow> (Router \<times> emission list) option" where
  "handleRIPRequest L now s = sendRIPUpdate L now s"

subsection \<open>The forwarding plane\<close>

definition flood :: "simtime \<Rightarrow> nat \<Rightarrow> cMessage \<Rightarrow> Router \<Rightarrow> (Router \<times> emission list) option" where
  "flood now inIdx msg s =
     sendAll now (map (\<lambda>i. (i, msg)) (filter (\<lambda>i. i \<noteq> inIdx) [0..<gateSize s])) s"

definition forwardPacket :: "simtime \<Rightarrow> nat \<Rightarrow> cMessage \<Rightarrow> Router \<Rightarrow> (Router \<times> emission list) option" where
  "forwardPacket now inGate msg s =
     (let dst = DST msg
      in case routingTable s dst of
           None \<Rightarrow> flood now inGate msg s
         | Some e \<Rightarrow>
             (let g = nextHop e
              in if 0 \<le> sint g \<and> sint g < int (gateSize s)
                 then
                   (let gi = nat (sint g);
                        msgSize = (if byteLength msg > 0 then real_of_int (byteLength msg) else 1000);
                        s1 = s\<lparr>linkUtilization :=
                                 (linkUtilization s)(gi := linkUtilization s gi + msgSize / 1000000)\<rparr>;
                        priority = PRIORITY msg
                    in if word_sle 2 priority \<or> outputQueues s1 ! gi = []
                       then r_sendPacketOnGate now msg gi s1
                       else Some (s1\<lparr>outputQueues :=
                                      (outputQueues s1)[gi := outputQueues s1 ! gi @ [msg]]\<rparr>, []))
                 else flood now inGate msg s))"

subsection \<open>The reactor\<close>

text \<open>
  A message that arrives on gate \<open>inGate\<close>. The SYN counter is an \<open>int\<close> compared with
  the double \<open>synRateLimit\<close>.
\<close>

definition Router_handleMessage :: "libc \<Rightarrow> simtime \<Rightarrow> nat \<Rightarrow> cMessage \<Rightarrow> Router \<Rightarrow> (Router \<times> emission list) option" where
  "Router_handleMessage L now inGate msg s =
     (let knd = msgKind msg
      in if knd = OSPF_HELLO then handleOSPFHello msg s
         else if knd = OSPF_LSA \<or> knd = OSPF_TE_UPDATE then handleOSPFLSA now inGate msg s
         else if knd = RIP_UPDATE then handleRIPUpdate L now inGate msg s
         else if knd = RIP_REQUEST then handleRIPRequest L now s
         else if knd = TCP_SYN
         then (let src = SRC msg;
                   s1 = s\<lparr>r_synCounts := (r_synCounts s)(src := r_synCounts s src + 1)\<rparr>
               in if real_of_int (sint (r_synCounts s1 src)) > r_synRateLimit s1
                  then Some (s1, [])
                  else forwardPacket now inGate msg s1)
         else forwardPacket now inGate msg s)"

text \<open>
  The self-messages of the router. An end-of-transmission timer is found by comparing
  the message with \<open>endTxEvent[i]\<close> for each gate: \<open>EndTx i\<close> is the timer of gate \<open>i\<close>.
\<close>

datatype RouterTimer =
  OspfHelloTimer | OspfLSATimer | RipUpdateTimer | RateLimitResetTimer | EndTx nat | OtherSelf

definition r_handleEndTx :: "simtime \<Rightarrow> nat \<Rightarrow> Router \<Rightarrow> (Router \<times> emission list) option" where
  "r_handleEndTx now i s =
     (let s1 = s\<lparr>r_endTxEvent := (r_endTxEvent s)(i := None)\<rparr>
      in case r_txQueue s1 i of
           [] \<Rightarrow> Some (s1, [])
         | nextMsg # rest \<Rightarrow>
             r_startTransmission now nextMsg i (s1\<lparr>r_txQueue := (r_txQueue s1)(i := rest)\<rparr>))"

definition Router_handleSelfMessage :: "libc \<Rightarrow> simtime \<Rightarrow> RouterTimer \<Rightarrow> Router \<Rightarrow> (Router \<times> emission list) option" where
  "Router_handleSelfMessage L now tm s =
     (case tm of
        OspfHelloTimer \<Rightarrow>
          (case sendOSPFHello now s of
             None \<Rightarrow> None
           | Some (s1, out) \<Rightarrow>
               (case scheduleAt now (now + ospfHelloInterval s1) of
                  None \<Rightarrow> None
                | Some t \<Rightarrow> Some (s1\<lparr>ospfHelloTimer := Some t\<rparr>, out)))
      | OspfLSATimer \<Rightarrow>
          (case sendOSPFLSA now s of
             None \<Rightarrow> None
           | Some (s1, out) \<Rightarrow>
               (case scheduleAt now (now + ospfLSAInterval s1) of
                  None \<Rightarrow> None
                | Some t \<Rightarrow> Some (s1\<lparr>ospfLSATimer := Some t\<rparr>, out)))
      | RipUpdateTimer \<Rightarrow>
          (case sendRIPUpdate L now s of
             None \<Rightarrow> None
           | Some (s1, out) \<Rightarrow>
               (case scheduleAt now (now + ripUpdateInterval s1) of
                  None \<Rightarrow> None
                | Some t \<Rightarrow> Some (s1\<lparr>ripUpdateTimer := Some t\<rparr>, out)))
      | RateLimitResetTimer \<Rightarrow>
          (case scheduleAt now (now + 1) of
             None \<Rightarrow> None
           | Some t \<Rightarrow> Some (s\<lparr>r_synCounts := (\<lambda>k. 0), rateLimitResetTimer := Some t\<rparr>, []))
      | EndTx i \<Rightarrow>
          (if i < gateSize s \<and> r_endTxEvent s i \<noteq> None then r_handleEndTx now i s
           else Some (s, []))
      | OtherSelf \<Rightarrow> Some (s, []))"

text \<open>
  \<open>initialize\<close>, from the module parameters, the number of gates, the channels'
  durations and the three draws of \<open>uniform\<close>.
\<close>

definition staticRoute :: "libc \<Rightarrow> cstring \<Rightarrow> (long \<rightharpoonup> RouteEntry) \<Rightarrow> (long \<rightharpoonup> RouteEntry)" where
  "staticRoute L item tbl =
     (if item = [] then tbl
      else case scanStatic L item of
             None \<Rightarrow> tbl
           | Some (d, g) \<Rightarrow>
               tbl(d \<mapsto> \<lparr>destAddr = d, nextHop = g, metric = 1, bandwidth = 100, delay = 1,
                         hopCount = 1, lastUpdate = 0\<rparr>))"

record RouterPars =
  p_address :: long
  p_routingProtocol :: string
  p_routes :: cstring
  p_synRateLimit :: double
  p_ospfHelloInterval :: double
  p_ospfLSAInterval :: double
  p_ripUpdateInterval :: double
  p_gateSize :: nat
  p_chDuration :: "nat \<Rightarrow> cMessage \<Rightarrow> simtime"

definition Router_initialize :: "libc \<Rightarrow> simtime \<Rightarrow> RouterPars \<Rightarrow> double \<Rightarrow> double \<Rightarrow> double \<Rightarrow> Router" where
  "Router_initialize L now P uHello uLSA uRIP =
     \<lparr>routingTable = foldl (\<lambda>tbl item. staticRoute L item tbl) Map.empty (getlines [] (p_routes P)),
      linkStateDB = Map.empty,
      routerId = p_address P,
      routingProtocol = p_routingProtocol P,
      ospfHelloInterval = p_ospfHelloInterval P,
      ospfLSAInterval = p_ospfLSAInterval P,
      ospfHelloTimer = (if p_routingProtocol P = ''OSPF-TE'' then Some (now + uHello) else None),
      ospfLSATimer = (if p_routingProtocol P = ''OSPF-TE'' then Some (now + uLSA) else None),
      ripUpdateInterval = p_ripUpdateInterval P,
      ripUpdateTimer = (if p_routingProtocol P = ''RIP'' then Some (now + uRIP) else None),
      linkBandwidth = (\<lambda>i. if i < p_gateSize P then 100 else 0),
      linkUtilization = (\<lambda>i. 0),
      r_synCounts = (\<lambda>k. 0),
      r_synRateLimit = p_synRateLimit P,
      rateLimitResetTimer = Some (now + 1),
      outputQueues = replicate (p_gateSize P) [],
      r_txQueue = (\<lambda>i. []),
      r_endTxEvent = (\<lambda>i. None),
      gateSize = p_gateSize P,
      r_chFinishTime = (\<lambda>i. 0),
      r_chDuration = p_chDuration P\<rparr>"

text \<open>A run of the router: the events the scheduler delivers, each with its time.\<close>

datatype RouterEvent = Arrival nat cMessage | SelfMessage RouterTimer

definition Router_step :: "libc \<Rightarrow> simtime \<Rightarrow> RouterEvent \<Rightarrow> Router \<Rightarrow> (Router \<times> emission list) option" where
  "Router_step L now ev s =
     (case ev of
        Arrival inGate msg \<Rightarrow> Router_handleMessage L now inGate msg s
      | SelfMessage tm \<Rightarrow> Router_handleSelfMessage L now tm s)"

fun Router_run :: "libc \<Rightarrow> Router \<Rightarrow> (simtime \<times> RouterEvent) list \<Rightarrow> Router option" where
  "Router_run L s [] = Some s"
| "Router_run L s ((now, ev) # evs) =
     (case Router_step L now ev s of
        None \<Rightarrow> None
      | Some (s1, out) \<Rightarrow> Router_run L s1 evs)"

text \<open>The value \<open>synCounts[src]\<close> reads: 0 for a source with no entry.\<close>

definition synCountOf :: "HTTP \<Rightarrow> long \<Rightarrow> cint" where
  "synCountOf s a = (case synCounts s a of None \<Rightarrow> 0 | Some c \<Rightarrow> c)"


text \<open>The value \<open>requestCounts[src]\<close> reads: 0 for a source with no entry.\<close>

definition requestCountOf :: "DNS \<Rightarrow> long \<Rightarrow> cint" where
  "requestCountOf s a = (case requestCounts s a of None \<Rightarrow> 0 | Some c \<Rightarrow> c)"

section \<open>Scenario values\<close>

text \<open>
  Concrete values for the closed theorems below: a 100 Mbit/s channel, the HTTP server
  of address 3 with \<open>synRateLimit = 2\<close>, a SYN as the client builds it, a key-exchange
  frame as the client builds it, a burst of SYNs from source 99, the client of address 1,
  an ACK and a FIN, a client and a server with an established connection, and two
  requests for the page with the responses the server builds for them.
\<close>

definition example_dur :: "cMessage \<Rightarrow> simtime" where
  "example_dur m = real (nat (byteLength m)) * 8 / 100000000"

definition http0 :: HTTP where
  "http0 = HTTP_initialize 0 3 2 2048 (1 / 100) example_dur"

definition mkSyn :: "long \<Rightarrow> long \<Rightarrow> long \<Rightarrow> long \<Rightarrow> cMessage" where
  "mkSyn a b q c = addPar ''synCookie'' (LongPar c) ((mk ''TCP_SYN'' TCP_SYN a b)\<lparr>par_seq := q\<rparr>)"

definition keyMsg :: "long \<Rightarrow> long \<Rightarrow> cstring \<Rightarrow> cMessage" where
  "keyMsg a b pub =
     (addPar ''publicKey'' (StringPar (c_str pub)) (mk ''KEY_EXCHANGE'' KEY_EXCHANGE a b))
       \<lparr>par_priority := PRIORITY_HIGH\<rparr>"

definition flood_events :: "(simtime \<times> HTTP_event) list" where
  "flood_events =
     [(1, SynArrival 5000 (mkSyn 99 3 1000 (generateSYNCookie 99 3 1000))),
      (3 / 2, SynFloodCheck),
      (2, SynArrival 5001 (mkSyn 99 3 1001 (generateSYNCookie 99 3 1001))),
      (3, SynArrival 5002 (mkSyn 99 3 1002 (generateSYNCookie 99 3 1002)))]"


definition pc0 :: PC where
  "pc0 = PC_initialize 1 2 (literal ''www.example'') ''TCP'' example_dur"

definition ackMsg :: cMessage where
  "ackMsg = (mk ''TCP_ACK'' TCP_ACK 3 1)\<lparr>par_ack := 1001, par_priority := PRIORITY_HIGH\<rparr>"

definition finMsg :: "long \<Rightarrow> long \<Rightarrow> cMessage" where
  "finMsg a b = (mk ''TCP_FIN'' TCP_FIN a b)\<lparr>par_priority := PRIORITY_NORMAL\<rparr>"

definition conn3 :: TCPConnection where
  "conn3 = TCPConnection_new\<lparr>remoteAddr := 3, state := TCP_ESTABLISHED, sendSeq := 1001, recvSeq := 5001\<rparr>"

definition pc_est :: PC where
  "pc_est = pc0\<lparr>tcpConnections := [3 \<mapsto> conn3]\<rparr>"

definition pc_closed :: PC where
  "pc_closed = pc0\<lparr>tcpConnections := [3 \<mapsto> conn3\<lparr>state := TCP_CLOSED\<rparr>],
                   endTxEvent := Some (1 + 1 / 12500), chFinishTime := 1 + 1 / 12500\<rparr>"

definition http_est :: HTTP where
  "http_est = http0\<lparr>tcpConnections := [1 \<mapsto> conn3\<lparr>remoteAddr := 1\<rparr>],
                    cwndMap := [1 \<mapsto> 2], ssthreshMap := [1 \<mapsto> 64]\<rparr>"

definition getMsg :: cMessage where
  "getMsg = (addPar ''path'' (StringPar (literal ''/'')) (mk ''HTTP_GET'' HTTP_GET 1 3))
              \<lparr>par_priority := PRIORITY_HIGH\<rparr>"

definition getResp :: cMessage where
  "getResp = (addPar ''bytes'' (LongPar 2048) (mk ''HTTP_RESPONSE'' HTTP_RESPONSE 3 1))
               \<lparr>par_priority := PRIORITY_HIGH\<rparr>"

definition udpGetMsg :: cMessage where
  "udpGetMsg = (addPar ''path'' (StringPar (literal ''/'')) (mk ''HTTP_GET'' UDP_DATA 1 3))
                 \<lparr>par_priority := PRIORITY_NORMAL\<rparr>"

definition udpGetResp :: cMessage where
  "udpGetResp = addPar ''bytes'' (LongPar 2048) (mk ''HTTP_RESPONSE'' UDP_DATA 3 1)"

text \<open>
  For the DNS server: the server of address 2 with \<open>rateLimit = 1\<close>, and what the
  client of address 1 sends it: its key exchange, then SYNs with valid cookies, with the
  firings of the reset timer at 1 and 2 and the end of the one transmission in between.
\<close>

definition dns0 :: DNS where
  "dns0 = DNS_initialize 0 2 3 1 example_dur"

definition dns_events :: "(simtime \<times> DNS_event) list" where
  "dns_events =
     [(1 / 4, DnsArrival 5000 (keyMsg 1 2 (generateECDHPublicKey 2))),
      (1 / 2, DnsArrival 5000 (mkSyn 1 2 1000 (generateSYNCookie 1 2 1000))),
      (1, DnsRateLimitReset),
      (5 / 4, DnsArrival 5001 (mkSyn 1 2 1001 (generateSYNCookie 1 2 1001))),
      (5 / 4 + 1 / 12500, DnsEndTx),
      (3 / 2, DnsArrival 5002 (mkSyn 1 2 1002 (generateSYNCookie 1 2 1002))),
      (2, DnsRateLimitReset),
      (9 / 4, DnsArrival 5003 (mkSyn 1 2 1003 (generateSYNCookie 1 2 1003)))]"

text \<open>
  For the router: a C library whose \<open>sscanf\<close> is given on the strings of the scenarios;
  the router of address 100 with two gates, the static route \<open>3:1\<close> and RIP; a data
  frame for destination 3; a distance-vector update that advertises destination 7 with
  metric 2 and 3 hops, destination 8 with 15 hops and destination 9 with 1 hop, and one
  that advertises destination 7 with \<open>INT_MAX\<close> hops; the router of address 2 before
  and after 50 Mbit/s of traffic on its link 0, as the origin of two advertisements of
  that link.
\<close>

definition libc0 :: libc where
  "libc0 =
     \<lparr>scanRoute = (\<lambda>item. if item = literal ''7:2:3'' then Some (7, 2, 3)
                           else if item = literal ''8:1:15'' then Some (8, 1, 15)
                           else if item = literal ''9:1:1'' then Some (9, 1, 1)
                           else if item = literal ''7:2:2147483647'' then Some (7, 2, 2147483647)
                           else None),
      scanStatic = (\<lambda>item. if item = literal ''3:1'' then Some (3, 1) else None),
      printRoutes = (\<lambda>tbl. [])\<rparr>"

definition rpars0 :: RouterPars where
  "rpars0 =
     \<lparr>p_address = 100, p_routingProtocol = ''RIP'', p_routes = literal ''3:1'',
      p_synRateLimit = 10, p_ospfHelloInterval = 10, p_ospfLSAInterval = 30,
      p_ripUpdateInterval = 30, p_gateSize = 2, p_chDuration = (\<lambda>g. example_dur)\<rparr>"

definition router0 :: Router where
  "router0 = Router_initialize libc0 0 rpars0 (1 / 2) (1 / 2) (1 / 2)"

definition dataMsg :: cMessage where
  "dataMsg = (addPar ''path'' (StringPar (literal ''/'')) (mk ''HTTP_GET'' TCP_DATA 1 3))
               \<lparr>par_seq := 1001, par_priority := PRIORITY_NORMAL\<rparr>"

definition ripMsg :: cMessage where
  "ripMsg = (addPar ''routes'' (StringPar (literal ''7:2:3,8:1:15,9:1:1,'')) (mk ''RIP_UPDATE'' RIP_UPDATE 200 (- 1)))
              \<lparr>par_priority := PRIORITY_NORMAL\<rparr>"

definition ripMsgMax :: cMessage where
  "ripMsgMax = (addPar ''routes'' (StringPar (literal ''7:2:2147483647,'')) (mk ''RIP_UPDATE'' RIP_UPDATE 200 (- 1)))
              \<lparr>par_priority := PRIORITY_NORMAL\<rparr>"

definition origin_a :: Router where
  "origin_a = Router_initialize libc0 0 (rpars0\<lparr>p_address := 2, p_routingProtocol := ''OSPF-TE''\<rparr>)
                (1 / 2) (1 / 2) (1 / 2)"

definition origin_b :: Router where
  "origin_b = origin_a\<lparr>linkUtilization := (\<lambda>i. if i = 0 then 50 else 0)\<rparr>"

text \<open>The record a run leaves in the link-state database under a key.\<close>

definition lsdb_after :: "Router option \<Rightarrow> long \<Rightarrow> LinkState option" where
  "lsdb_after r k = (case r of None \<Rightarrow> None | Some s \<Rightarrow> linkStateDB s k)"

section \<open>Helper lemmas\<close>

lemma mask24: "(0xFFFFFF :: long) = mask 24"
  by (simp add: mask_eq_exp_minus_1)

lemma take_bit_24_and: "take_bit 24 (x :: long) = x AND 0xFFFFFF"
  unfolding mask24 by (simp add: take_bit_eq_mask)

lemma low24_or_shift: "take_bit 24 ((x AND mask 24) OR push_bit 24 y) = take_bit 24 (x :: long)"
  by (auto simp add: bit_eq_iff bit_simps)

lemma generateSYNCookie_low24:
  "take_bit 24 (generateSYNCookie a b q) = take_bit 24 (a XOR b XOR q XOR 0x5EED)"
  unfolding generateSYNCookie_def Let_def mask24 by (rule low24_or_shift)

lemma validateSYNCookie_iff:
  "validateSYNCookie c a b q \<longleftrightarrow> take_bit 24 c = take_bit 24 (generateSYNCookie a b q)"
  by (simp add: validateSYNCookie_def take_bit_24_and)

lemma validate_generated: "validateSYNCookie (generateSYNCookie a b q) a b q"
  by (simp add: validateSYNCookie_def)

lemma simpleEncrypt_Some:
  "k \<noteq> [] \<Longrightarrow>
   simpleEncrypt x k = Some (map (\<lambda>i. (x ! i) XOR (k ! (i mod length k)) XOR 0xAA) [0..<length x])"
  by (simp add: simpleEncrypt_def)

lemma xor_twice: "((a :: 8 word) XOR b XOR c) XOR b XOR c = a"
  by (auto simp add: bit_eq_iff bit_simps)

lemma computeSharedSecret_length:
  "computeSharedSecret a b = Some k \<Longrightarrow> length k = 16"
  by (auto simp: computeSharedSecret_def Let_def split: if_splits)

lemma sendPacketOnGate_queued:
  "chFinishTime s > now \<or> endTxEvent s \<noteq> None \<Longrightarrow>
   sendPacketOnGate now msg s = Some (s\<lparr>txQueue := txQueue s @ [msg]\<rparr>, [])"
  by (auto simp: sendPacketOnGate_def Let_def)

lemma sendPacketOnGate_idle:
  "chFinishTime s \<le> now \<Longrightarrow> endTxEvent s = None \<Longrightarrow> 0 \<le> chDuration s msg \<Longrightarrow>
   sendPacketOnGate now msg s =
     Some (s\<lparr>chFinishTime := now + chDuration s msg, endTxEvent := Some (now + chDuration s msg)\<rparr>,
           [Send 0 msg])"
  by (simp add: sendPacketOnGate_def Let_def startTransmission_def send_def scheduleAt_def)

lemma sendPacketOnGate_idle_neg:
  "chFinishTime s \<le> now \<Longrightarrow> endTxEvent s = None \<Longrightarrow> chDuration s msg < 0 \<Longrightarrow>
   sendPacketOnGate now msg s = None"
  by (simp add: sendPacketOnGate_def Let_def startTransmission_def send_def scheduleAt_def)

lemma sendPacketOnGate_Some:
  assumes "sendPacketOnGate now msg s = Some (s', out)"
  shows "(out = [] \<and> s' = s\<lparr>txQueue := txQueue s @ [msg]\<rparr> \<and> (chFinishTime s > now \<or> endTxEvent s \<noteq> None))
       \<or> (out = [Send 0 msg] \<and> chFinishTime s \<le> now \<and> endTxEvent s = None \<and>
          s' = s\<lparr>chFinishTime := now + chDuration s msg, endTxEvent := Some (now + chDuration s msg)\<rparr>)"
proof (cases "chFinishTime s > now \<or> endTxEvent s \<noteq> None")
  case True
  with assms sendPacketOnGate_queued[OF True, of msg] show ?thesis by auto
next
  case False
  then have idle: "chFinishTime s \<le> now" "endTxEvent s = None" by auto
  show ?thesis
  proof (cases "0 \<le> chDuration s msg")
    case True
    with assms sendPacketOnGate_idle[OF idle True] idle show ?thesis by auto
  next
    case False
    with assms sendPacketOnGate_idle_neg[OF idle, of msg] show ?thesis by auto
  qed
qed

lemma sendPacketOnGate_frame:
  assumes "sendPacketOnGate now msg s = Some (s', out)"
  shows "sharedKeys s' = sharedKeys s \<and> tcpConnections s' = tcpConnections s \<and> addr s' = addr s
       \<and> myPublicKey s' = myPublicKey s \<and> myPrivateKey s' = myPrivateKey s
       \<and> chDuration s' = chDuration s \<and> endpoint.more s' = endpoint.more s"
  using sendPacketOnGate_Some[OF assms] by auto

lemma handleKeyExchange_no_reply:
  assumes "handleKeyExchange now msg s = Some (s', out)"
  shows "out = [] \<and> (\<exists>pk k. stringPar msg ''publicKey'' = Some pk \<and>
           computeSharedSecret (myPrivateKey s) pk = Some k \<and>
           s' = s\<lparr>sharedKeys := (sharedKeys s)(SRC msg \<mapsto> k)\<rparr>)"
proof -
  from assms obtain pk where pk: "stringPar msg ''publicKey'' = Some pk"
    by (auto simp: handleKeyExchange_def Let_def split: option.splits)
  from assms pk obtain k where k: "computeSharedSecret (myPrivateKey s) pk = Some k"
    by (auto simp: handleKeyExchange_def Let_def split: option.splits)
  have "k \<noteq> []" using computeSharedSecret_length[OF k] by auto
  with assms pk k show ?thesis
    by (auto simp: handleKeyExchange_def Let_def)
qed

lemma PC_ack_grows:
  assumes "1 \<le> cwnd s"
  shows "cwnd s \<le> cwnd (PC_handleTCPAck msg s)"
    and "cwnd (PC_handleTCPAck msg s) = (if cwnd s < ssthresh s then 2 * cwnd s else cwnd s + 1 / cwnd s)"
  using assms by (auto simp: PC_handleTCPAck_def Let_def)

lemma PC_cwnd_step_ge1: "1 \<le> cwnd s \<Longrightarrow> 1 \<le> cwnd (PC_cwnd_step s e)"
  by (cases e) (auto simp: PC_handleTCPAck_def PC_handleCongestionTimeout_def Let_def intro: add_increasing2)

lemma PC_cwnd_run_ge1: "1 \<le> cwnd s \<Longrightarrow> 1 \<le> cwnd (foldl PC_cwnd_step s evs)"
  by (induction evs arbitrary: s) (simp_all add: PC_cwnd_step_ge1)


lemma sint_of_nat_32: "n < 2 ^ 31 \<Longrightarrow> sint (of_nat n :: cint) = int n"
  by (simp add: signed_of_nat signed_take_bit_int_eq_self)

lemma HTTP_syn_flood:
  assumes "real_of_int (sint (synCountOf s (SRC msg) + 1)) > synRateLimit s"
  shows "HTTP_handleTCPSyn now sq msg s =
           Some (s\<lparr>synCounts := (synCounts s)(SRC msg \<mapsto> synCountOf s (SRC msg) + 1),
                   synTimestamps := (synTimestamps s)(SRC msg \<mapsto> now)\<rparr>, [], SynFloodDrop)"
  using assms by (simp add: HTTP_handleTCPSyn_def Let_def synCountOf_def)

lemma HTTP_syn_bad_cookie:
  assumes "\<not> real_of_int (sint (synCountOf s (SRC msg) + 1)) > synRateLimit s"
    and "longPar msg ''synCookie'' = Some c"
    and "\<not> validateSYNCookie c (SRC msg) (scast (addr s)) (SEQ msg)"
  shows "HTTP_handleTCPSyn now sq msg s =
           Some (s\<lparr>synCounts := (synCounts s)(SRC msg \<mapsto> synCountOf s (SRC msg) + 1),
                   synTimestamps := (synTimestamps s)(SRC msg \<mapsto> now)\<rparr>, [], InvalidCookieDrop)"
  using assms by (simp add: HTTP_handleTCPSyn_def Let_def synCountOf_def)

lemma HTTP_syn_Some:
  assumes "HTTP_handleTCPSyn now sq msg s = Some (s', out, v)"
  shows "synCounts s' = (synCounts s)(SRC msg \<mapsto> synCountOf s (SRC msg) + 1)"
    and "synTimestamps s' = (synTimestamps s)(SRC msg \<mapsto> now)"
    and "synRateLimit s' = synRateLimit s"
    and "chDuration s' = chDuration s"
    and "(v = SynFloodDrop) = (real_of_int (sint (synCountOf s (SRC msg) + 1)) > synRateLimit s)"
    and "v \<noteq> SynAckSent \<Longrightarrow> out = [] \<and> tcpConnections s' = tcpConnections s \<and> txQueue s' = txQueue s
           \<and> chFinishTime s' = chFinishTime s \<and> endTxEvent s' = endTxEvent s"
    and "v = SynAckSent \<Longrightarrow> \<exists>c. longPar msg ''synCookie'' = Some c \<and>
           validateSYNCookie c (SRC msg) (scast (addr s)) (SEQ msg)"
  using assms
  by (auto simp: HTTP_handleTCPSyn_def Let_def synCountOf_def
      split: if_splits option.splits dest!: sendPacketOnGate_Some)

lemma sendPacketOnGate_total:
  assumes "0 \<le> chDuration s m"
  shows "\<exists>r. sendPacketOnGate now m s = Some r"
proof (cases "chFinishTime s > now \<or> endTxEvent s \<noteq> None")
  case True
  then show ?thesis using sendPacketOnGate_queued[OF True] by blast
next
  case False
  then have "chFinishTime s \<le> now" "endTxEvent s = None" by auto
  then show ?thesis using sendPacketOnGate_idle assms by blast
qed

lemma HTTP_syn_total:
  assumes "longPar msg ''synCookie'' \<noteq> None" and "\<forall>m. 0 \<le> chDuration s m"
  shows "\<exists>r. HTTP_handleTCPSyn now sq msg s = Some r"
proof -
  let ?s1 = "s\<lparr>synCounts := (synCounts s)(SRC msg \<mapsto> synCountOf s (SRC msg) + 1),
                synTimestamps := (synTimestamps s)(SRC msg \<mapsto> now)\<rparr>"
  let ?ack = "addPar ''synCookie'' (LongPar (generateSYNCookie (scast (addr s)) (SRC msg) sq))
                ((mk ''TCP_SYN_ACK'' TCP_SYN_ACK (scast (addr s)) (SRC msg))
                   \<lparr>par_seq := sq, par_ack := SEQ msg + 1, par_priority := PRIORITY_HIGH\<rparr>)"
  from assms(1) obtain c where c: "longPar msg ''synCookie'' = Some c" by auto
  have "0 \<le> chDuration ?s1 ?ack" using assms(2) by simp
  then obtain s2 out where r: "sendPacketOnGate now ?ack ?s1 = Some (s2, out)"
    using sendPacketOnGate_total[of ?s1 ?ack now] by auto
  show ?thesis
  proof (cases "real_of_int (sint (synCountOf s (SRC msg) + 1)) > synRateLimit s")
    case True
    then show ?thesis using HTTP_syn_flood by blast
  next
    case False
    note nf = this
    show ?thesis
    proof (cases "validateSYNCookie c (SRC msg) (scast (addr s)) (SEQ msg)")
      case False
      then show ?thesis using HTTP_syn_bad_cookie[OF nf c] by blast
    next
      case True
      with nf c r show ?thesis
        by (simp add: HTTP_handleTCPSyn_def Let_def synCountOf_def)
    qed
  qed
qed

lemma HTTP_syn_accept:
  assumes "\<not> synRateLimit s < real_of_int (sint (synCountOf s (SRC msg) + 1))"
    and "longPar msg ''synCookie'' = Some c"
    and "validateSYNCookie c (SRC msg) (scast (addr s)) (SEQ msg)"
    and "\<forall>m. 0 \<le> chDuration s m"
  shows "\<exists>s' out. HTTP_handleTCPSyn now sq msg s = Some (s', out, SynAckSent)"
proof -
  let ?s1 = "s\<lparr>synCounts := (synCounts s)(SRC msg \<mapsto> synCountOf s (SRC msg) + 1),
                synTimestamps := (synTimestamps s)(SRC msg \<mapsto> now)\<rparr>"
  let ?ack = "addPar ''synCookie'' (LongPar (generateSYNCookie (scast (addr s)) (SRC msg) sq))
                ((mk ''TCP_SYN_ACK'' TCP_SYN_ACK (scast (addr s)) (SRC msg))
                   \<lparr>par_seq := sq, par_ack := SEQ msg + 1, par_priority := PRIORITY_HIGH\<rparr>)"
  have "0 \<le> chDuration ?s1 ?ack" using assms(4) by simp
  then obtain s2 out where r: "sendPacketOnGate now ?ack ?s1 = Some (s2, out)"
    using sendPacketOnGate_total[of ?s1 ?ack now] by auto
  with assms(1,2,3) show ?thesis
    by (simp add: HTTP_handleTCPSyn_def Let_def synCountOf_def)
qed

lemma HTTP_sweep:
  "HTTP_synFloodCheck now s =
     Some (s\<lparr>synCounts := (\<lambda>k. if (case synTimestamps s k of None \<Rightarrow> False | Some t \<Rightarrow> now - t > 60) then None else synCounts s k),
             synTimestamps := (\<lambda>k. if (case synTimestamps s k of None \<Rightarrow> False | Some t \<Rightarrow> now - t > 60) then None else synTimestamps s k),
             synFloodCheckTimer := Some (now + 1)\<rparr>)"
  by (simp add: HTTP_synFloodCheck_def Let_def scheduleAt_def)

lemma HTTP_run_limiter:
  assumes "HTTP_run s evs = Some (s', vs)"
    and "\<forall>(t, e) \<in> set evs. t0 \<le> t \<and> t \<le> t0 + 60 \<and> (\<forall>sq m. e = SynArrival sq m \<longrightarrow> SRC m = a)"
    and "synCountOf s a = of_nat k"
    and "\<forall>ts. synTimestamps s a = Some ts \<longrightarrow> t0 \<le> ts"
    and "k + length evs < 2 ^ 31"
  shows "length vs = length (filter (\<lambda>(t, e). e \<noteq> SynFloodCheck) evs) \<and>
         (\<forall>i < length vs. (vs ! i = SynFloodDrop) = (synRateLimit s < real (k + i + 1)))"
  using assms
proof (induction evs arbitrary: s k vs)
  case Nil
  then show ?case by simp
next
  case (Cons ev evs)
  obtain now e where ev: "ev = (now, e)" by (cases ev)
  show ?case
  proof (cases e)
    case (SynArrival sq msg)
    from Cons.prems(1) ev SynArrival obtain s1 out v s2 vs1 where
      h: "HTTP_handleTCPSyn now sq msg s = Some (s1, out, v)" and
      r: "HTTP_run s1 evs = Some (s2, vs1)" and vs: "vs = v # vs1" and s2: "s2 = s'"
      by (auto split: option.splits)
    from Cons.prems(2) ev SynArrival have src: "SRC msg = a" and t: "t0 \<le> now" by auto
    have cnt1: "synCountOf s1 a = of_nat (Suc k)"
      using HTTP_syn_Some(1)[OF h] src Cons.prems(3) by (simp add: synCountOf_def)
    have ts1: "\<forall>ts. synTimestamps s1 a = Some ts \<longrightarrow> t0 \<le> ts"
      using HTTP_syn_Some(2)[OF h] src t by simp
    have lim1: "synRateLimit s1 = synRateLimit s" by (rule HTTP_syn_Some(3)[OF h])
    have k1: "Suc k < 2 ^ 31" using Cons.prems(5) by simp
    have sv: "sint (synCountOf s (SRC msg) + 1) = int (k + 0 + 1)"
      using src Cons.prems(3) sint_of_nat_32[OF k1] by (simp add: ac_simps)
    have v: "(v = SynFloodDrop) = (synRateLimit s < real (k + 0 + 1))"
      using HTTP_syn_Some(5)[OF h] unfolding sv by simp
    have IH: "length vs1 = length (filter (\<lambda>(t, e). e \<noteq> SynFloodCheck) evs) \<and>
         (\<forall>i < length vs1. (vs1 ! i = SynFloodDrop) = (synRateLimit s1 < real (Suc k + i + 1)))"
      using Cons.IH[OF _ _ cnt1 ts1] r s2 Cons.prems(2) Cons.prems(5) by auto
    show ?thesis
    proof (intro conjI allI impI)
      show "length vs = length (filter (\<lambda>(t, e). e \<noteq> SynFloodCheck) (ev # evs))"
        using IH vs ev SynArrival by simp
    next
      fix i assume "i < length vs"
      then show "(vs ! i = SynFloodDrop) = (synRateLimit s < real (k + i + 1))"
        using IH v vs lim1 by (cases i) auto
    qed
  next
    case SynFloodCheck
    let ?s1 = "s\<lparr>synCounts := (\<lambda>k. if (case synTimestamps s k of None \<Rightarrow> False | Some t \<Rightarrow> now - t > 60) then None else synCounts s k),
             synTimestamps := (\<lambda>k. if (case synTimestamps s k of None \<Rightarrow> False | Some t \<Rightarrow> now - t > 60) then None else synTimestamps s k),
             synFloodCheckTimer := Some (now + 1)\<rparr>"
    from Cons.prems(1) ev SynFloodCheck have r: "HTTP_run ?s1 evs = Some (s', vs)"
      by (simp add: HTTP_sweep)
    from Cons.prems(2) ev have t: "now \<le> t0 + 60" by auto
    have keep: "\<not> (case synTimestamps s a of None \<Rightarrow> False | Some t \<Rightarrow> now - t > 60)"
      using Cons.prems(4) t by (auto split: option.splits)
    have cnt1: "synCountOf ?s1 a = of_nat k"
      using keep Cons.prems(3) by (simp add: synCountOf_def)
    have ts1: "\<forall>ts. synTimestamps ?s1 a = Some ts \<longrightarrow> t0 \<le> ts"
      using keep Cons.prems(4) by simp
    have IH: "length vs = length (filter (\<lambda>(t, e). e \<noteq> SynFloodCheck) evs) \<and>
         (\<forall>i < length vs. (vs ! i = SynFloodDrop) = (synRateLimit ?s1 < real (k + i + 1)))"
      using Cons.IH[OF r _ cnt1 ts1] Cons.prems(2) Cons.prems(5) by auto
    then show ?thesis using ev SynFloodCheck by simp
  qed
qed

lemma HTTP_run_total:
  assumes "\<forall>(t, e) \<in> set evs. \<forall>sq m. e = SynArrival sq m \<longrightarrow> longPar m ''synCookie'' \<noteq> None"
    and "\<forall>m. 0 \<le> chDuration s m"
  shows "\<exists>r. HTTP_run s evs = Some r"
  using assms
proof (induction evs arbitrary: s)
  case Nil
  then show ?case by simp
next
  case (Cons ev evs)
  obtain now e where ev: "ev = (now, e)" by (cases ev)
  show ?case
  proof (cases e)
    case (SynArrival sq msg)
    with Cons.prems ev have "longPar msg ''synCookie'' \<noteq> None" by auto
    from HTTP_syn_total[OF this Cons.prems(2)] obtain s1 out v where
      h: "HTTP_handleTCPSyn now sq msg s = Some (s1, out, v)" by (metis prod_cases3)
    have "\<forall>m. 0 \<le> chDuration s1 m" using HTTP_syn_Some(4)[OF h] Cons.prems(2) by simp
    from Cons.IH[OF _ this] Cons.prems(1) obtain r where "HTTP_run s1 evs = Some r" by auto
    then show ?thesis using ev SynArrival h by (cases r) simp
  next
    case SynFloodCheck
    let ?s1 = "s\<lparr>synCounts := (\<lambda>k. if (case synTimestamps s k of None \<Rightarrow> False | Some t \<Rightarrow> now - t > 60) then None else synCounts s k),
             synTimestamps := (\<lambda>k. if (case synTimestamps s k of None \<Rightarrow> False | Some t \<Rightarrow> now - t > 60) then None else synTimestamps s k),
             synFloodCheckTimer := Some (now + 1)\<rparr>"
    have "\<forall>m. 0 \<le> chDuration ?s1 m" using Cons.prems(2) by simp
    from Cons.IH[OF _ this] Cons.prems(1) obtain r where "HTTP_run ?s1 evs = Some r" by auto
    then show ?thesis using ev SynFloodCheck by (simp add: HTTP_sweep)
  qed
qed

lemma handleKeyExchange_total:
  assumes "stringPar msg ''publicKey'' = Some pk" and "myPrivateKey s @ pk \<noteq> []"
  shows "\<exists>s'. handleKeyExchange now msg s = Some (s', [])"
proof -
  from assms(2) obtain k where k: "computeSharedSecret (myPrivateKey s) pk = Some k"
    by (auto simp: computeSharedSecret_def Let_def)
  have "k \<noteq> []" using computeSharedSecret_length[OF k] by auto
  with assms(1) k show ?thesis by (simp add: handleKeyExchange_def Let_def)
qed

lemma HTTP_get_high:
  assumes "word_sle 2 (PRIORITY msg)" and "HTTP_handleHTTPGet now msg s = Some (s', out)"
  shows "txQueue s' = txQueue s \<and> endTxEvent s' = endTxEvent s \<and> chFinishTime s' = chFinishTime s
       \<and> (\<exists>resp. out = [SendDelayed (serviceTime s * 0.5) 0 resp])"
  using assms
  by (auto simp: HTTP_handleHTTPGet_def Let_def split: option.splits if_splits prod.splits)

lemma HTTP_udp_path:
  assumes "hasPar msg ''path''" and "HTTP_handleUDPRequest now msg s = Some (s', out)"
  shows "s' = s \<and> (\<exists>resp. out = [SendDelayed (serviceTime s * 0.3) 0 resp])"
  using assms
  by (auto simp: HTTP_handleUDPRequest_def Let_def split: option.splits if_splits)

lemma HTTP_fin_Some:
  assumes "HTTP_handleTCPFin now msg s = Some (s', out)"
  shows "tcpConnections s' (SRC msg) = None \<and> cwndMap s' (SRC msg) = None \<and> ssthreshMap s' (SRC msg) = None
       \<and> (\<forall>a. a \<noteq> SRC msg \<longrightarrow> tcpConnections s' a = tcpConnections s a)
       \<and> (out = [Send 0 (finMsg (scast (addr s)) (SRC msg))] \<and> txQueue s' = txQueue s
          \<or> out = [] \<and> txQueue s' = txQueue s @ [finMsg (scast (addr s)) (SRC msg)])"
  using assms
  by (auto simp: HTTP_handleTCPFin_def Let_def finMsg_def split: option.splits
      dest!: sendPacketOnGate_Some)

lemma HTTP_fin_total:
  assumes "0 \<le> chDuration s (finMsg (scast (addr s)) (SRC msg))"
  shows "\<exists>r. HTTP_handleTCPFin now msg s = Some r"
  using sendPacketOnGate_total[OF assms, of now]
  by (auto simp: HTTP_handleTCPFin_def Let_def finMsg_def)

lemma PC_fin_Some:
  assumes "PC_handleTCPFin now msg s = Some (s', out)"
  shows "tcpConnections s' (SRC msg) =
           Some ((case tcpConnections s (SRC msg) of None \<Rightarrow> TCPConnection_new | Some c \<Rightarrow> c)\<lparr>state := TCP_CLOSED\<rparr>)
       \<and> (\<forall>a. a \<noteq> SRC msg \<longrightarrow> tcpConnections s' a = tcpConnections s a)
       \<and> (out = [Send 0 (finMsg (scast (addr s)) (SRC msg))] \<and> txQueue s' = txQueue s
          \<or> out = [] \<and> txQueue s' = txQueue s @ [finMsg (scast (addr s)) (SRC msg)])"
  using assms
  by (auto simp: PC_handleTCPFin_def Let_def finMsg_def split: option.splits
      dest!: sendPacketOnGate_Some)

lemma PC_fin_total:
  assumes "0 \<le> chDuration s (finMsg (scast (addr s)) (SRC msg))"
  shows "\<exists>r. PC_handleTCPFin now msg s = Some r"
  using sendPacketOnGate_total[OF assms, of now]
  by (auto simp: PC_handleTCPFin_def Let_def finMsg_def)

subsection \<open>The limiter of the DNS server\<close>

lemma DNS_syn_frame:
  assumes "DNS_handleTCPSyn now q msg s = Some (s', out)"
  shows "requestCounts s' = requestCounts s \<and> rateLimit s' = rateLimit s"
proof (cases "longPar msg ''synCookie''")
  case None
  with assms show ?thesis by (simp add: DNS_handleTCPSyn_def Let_def)
next
  case (Some cookie)
  show ?thesis
  proof (cases "validateSYNCookie cookie (SRC msg) (scast (addr s)) (SEQ msg)")
    case False
    with assms Some show ?thesis by (simp add: DNS_handleTCPSyn_def Let_def)
  next
    case True
    with assms Some obtain s1 m where
      sp: "sendPacketOnGate now m s = Some (s1, out)" and
      s': "s' = s1\<lparr>tcpConnections := (tcpConnections s1)(SRC msg \<mapsto>
              TCPConnection_new\<lparr>remoteAddr := SRC msg, state := TCP_SYN_RECEIVED,
                sendSeq := q + 1, recvSeq := SEQ msg + 1\<rparr>)\<rparr>"
      by (auto simp: DNS_handleTCPSyn_def Let_def split: option.splits)
    from sendPacketOnGate_Some[OF sp] s' show ?thesis by auto
  qed
qed

lemma DNS_query_frame:
  assumes "DNS_handleDNSQuery now msg s = Some (s', out)"
  shows "requestCounts s' = requestCounts s \<and> rateLimit s' = rateLimit s"
proof -
  from assms obtain m s1 where
    sp: "sendPacketOnGate now m s1 = Some (s', out)" and
    s1: "s1 = s \<or> (\<exists>t. s1 = s\<lparr>tcpConnections := t\<rparr>)"
    by (auto simp: DNS_handleDNSQuery_def Let_def split: option.splits if_splits prod.splits)
  from sendPacketOnGate_Some[OF sp] s1 show ?thesis by auto
qed

lemma DNS_message_Some:
  assumes "DNS_handleMessage now q msg s = Some (s', out, v)"
  shows "requestCounts s' = (requestCounts s)(SRC msg \<mapsto> requestCountOf s (SRC msg) + 1)"
    and "rateLimit s' = rateLimit s"
    and "(v = RateLimitDrop) = (rateLimit s < real_of_int (sint (requestCountOf s (SRC msg) + 1)))"
proof -
  let ?s1 = "s\<lparr>requestCounts := (requestCounts s)(SRC msg \<mapsto> requestCountOf s (SRC msg) + 1)\<rparr>"
  have all: "requestCounts s' = (requestCounts s)(SRC msg \<mapsto> requestCountOf s (SRC msg) + 1) \<and>
      rateLimit s' = rateLimit s \<and>
      (v = RateLimitDrop) = (rateLimit s < real_of_int (sint (requestCountOf s (SRC msg) + 1)))"
  proof (cases "rateLimit s < real_of_int (sint (requestCountOf s (SRC msg) + 1))")
    case True
    with assms show ?thesis by (auto simp: DNS_handleMessage_def Let_def requestCountOf_def)
  next
    case False
    with assms have
      r: "(if msgKind msg = KEY_EXCHANGE then handleKeyExchange now msg ?s1
           else if msgKind msg = TCP_SYN then DNS_handleTCPSyn now q msg ?s1
           else if msgKind msg = TCP_ACK then Some (DNS_handleTCPAck msg ?s1, [])
           else if msgKind msg = TCP_DATA then DNS_handleTCPData now msg ?s1
           else if msgKind msg = DNS_QUERY then DNS_handleDNSQuery now msg ?s1
           else Some (?s1, [])) = Some (s', out)" and v: "v = Dispatched"
      by (auto simp: DNS_handleMessage_def Let_def requestCountOf_def)
    have "requestCounts s' = requestCounts ?s1 \<and> rateLimit s' = rateLimit ?s1"
    proof (cases "msgKind msg = KEY_EXCHANGE")
      case True
      with r have "handleKeyExchange now msg ?s1 = Some (s', out)" by simp
      from handleKeyExchange_no_reply[OF this] show ?thesis by auto
    next
      case k: False
      show ?thesis
      proof (cases "msgKind msg = TCP_SYN")
        case True
        with r k have "DNS_handleTCPSyn now q msg ?s1 = Some (s', out)" by simp
        from DNS_syn_frame[OF this] show ?thesis .
      next
        case sy: False
        show ?thesis
        proof (cases "msgKind msg = TCP_ACK")
          case True
          with r k sy have "s' = DNS_handleTCPAck msg ?s1" by simp
          then show ?thesis by (simp add: DNS_handleTCPAck_def Let_def split: option.splits)
        next
          case ak: False
          show ?thesis
          proof (cases "msgKind msg = TCP_DATA")
            case True
            with r k sy ak have d: "DNS_handleTCPData now msg ?s1 = Some (s', out)" by simp
            show ?thesis
            proof (cases "hasPar msg ''qname''")
              case True
              with d have "DNS_handleDNSQuery now msg ?s1 = Some (s', out)"
                by (simp add: DNS_handleTCPData_def)
              from DNS_query_frame[OF this] show ?thesis .
            next
              case False
              with d show ?thesis by (simp add: DNS_handleTCPData_def)
            qed
          next
            case da: False
            show ?thesis
            proof (cases "msgKind msg = DNS_QUERY")
              case True
              with r k sy ak da have "DNS_handleDNSQuery now msg ?s1 = Some (s', out)" by simp
              from DNS_query_frame[OF this] show ?thesis .
            next
              case False
              with r k sy ak da show ?thesis by simp
            qed
          qed
        qed
      qed
    qed
    with v False show ?thesis by simp
  qed
  from all show "requestCounts s' = (requestCounts s)(SRC msg \<mapsto> requestCountOf s (SRC msg) + 1)" by blast
  from all show "rateLimit s' = rateLimit s" by blast
  from all show "(v = RateLimitDrop) = (rateLimit s < real_of_int (sint (requestCountOf s (SRC msg) + 1)))" by blast
qed

lemma DNS_message_drop:
  "rateLimit s < real_of_int (sint (requestCountOf s (SRC msg) + 1)) \<Longrightarrow>
   DNS_handleMessage now q msg s =
     Some (s\<lparr>requestCounts := (requestCounts s)(SRC msg \<mapsto> requestCountOf s (SRC msg) + 1)\<rparr>,
           [], RateLimitDrop)"
  by (simp add: DNS_handleMessage_def Let_def requestCountOf_def)

lemma DNS_reset:
  "DNS_rateLimitReset now s =
     Some (s\<lparr>requestCounts := Map.empty, dns_rateLimitResetTimer := Some (now + 1)\<rparr>)"
  by (simp add: DNS_rateLimitReset_def Let_def scheduleAt_def)

subsection \<open>Facts about the scenario values\<close>

lemma example_dur_nonneg: "0 \<le> example_dur m"
  by (simp add: example_dur_def)

lemma http0_fields:
  "addr http0 = 3" "synCounts http0 = Map.empty" "synTimestamps http0 = Map.empty"
  "synRateLimit http0 = 2" "chDuration http0 = example_dur" "txQueue http0 = []"
  "endTxEvent http0 = None" "chFinishTime http0 = 0" "tcpConnections http0 = Map.empty"
  "sharedKeys http0 = Map.empty" "serviceTime http0 = 1 / 100" "pageSizeBytes http0 = 2048"
  by (simp_all add: http0_def HTTP_initialize_def)

lemma http0_privateKey: "myPrivateKey http0 = literal ''678d159c''"
  unfolding http0_def HTTP_initialize_def by simp code_simp

lemma pc0_fields:
  "addr pc0 = 1" "cwnd pc0 = 1" "ssthresh pc0 = 64" "chDuration pc0 = example_dur" "txQueue pc0 = []"
  "endTxEvent pc0 = None" "chFinishTime pc0 = 0" "tcpConnections pc0 = Map.empty"
  by (simp_all add: pc0_def PC_initialize_def)

section \<open>The claims\<close>

text \<open>
  Claim C2. \<open>validateSYNCookie\<close> accepts a cookie exactly when its low 24 bits are those
  of \<open>generateSYNCookie\<close> for the same source, destination and sequence number, which are
  the low 24 bits of \<open>src ^ dst ^ seq ^ 0x5EED\<close>; a generated cookie always validates. A
  SYN whose cookie fails the check makes the HTTP server send nothing, queue nothing and
  create no connection (whether the rate limiter or the cookie check drops it), and a SYN
  that is answered with a SYN-ACK carried a cookie that passes the check.
\<close>

theorem C2_syn_cookie_validation:
  "(validateSYNCookie cookie a b q \<longleftrightarrow> take_bit 24 cookie = take_bit 24 (generateSYNCookie a b q))
   \<and> take_bit 24 (generateSYNCookie a b q) = take_bit 24 (a XOR b XOR q XOR 0x5EED)
   \<and> validateSYNCookie (generateSYNCookie a b q) a b q
   \<and> (longPar msg ''synCookie'' = Some c \<and> \<not> validateSYNCookie c (SRC msg) (scast (addr s)) (SEQ msg)
        \<longrightarrow> (\<exists>s' v. HTTP_handleTCPSyn now sq msg s = Some (s', [], v) \<and> v \<noteq> SynAckSent
               \<and> tcpConnections s' = tcpConnections s \<and> txQueue s' = txQueue s))
   \<and> (HTTP_handleTCPSyn now sq msg s = Some (s1, out, SynAckSent)
        \<longrightarrow> (\<exists>c. longPar msg ''synCookie'' = Some c \<and>
               take_bit 24 c = take_bit 24 (generateSYNCookie (SRC msg) (scast (addr s)) (SEQ msg))))"
proof (intro conjI impI)
  show "validateSYNCookie cookie a b q \<longleftrightarrow> take_bit 24 cookie = take_bit 24 (generateSYNCookie a b q)"
    by (rule validateSYNCookie_iff)
  show "take_bit 24 (generateSYNCookie a b q) = take_bit 24 (a XOR b XOR q XOR 0x5EED)"
    by (rule generateSYNCookie_low24)
  show "validateSYNCookie (generateSYNCookie a b q) a b q"
    by (rule validate_generated)
next
  assume h: "longPar msg ''synCookie'' = Some c \<and> \<not> validateSYNCookie c (SRC msg) (scast (addr s)) (SEQ msg)"
  show "\<exists>s' v. HTTP_handleTCPSyn now sq msg s = Some (s', [], v) \<and> v \<noteq> SynAckSent
               \<and> tcpConnections s' = tcpConnections s \<and> txQueue s' = txQueue s"
  proof (cases "real_of_int (sint (synCountOf s (SRC msg) + 1)) > synRateLimit s")
    case True
    show ?thesis unfolding HTTP_syn_flood[OF True] by simp
  next
    case False
    show ?thesis unfolding HTTP_syn_bad_cookie[OF False conjunct1[OF h] conjunct2[OF h]] by simp
  qed
next
  assume "HTTP_handleTCPSyn now sq msg s = Some (s1, out, SynAckSent)"
  from HTTP_syn_Some(7)[OF this] show "\<exists>c. longPar msg ''synCookie'' = Some c \<and>
               take_bit 24 c = take_bit 24 (generateSYNCookie (SRC msg) (scast (addr s)) (SEQ msg))"
    by (auto simp: validateSYNCookie_iff)
qed

text \<open>
  The theorem at two SYNs from source 99 to the server 3 with sequence number 1234: one
  with the wrong cookie 7, which is dropped without a reply, and one with the cookie
  20703107679 that \<open>generateSYNCookie\<close> gives, which is answered with a SYN-ACK.
\<close>

theorem C2_syn_cookie_validation_witness:
  "longPar (mkSyn 99 3 1234 7) ''synCookie'' = Some 7
   \<and> \<not> validateSYNCookie 7 99 3 1234
   \<and> generateSYNCookie 99 3 1234 = 20703107679
   \<and> validateSYNCookie 20703107679 99 3 1234
   \<and> (\<exists>s' v. HTTP_handleTCPSyn 1 5000 (mkSyn 99 3 1234 7) http0 = Some (s', [], v) \<and> v \<noteq> SynAckSent
         \<and> tcpConnections s' = tcpConnections http0 \<and> txQueue s' = txQueue http0)
   \<and> (\<exists>s' out. HTTP_handleTCPSyn 1 5000 (mkSyn 99 3 1234 20703107679) http0 = Some (s', out, SynAckSent))
   \<and> take_bit 24 (20703107679 :: long) = take_bit 24 (generateSYNCookie 99 3 (1234 :: long))"
proof -
  have p: "longPar (mkSyn 99 3 1234 c) ''synCookie'' = Some c" for c
    by (simp add: longPar_def mkSyn_def addPar_def mk_def)
  have src: "SRC (mkSyn 99 3 1234 c) = 99" "SEQ (mkSyn 99 3 1234 c) = 1234" for c
    by (simp_all add: SRC_def SEQ_def mkSyn_def addPar_def mk_def)
  have bad: "\<not> validateSYNCookie 7 99 3 1234"
    by (simp add: validateSYNCookie_def generateSYNCookie_def)
  have gen: "generateSYNCookie 99 3 1234 = 20703107679"
    by (simp add: generateSYNCookie_def)
  have good: "validateSYNCookie 20703107679 99 3 1234"
    using C2_syn_cookie_validation[where a = 99 and b = 3 and q = 1234, THEN conjunct2,
        THEN conjunct2, THEN conjunct1] by (simp add: gen)
  have "longPar (mkSyn 99 3 1234 7) ''synCookie'' = Some 7 \<and>
        \<not> validateSYNCookie 7 (SRC (mkSyn 99 3 1234 7)) (scast (addr http0)) (SEQ (mkSyn 99 3 1234 7))"
    using bad by (simp add: p src http0_fields)
  from C2_syn_cookie_validation[where msg = "mkSyn 99 3 1234 7" and c = 7 and s = http0
      and now = 1 and sq = 5000, THEN conjunct2, THEN conjunct2, THEN conjunct2, THEN conjunct1,
      THEN mp, OF this]
  have dropped: "\<exists>s' v. HTTP_handleTCPSyn 1 5000 (mkSyn 99 3 1234 7) http0 = Some (s', [], v) \<and>
      v \<noteq> SynAckSent \<and> tcpConnections s' = tcpConnections http0 \<and> txQueue s' = txQueue http0" .
  have lim: "\<not> synRateLimit http0 < real_of_int (sint (synCountOf http0 (SRC (mkSyn 99 3 1234 20703107679)) + 1))"
    by (simp add: src synCountOf_def http0_fields)
  have ok: "validateSYNCookie 20703107679 (SRC (mkSyn 99 3 1234 20703107679)) (scast (addr http0))
              (SEQ (mkSyn 99 3 1234 20703107679))"
    using good by (simp add: src http0_fields)
  have dur: "\<forall>m. 0 \<le> chDuration http0 m" by (simp add: http0_fields example_dur_nonneg)
  from HTTP_syn_accept[OF lim p ok dur] obtain s' out where
    acc: "HTTP_handleTCPSyn 1 5000 (mkSyn 99 3 1234 20703107679) http0 = Some (s', out, SynAckSent)"
    by blast
  from C2_syn_cookie_validation[where msg = "mkSyn 99 3 1234 20703107679" and s = http0
      and now = 1 and sq = 5000 and ?s1.0 = s' and out = out, THEN conjunct2, THEN conjunct2,
      THEN conjunct2, THEN conjunct2, THEN mp, OF acc]
  have low: "take_bit 24 (20703107679 :: long) = take_bit 24 (generateSYNCookie 99 3 (1234 :: long))"
    by (simp add: p src http0_fields)
  from p[of 7] bad gen good dropped acc low show ?thesis by blast
qed

text \<open>
  Claim C6. For every string \<open>x\<close> and every non-empty key \<open>k\<close>, encrypting succeeds and
  decrypting the result with the same key gives \<open>x\<close> back.
\<close>

theorem C6_xor_involution:
  "k \<noteq> [] \<Longrightarrow> \<exists>e. simpleEncrypt x k = Some e \<and> simpleDecrypt e k = Some x"
proof -
  assume k: "k \<noteq> []"
  let ?e = "map (\<lambda>i. (x ! i) XOR (k ! (i mod length k)) XOR 0xAA) [0..<length x]"
  have e: "simpleEncrypt x k = Some ?e" by (rule simpleEncrypt_Some[OF k])
  have "simpleDecrypt ?e k =
          Some (map (\<lambda>i. (?e ! i) XOR (k ! (i mod length k)) XOR 0xAA) [0..<length ?e])"
    unfolding simpleDecrypt_def by (rule simpleEncrypt_Some[OF k])
  also have "map (\<lambda>i. (?e ! i) XOR (k ! (i mod length k)) XOR 0xAA) [0..<length ?e] = x"
    by (rule nth_equalityI) (simp_all add: xor_twice)
  finally show ?thesis using e by blast
qed

text \<open>
  The theorem at the path \<open>"/"\<close> and the two-byte key \<open>"k1"\<close>.
\<close>

theorem C6_xor_involution_witness:
  "simpleEncrypt [0x2F] [0x6B, 0x31] = Some [0xEE] \<and> simpleDecrypt [0xEE] [0x6B, 0x31] = Some [0x2F]"
proof -
  have e: "simpleEncrypt [0x2F] [0x6B, 0x31] = Some [0xEE]"
    by (simp add: simpleEncrypt_def)
  from C6_xor_involution[of "[0x6B, 0x31]" "[0x2F]"] e show ?thesis by auto
qed

text \<open>
  Claim C5. When the client handles a TCP ACK with \<open>cwnd\<close> at least 1, the window does
  not decrease: it becomes \<open>2 * cwnd\<close> below \<open>ssthresh\<close> and \<open>cwnd + 1 / cwnd\<close> otherwise.
  The hypothesis holds in every state the client reaches from \<open>initialize\<close> by ACKs and
  congestion timeouts. (The window is a real number here; see the first section.)
\<close>

theorem C5_cwnd_never_decreases_on_ack:
  "(1 \<le> cwnd s \<longrightarrow>
      cwnd s \<le> cwnd (PC_handleTCPAck msg s) \<and>
      cwnd (PC_handleTCPAck msg s) = (if cwnd s < ssthresh s then 2 * cwnd s else cwnd s + 1 / cwnd s))
   \<and> 1 \<le> cwnd (foldl PC_cwnd_step (PC_initialize address dns name proto dur) evs)"
proof (intro conjI impI)
  assume "1 \<le> cwnd s"
  then show "cwnd s \<le> cwnd (PC_handleTCPAck msg s)" by (rule PC_ack_grows(1))
next
  assume "1 \<le> cwnd s"
  then show "cwnd (PC_handleTCPAck msg s) = (if cwnd s < ssthresh s then 2 * cwnd s else cwnd s + 1 / cwnd s)"
    by (rule PC_ack_grows(2))
next
  have "1 \<le> cwnd (PC_initialize address dns name proto dur)" by (simp add: PC_initialize_def)
  then show "1 \<le> cwnd (foldl PC_cwnd_step (PC_initialize address dns name proto dur) evs)"
    by (rule PC_cwnd_run_ge1)
qed

text \<open>
  The theorem at the client's initial state (\<open>cwnd = 1\<close>, \<open>ssthresh = 64\<close>): the first
  ACK doubles the window.
\<close>

theorem C5_cwnd_never_decreases_on_ack_witness:
  "1 \<le> cwnd pc0 \<and> cwnd pc0 \<le> cwnd (PC_handleTCPAck ackMsg pc0) \<and> cwnd (PC_handleTCPAck ackMsg pc0) = 2"
proof -
  have h: "1 \<le> cwnd pc0" by (simp add: pc0_fields)
  from C5_cwnd_never_decreases_on_ack[of pc0 ackMsg] h show ?thesis
    by (simp add: pc0_fields)
qed

text \<open>
  Claim C7 (the code departs from it). \<open>handleKeyExchange\<close> of the DNS, HTTP, mail and
  database servers stores the shared secret before it tests whether a key is held, and a
  shared secret has 16 bytes: the test never succeeds, so whenever the handler returns,
  it has stored the secret and has sent and queued nothing, also when no key was held for
  the peer before.
\<close>

theorem C7_key_exchange_never_replies:
  "handleKeyExchange now msg s = Some (s', out) \<longrightarrow>
     out = [] \<and> txQueue s' = txQueue s \<and> (\<exists>k. sharedKeys s' (SRC msg) = Some k \<and> length k = 16)"
proof
  assume h: "handleKeyExchange now msg s = Some (s', out)"
  from handleKeyExchange_no_reply[OF h] obtain pk k where
    "out = []" "computeSharedSecret (myPrivateKey s) pk = Some k"
    "s' = s\<lparr>sharedKeys := (sharedKeys s)(SRC msg \<mapsto> k)\<rparr>" by auto
  then show "out = [] \<and> txQueue s' = txQueue s \<and> (\<exists>k. sharedKeys s' (SRC msg) = Some k \<and> length k = 16)"
    using computeSharedSecret_length by auto
qed

text \<open>
  The theorem at the first key exchange of client 1 with the HTTP server 3, which holds
  no key for the client: the handler returns and sends no reply.
\<close>

theorem C7_key_exchange_never_replies_witness:
  "sharedKeys http0 1 = None \<and>
   (\<exists>s'. handleKeyExchange 1 (keyMsg 1 3 (generateECDHPublicKey 2)) http0 = Some (s', [])
         \<and> txQueue s' = txQueue http0 \<and> (\<exists>k. sharedKeys s' 1 = Some k \<and> length k = 16))"
proof -
  let ?m = "keyMsg 1 3 (generateECDHPublicKey 2)"
  have pk: "stringPar ?m ''publicKey'' = Some (c_str (generateECDHPublicKey 2))"
    by (simp add: stringPar_def keyMsg_def addPar_def mk_def)
  have ne: "myPrivateKey http0 @ c_str (generateECDHPublicKey 2) \<noteq> []"
    by (simp add: http0_privateKey literal_def)
  have src: "SRC ?m = 1" by (simp add: SRC_def keyMsg_def addPar_def mk_def)
  from handleKeyExchange_total[OF pk ne] obtain s' where
    r: "handleKeyExchange 1 ?m http0 = Some (s', [])" by blast
  from C7_key_exchange_never_replies[of 1 ?m http0 s' "[]"] r src
  show ?thesis by (auto simp: http0_fields)
qed

subsection \<open>What the router's transmitter leaves unchanged\<close>

lemma r_sendPacketOnGate_frame:
  assumes "r_sendPacketOnGate now m g s = Some (s', out)"
  shows "outputQueues s' = outputQueues s \<and> gateSize s' = gateSize s \<and>
         linkStateDB s' = linkStateDB s \<and> routingTable s' = routingTable s"
  using assms
  by (auto simp: r_sendPacketOnGate_def r_startTransmission_def r_send_def Let_def
      split: if_splits option.splits)

lemma r_startTransmission_frame:
  assumes "r_startTransmission now m g s = Some (s', out)"
  shows "outputQueues s' = outputQueues s \<and> gateSize s' = gateSize s \<and>
         linkStateDB s' = linkStateDB s \<and> routingTable s' = routingTable s"
  using assms
  by (auto simp: r_startTransmission_def r_send_def Let_def split: if_splits option.splits)

lemma sendAll_frame:
  "sendAll now ms s = Some (s', out) \<Longrightarrow>
   outputQueues s' = outputQueues s \<and> gateSize s' = gateSize s \<and>
   linkStateDB s' = linkStateDB s \<and> routingTable s' = routingTable s"
proof (induction ms arbitrary: s out)
  case Nil
  then show ?case by simp
next
  case (Cons gm ms)
  obtain g m where gm: "gm = (g, m)" by (cases gm)
  from Cons.prems gm obtain s1 out1 out2 where
    a: "r_sendPacketOnGate now m g s = Some (s1, out1)" and
    b: "sendAll now ms s1 = Some (s', out2)"
    by (auto split: option.splits)
  from r_sendPacketOnGate_frame[OF a] Cons.IH[OF b] show ?case by simp
qed

lemma handleOSPFLSA_Some:
  assumes "handleOSPFLSA now inGate msg s = Some (s', out)"
  shows "\<exists>linkIdL c b d. longPar msg ''linkId'' = Some linkIdL \<and> doublePar msg ''cost'' = Some c \<and>
           doublePar msg ''bandwidth'' = Some b \<and> doublePar msg ''delay'' = Some d \<and>
           linkStateDB s' = (linkStateDB s)(SRC msg * 1000 + scast (ucast linkIdL :: cint) \<mapsto>
             \<lparr>ls_routerId = SRC msg, ls_linkId = ucast linkIdL, ls_cost = c, ls_bandwidth = b,
              ls_delay = d, ls_timestamp = now\<rparr>) \<and>
           outputQueues s' = outputQueues s \<and> gateSize s' = gateSize s \<and>
           routingTable s' = routingTable s"
  using assms
  by (auto simp: handleOSPFLSA_def Let_def split: option.splits dest!: sendAll_frame)

lemma handleRIPUpdate_frame:
  assumes "handleRIPUpdate L now inGate msg s = Some (s', out)"
  shows "outputQueues s' = outputQueues s \<and> gateSize s' = gateSize s \<and> linkStateDB s' = linkStateDB s"
  using assms by (auto simp: handleRIPUpdate_def split: option.splits)

lemma forwardPacket_frame:
  assumes "forwardPacket now inGate msg s = Some (s', out)"
    and "outputQueues s = replicate (gateSize s) []"
  shows "outputQueues s' = outputQueues s \<and> gateSize s' = gateSize s \<and>
         linkStateDB s' = linkStateDB s \<and> routingTable s' = routingTable s"
proof (cases "routingTable s (DST msg)")
  case None
  with assms(1) show ?thesis by (auto simp: forwardPacket_def flood_def Let_def dest!: sendAll_frame)
next
  case (Some e)
  show ?thesis
  proof (cases "0 \<le> sint (nextHop e) \<and> sint (nextHop e) < int (gateSize s)")
    case False
    with assms(1) Some show ?thesis
      by (auto simp: forwardPacket_def flood_def Let_def dest!: sendAll_frame)
  next
    case True
    then have lt: "nat (sint (nextHop e)) < gateSize s" by auto
    have emp: "outputQueues s ! nat (sint (nextHop e)) = []"
      using assms(2) lt by simp
    from assms(1) Some True emp show ?thesis
      by (auto simp: forwardPacket_def Let_def dest!: r_sendPacketOnGate_frame)
  qed
qed

lemma Router_handleMessage_frame:
  assumes "Router_handleMessage L now inGate msg s = Some (s', out)"
    and "outputQueues s = replicate (gateSize s) []"
  shows "outputQueues s' = outputQueues s \<and> gateSize s' = gateSize s"
proof -
  have syn: "outputQueues (s\<lparr>r_synCounts := c\<rparr>) = replicate (gateSize (s\<lparr>r_synCounts := c\<rparr>)) []" for c
    using assms(2) by simp
  from assms(1) show ?thesis
    using forwardPacket_frame[OF _ assms(2)] forwardPacket_frame[OF _ syn]
    by (auto simp: Router_handleMessage_def Let_def handleOSPFHello_def handleRIPRequest_def
        sendRIPUpdate_def
        split: if_splits dest!: handleOSPFLSA_Some handleRIPUpdate_frame sendAll_frame)
qed

lemma Router_handleSelfMessage_frame:
  assumes "Router_handleSelfMessage L now tm s = Some (s', out)"
  shows "outputQueues s' = outputQueues s \<and> gateSize s' = gateSize s \<and>
         linkStateDB s' = linkStateDB s \<and> routingTable s' = routingTable s"
  using assms
  by (cases tm)
     (auto simp: Router_handleSelfMessage_def sendOSPFHello_def sendOSPFLSA_def sendRIPUpdate_def
        r_handleEndTx_def Let_def scheduleAt_def
        split: option.splits if_splits list.splits
        dest!: sendAll_frame r_startTransmission_frame)

lemma Router_step_queues:
  assumes "Router_step L now ev s = Some (s', out)"
    and "outputQueues s = replicate (gateSize s) []"
  shows "outputQueues s' = replicate (gateSize s') []"
  using assms Router_handleMessage_frame Router_handleSelfMessage_frame
  by (cases ev) (auto simp: Router_step_def)

lemma Router_run_queues:
  "Router_run L s evs = Some s' \<Longrightarrow> outputQueues s = replicate (gateSize s) [] \<Longrightarrow>
   outputQueues s' = replicate (gateSize s') []"
proof (induction evs arbitrary: s)
  case Nil
  then show ?case by simp
next
  case (Cons tev evs)
  obtain now ev where tev: "tev = (now, ev)" by (cases tev)
  from Cons.prems(1) tev obtain s1 out where
    st: "Router_step L now ev s = Some (s1, out)" and r: "Router_run L s1 evs = Some s'"
    by (auto split: option.splits)
  from Cons.IH[OF r Router_step_queues[OF st Cons.prems(2)]] show ?case .
qed

lemma Router_initialize_queues:
  "outputQueues (Router_initialize L now P u1 u2 u3) =
     replicate (gateSize (Router_initialize L now P u1 u2 u3)) []"
  by (simp add: Router_initialize_def)

lemma forwardPacket_hit:
  assumes "outputQueues s = replicate (gateSize s) []"
    and "routingTable s (DST msg) = Some e"
    and "0 \<le> sint (nextHop e)" and "sint (nextHop e) < int (gateSize s)"
  shows "forwardPacket now inGate msg s =
           r_sendPacketOnGate now msg (nat (sint (nextHop e)))
             (s\<lparr>linkUtilization := (linkUtilization s)(nat (sint (nextHop e)) :=
                   linkUtilization s (nat (sint (nextHop e))) +
                   (if byteLength msg > 0 then real_of_int (byteLength msg) else 1000) / 1000000)\<rparr>)"
proof -
  have "nat (sint (nextHop e)) < gateSize s" using assms(3,4) by auto
  then have "outputQueues s ! nat (sint (nextHop e)) = []" using assms(1) by simp
  with assms(2,3,4) show ?thesis by (simp add: forwardPacket_def Let_def)
qed

subsection \<open>The distance-vector import\<close>

lemma ripImport_result:
  "ripImport L now g item tbl d = tbl d \<or>
   (\<exists>mtr hops. item \<noteq> [] \<and> scanRoute L item = Some (d, mtr, hops) \<and> sint (hops + 1) < 16 \<and>
      (case tbl d of None \<Rightarrow> True | Some e \<Rightarrow> mtr + 1 < metric e) \<and>
      ripImport L now g item tbl d =
        Some \<lparr>destAddr = d, nextHop = of_nat g, metric = mtr + 1, bandwidth = 0, delay = 0,
              hopCount = hops + 1, lastUpdate = now\<rparr>)"
  by (auto simp: ripImport_def Let_def split: option.splits)

lemma foldl_ripImport_installed:
  "foldl (\<lambda>tbl item. ripImport L now g item tbl) tbl items d = tbl d \<or>
   (\<exists>e. foldl (\<lambda>tbl item. ripImport L now g item tbl) tbl items d = Some e \<and>
        sint (hopCount e) < 16 \<and> nextHop e = of_nat g \<and> lastUpdate e = now \<and> destAddr e = d)"
proof (induction items arbitrary: tbl)
  case Nil
  then show ?case by simp
next
  case (Cons item items)
  let ?t1 = "ripImport L now g item tbl"
  from Cons.IH[of ?t1] ripImport_result[of L now g item tbl d] show ?case by auto
qed

lemma sint_succ: "(hops :: cint) \<noteq> 0x7FFFFFFF \<Longrightarrow> sint (hops + 1) = sint hops + 1"
proof -
  assume n: "hops \<noteq> 0x7FFFFFFF"
  have "sint hops \<noteq> 2147483647"
  proof
    assume "sint hops = 2147483647"
    then have "word_of_int (sint hops) = (word_of_int 2147483647 :: cint)" by simp
    then have "hops = 0x7FFFFFFF" by simp
    with n show False by simp
  qed
  moreover have "sint hops < 2 ^ 31" "- (2 ^ 31) \<le> sint hops"
    using sint_lt[of hops] sint_ge[of hops] by simp_all
  ultimately have r: "- (2 ^ 31) \<le> sint hops + 1" "sint hops + 1 < 2 ^ 31" by simp_all
  have "sint (hops + 1) = signed_take_bit 31 (sint hops + 1)"
    by (simp add: sint_word_ariths)
  also have "\<dots> = sint hops + 1"
    using r by (simp add: signed_take_bit_int_eq_self)
  finally show ?thesis .
qed

lemma getlines_item:
  "0x2C \<notin> set i \<Longrightarrow> getlines acc (i @ 0x2C # rest) = (acc @ i) # getlines [] rest"
  by (induction i arbitrary: acc) auto

lemma getlines_items:
  "\<forall>i \<in> set items. 0x2C \<notin> set i \<Longrightarrow> getlines [] (concat (map (\<lambda>i. i @ [0x2C]) items)) = items"
proof (induction items)
  case Nil
  then show ?case by simp
next
  case (Cons i items)
  then have "getlines [] (i @ 0x2C # concat (map (\<lambda>i. i @ [0x2C]) items)) =
      ([] @ i) # getlines [] (concat (map (\<lambda>i. i @ [0x2C]) items))"
    using getlines_item[of i "[]"] by simp
  with Cons show ?case by simp
qed

lemma ripImport_keeps:
  "tbl d = Some e \<Longrightarrow> \<exists>e'. ripImport L now g item tbl d = Some e' \<and> metric e' \<le> metric e"
  by (auto simp: ripImport_def Let_def split: option.splits)

lemma foldl_ripImport_keeps:
  "tbl d = Some e \<Longrightarrow>
   \<exists>e'. foldl (\<lambda>tbl item. ripImport L now g item tbl) tbl items d = Some e' \<and> metric e' \<le> metric e"
proof (induction items arbitrary: tbl e)
  case Nil
  then show ?case by simp
next
  case (Cons i items)
  from ripImport_keeps[where tbl = tbl and d = d and e = e and L = L and now = now and g = g
      and item = i] Cons.prems obtain e1 where
    e1: "ripImport L now g i tbl d = Some e1" "metric e1 \<le> metric e" by blast
  from Cons.IH[where tbl = "ripImport L now g i tbl" and e = e1] e1 show ?case by fastforce
qed

lemma ripImport_learns:
  "item \<noteq> [] \<Longrightarrow> scanRoute L item = Some (dest, mtr, hops) \<Longrightarrow> sint (hops + 1) < 16 \<Longrightarrow>
   \<exists>e. ripImport L now g item tbl dest = Some e \<and> metric e \<le> mtr + 1"
  by (auto simp: ripImport_def Let_def split: option.splits)

lemma foldl_ripImport_learns:
  "item \<in> set items \<Longrightarrow> item \<noteq> [] \<Longrightarrow> scanRoute L item = Some (dest, mtr, hops) \<Longrightarrow>
   sint (hops + 1) < 16 \<Longrightarrow>
   \<exists>e. foldl (\<lambda>tbl item. ripImport L now g item tbl) tbl items dest = Some e \<and> metric e \<le> mtr + 1"
proof (induction items arbitrary: tbl)
  case Nil
  then show ?case by simp
next
  case (Cons i items)
  show ?case
  proof (cases "item = i")
    case True
    from ripImport_learns[OF Cons.prems(2,3,4), of now g tbl] obtain e1 where
      e1: "ripImport L now g item tbl dest = Some e1" "metric e1 \<le> mtr + 1" by blast
    from foldl_ripImport_keeps[where tbl = "ripImport L now g item tbl" and d = dest and e = e1
        and L = L and now = now and g = g and items = items] e1 True
    show ?thesis by fastforce
  next
    case False
    with Cons.prems have "item \<in> set items" by simp
    from Cons.IH[OF this Cons.prems(2,3,4)] show ?thesis by simp
  qed
qed

subsection \<open>The link-state database\<close>

lemma forwardPacket_lsdb:
  assumes "forwardPacket now inGate msg s = Some (s', out)"
  shows "linkStateDB s' = linkStateDB s"
  using assms
  by (auto simp: forwardPacket_def flood_def Let_def split: option.splits if_splits
      dest!: sendAll_frame r_sendPacketOnGate_frame)

lemma Router_step_lsdb:
  assumes "Router_step L now ev s = Some (s', out)"
    and "linkStateDB s k = Some r"
  shows "\<exists>r'. linkStateDB s' k = Some r' \<and> (r' = r \<or> ls_timestamp r' = now)"
proof (cases ev)
  case (SelfMessage tm)
  with assms show ?thesis
    by (auto simp: Router_step_def dest!: Router_handleSelfMessage_frame)
next
  case (Arrival inGate msg)
  from assms Arrival show ?thesis
    by (auto simp: Router_step_def Router_handleMessage_def Let_def handleOSPFHello_def
        handleRIPRequest_def sendRIPUpdate_def
        split: if_splits
        dest!: handleOSPFLSA_Some handleRIPUpdate_frame sendAll_frame forwardPacket_lsdb)
qed

lemma Router_run_lsdb_monotone:
  assumes "Router_run L s evs = Some s'"
    and "linkStateDB s k = Some r"
    and "\<forall>(t, e) \<in> set evs. ls_timestamp r \<le> t"
    and "sorted (map fst evs)"
  shows "\<exists>r'. linkStateDB s' k = Some r' \<and> ls_timestamp r \<le> ls_timestamp r'"
  using assms
proof (induction evs arbitrary: s r)
  case Nil
  then show ?case by simp
next
  case (Cons tev evs)
  obtain now ev where tev: "tev = (now, ev)" by (cases tev)
  from Cons.prems(1) tev obtain s1 out where
    st: "Router_step L now ev s = Some (s1, out)" and run: "Router_run L s1 evs = Some s'"
    by (auto split: option.splits)
  from Router_step_lsdb[OF st Cons.prems(2)] obtain r1 where
    r1: "linkStateDB s1 k = Some r1" and alt: "r1 = r \<or> ls_timestamp r1 = now" by blast
  have le_now: "ls_timestamp r \<le> now" using Cons.prems(3) tev by auto
  have later: "\<forall>(t, e) \<in> set evs. now \<le> t" using Cons.prems(4) tev by auto
  have ts1: "ls_timestamp r \<le> ls_timestamp r1 \<and> ls_timestamp r1 \<le> now"
    using alt le_now by auto
  have "\<forall>(t, e) \<in> set evs. ls_timestamp r1 \<le> t" using later ts1 by force
  moreover have "sorted (map fst evs)" using Cons.prems(4) by simp
  ultimately obtain r' where "linkStateDB s' k = Some r'" "ls_timestamp r1 \<le> ls_timestamp r'"
    using Cons.IH[OF run r1] by blast
  with ts1 show ?case by force
qed

subsection \<open>The router's handlers return\<close>

lemma r_sendPacketOnGate_total: "\<exists>r. r_sendPacketOnGate now m g s = Some r"
  by (simp add: r_sendPacketOnGate_def r_startTransmission_def r_send_def Let_def)

lemma sendAll_total: "\<exists>r. sendAll now ms s = Some r"
proof (induction ms arbitrary: s)
  case Nil
  then show ?case by simp
next
  case (Cons gm ms)
  obtain g m where gm: "gm = (g, m)" by (cases gm)
  obtain s1 out1 where a: "r_sendPacketOnGate now m g s = Some (s1, out1)"
    using r_sendPacketOnGate_total[of now m g s] by auto
  obtain s2 out2 where b: "sendAll now ms s1 = Some (s2, out2)"
    using Cons.IH[of s1] by auto
  show ?case using gm a b by simp
qed

lemma forwardPacket_total: "\<exists>r. forwardPacket now inGate msg s = Some r"
  using sendAll_total r_sendPacketOnGate_total
  by (auto simp: forwardPacket_def flood_def Let_def split: option.splits)

lemma handleOSPFLSA_total:
  assumes "longPar msg ''linkId'' = Some l" and "doublePar msg ''cost'' = Some c"
    and "doublePar msg ''bandwidth'' = Some b" and "doublePar msg ''delay'' = Some d"
  shows "\<exists>r. handleOSPFLSA now inGate msg s = Some r"
  using assms sendAll_total by (simp add: handleOSPFLSA_def Let_def)

lemma lsaOf_pars:
  "longPar (lsaOf now s i) ''linkId'' = Some (of_nat i)"
  "doublePar (lsaOf now s i) ''cost'' = Some (1 / (linkBandwidth s i - linkUtilization s i + 1))"
  "doublePar (lsaOf now s i) ''bandwidth'' = Some (linkBandwidth s i - linkUtilization s i)"
  "doublePar (lsaOf now s i) ''delay'' = Some 1"
  "SRC (lsaOf now s i) = routerId s"
  "msgKind (lsaOf now s i) = OSPF_TE_UPDATE"
  by (simp_all add: lsaOf_def lsOf_def Let_def longPar_def doublePar_def addPar_def mk_def SRC_def)

lemma Router_step_data_total:
  assumes "msgKind m = TCP_DATA"
  shows "\<exists>s' out. Router_step L t (Arrival g m) s = Some (s', out)"
  using forwardPacket_total[of t g m s] assms
  by (auto simp: Router_step_def Router_handleMessage_def Let_def)


text \<open>
  Claim C9, as the code has it. In the HTTP server (\<open>MailServer\<close> and \<open>DatabaseServer\<close>
  have the same limiter) every SYN increments the counter of its source and stamps the
  source with the current time; the SYN is dropped by the limiter exactly when the
  incremented counter exceeds \<open>synRateLimit\<close>, and then before the cookie is read (the
  SYN need not even carry one). In a run of SYNs from one source \<open>a\<close> that had no entry,
  mixed with sweeps, all within 60 seconds and fewer than \<open>2^31\<close>, the handler returns on
  every event and the \<open>i\<close>-th SYN (counting from 1) is dropped by the limiter exactly
  when \<open>i\<close> exceeds \<open>synRateLimit\<close>: the others reach the cookie check. The sweep erases
  exactly the entries whose timestamp is more than 60 seconds old and schedules itself
  one second later, as \<open>initialize\<close> first does. The DNS server has no limiter of SYNs:
  its \<open>handleMessage\<close> increments the counter of the source on every frame, whatever
  its kind, and drops the frame before the \<open>switch\<close> exactly when the incremented
  counter exceeds \<open>rateLimit\<close>; its timer clears every counter and schedules itself one
  second later, as \<open>initialize\<close> first does.
\<close>

theorem C9_syn_flood_limiter:
  "(HTTP_handleTCPSyn now sq msg s = Some (s', out, v) \<longrightarrow>
      synCounts s' (SRC msg) = Some (synCountOf s (SRC msg) + 1) \<and>
      synTimestamps s' (SRC msg) = Some now \<and>
      ((v = SynFloodDrop) = (synRateLimit s < real_of_int (sint (synCountOf s (SRC msg) + 1)))))
   \<and> (synRateLimit s < real_of_int (sint (synCountOf s (SRC msg) + 1)) \<longrightarrow>
        HTTP_handleTCPSyn now sq msg s =
          Some (s\<lparr>synCounts := (synCounts s)(SRC msg \<mapsto> synCountOf s (SRC msg) + 1),
                  synTimestamps := (synTimestamps s)(SRC msg \<mapsto> now)\<rparr>, [], SynFloodDrop))
   \<and> ((\<forall>(t, e) \<in> set evs. t0 \<le> t \<and> t \<le> t0 + 60 \<and>
           (\<forall>q m. e = SynArrival q m \<longrightarrow> SRC m = a \<and> longPar m ''synCookie'' \<noteq> None))
        \<and> synCounts s0 a = None \<and> synTimestamps s0 a = None
        \<and> (\<forall>m. 0 \<le> chDuration s0 m) \<and> length evs < 2 ^ 31
       \<longrightarrow> (\<exists>s1 vs. HTTP_run s0 evs = Some (s1, vs)
              \<and> length vs = length (filter (\<lambda>(t, e). e \<noteq> SynFloodCheck) evs)
              \<and> (\<forall>i < length vs. (vs ! i = SynFloodDrop) = (synRateLimit s0 < real (i + 1)))))
   \<and> (\<exists>s2. HTTP_synFloodCheck now s = Some s2 \<and> synFloodCheckTimer s2 = Some (now + 1)
          \<and> (\<forall>k. synCounts s2 k =
                 (if (\<exists>t. synTimestamps s k = Some t \<and> 60 < now - t) then None else synCounts s k))
          \<and> (\<forall>k. synTimestamps s2 k =
                 (if (\<exists>t. synTimestamps s k = Some t \<and> 60 < now - t) then None else synTimestamps s k)))
   \<and> synFloodCheckTimer (HTTP_initialize now address limit pageSize service dur) = Some (now + 1)
   \<and> (DNS_handleMessage now sq msg d = Some (d', out', w) \<longrightarrow>
        requestCounts d' (SRC msg) = Some (requestCountOf d (SRC msg) + 1) \<and>
        ((w = RateLimitDrop) = (rateLimit d < real_of_int (sint (requestCountOf d (SRC msg) + 1)))))
   \<and> (rateLimit d < real_of_int (sint (requestCountOf d (SRC msg) + 1)) \<longrightarrow>
        DNS_handleMessage now sq msg d =
          Some (d\<lparr>requestCounts := (requestCounts d)(SRC msg \<mapsto> requestCountOf d (SRC msg) + 1)\<rparr>,
                [], RateLimitDrop))
   \<and> DNS_rateLimitReset now d =
        Some (d\<lparr>requestCounts := Map.empty, dns_rateLimitResetTimer := Some (now + 1)\<rparr>)
   \<and> dns_rateLimitResetTimer (DNS_initialize now address answerAddr limit dur) = Some (now + 1)"
proof (intro conjI impI)
  assume h: "HTTP_handleTCPSyn now sq msg s = Some (s', out, v)"
  show "synCounts s' (SRC msg) = Some (synCountOf s (SRC msg) + 1)"
    using HTTP_syn_Some(1)[OF h] by simp
  show "synTimestamps s' (SRC msg) = Some now"
    using HTTP_syn_Some(2)[OF h] by simp
  show "(v = SynFloodDrop) = (synRateLimit s < real_of_int (sint (synCountOf s (SRC msg) + 1)))"
    by (rule HTTP_syn_Some(5)[OF h])
next
  assume "synRateLimit s < real_of_int (sint (synCountOf s (SRC msg) + 1))"
  then show "HTTP_handleTCPSyn now sq msg s =
          Some (s\<lparr>synCounts := (synCounts s)(SRC msg \<mapsto> synCountOf s (SRC msg) + 1),
                  synTimestamps := (synTimestamps s)(SRC msg \<mapsto> now)\<rparr>, [], SynFloodDrop)"
    by (rule HTTP_syn_flood)
next
  assume h: "(\<forall>(t, e) \<in> set evs. t0 \<le> t \<and> t \<le> t0 + 60 \<and>
           (\<forall>q m. e = SynArrival q m \<longrightarrow> SRC m = a \<and> longPar m ''synCookie'' \<noteq> None))
        \<and> synCounts s0 a = None \<and> synTimestamps s0 a = None
        \<and> (\<forall>m. 0 \<le> chDuration s0 m) \<and> length evs < 2 ^ 31"
  then have cookies: "\<forall>(t, e) \<in> set evs. \<forall>q m. e = SynArrival q m \<longrightarrow> longPar m ''synCookie'' \<noteq> None"
    by fastforce
  from h have window: "\<forall>(t, e) \<in> set evs. t0 \<le> t \<and> t \<le> t0 + 60 \<and> (\<forall>q m. e = SynArrival q m \<longrightarrow> SRC m = a)"
    by fastforce
  from h have dur: "\<forall>m. 0 \<le> chDuration s0 m" by blast
  from HTTP_run_total[OF cookies dur] obtain s1 vs where run: "HTTP_run s0 evs = Some (s1, vs)"
    by (metis surj_pair)
  have c0: "synCountOf s0 a = of_nat 0" using h by (simp add: synCountOf_def)
  have t0: "\<forall>ts. synTimestamps s0 a = Some ts \<longrightarrow> t0 \<le> ts" using h by simp
  have len: "0 + length evs < 2 ^ 31" using h by simp
  from HTTP_run_limiter[OF run window c0 t0 len] run
  show "\<exists>s1 vs. HTTP_run s0 evs = Some (s1, vs)
              \<and> length vs = length (filter (\<lambda>(t, e). e \<noteq> SynFloodCheck) evs)
              \<and> (\<forall>i < length vs. (vs ! i = SynFloodDrop) = (synRateLimit s0 < real (i + 1)))"
    by simp
next
  show "\<exists>s2. HTTP_synFloodCheck now s = Some s2 \<and> synFloodCheckTimer s2 = Some (now + 1)
          \<and> (\<forall>k. synCounts s2 k =
                 (if (\<exists>t. synTimestamps s k = Some t \<and> 60 < now - t) then None else synCounts s k))
          \<and> (\<forall>k. synTimestamps s2 k =
                 (if (\<exists>t. synTimestamps s k = Some t \<and> 60 < now - t) then None else synTimestamps s k))"
    unfolding HTTP_sweep by (auto split: option.splits)
next
  show "synFloodCheckTimer (HTTP_initialize now address limit pageSize service dur) = Some (now + 1)"
    by (simp add: HTTP_initialize_def)
next
  assume h: "DNS_handleMessage now sq msg d = Some (d', out', w)"
  show "requestCounts d' (SRC msg) = Some (requestCountOf d (SRC msg) + 1)"
    using DNS_message_Some(1)[OF h] by simp
  show "(w = RateLimitDrop) = (rateLimit d < real_of_int (sint (requestCountOf d (SRC msg) + 1)))"
    by (rule DNS_message_Some(3)[OF h])
next
  assume "rateLimit d < real_of_int (sint (requestCountOf d (SRC msg) + 1))"
  then show "DNS_handleMessage now sq msg d =
          Some (d\<lparr>requestCounts := (requestCounts d)(SRC msg \<mapsto> requestCountOf d (SRC msg) + 1)\<rparr>,
                [], RateLimitDrop)"
    by (rule DNS_message_drop)
next
  show "DNS_rateLimitReset now d =
        Some (d\<lparr>requestCounts := Map.empty, dns_rateLimitResetTimer := Some (now + 1)\<rparr>)"
    by (rule DNS_reset)
next
  show "dns_rateLimitResetTimer (DNS_initialize now address answerAddr limit dur) = Some (now + 1)"
    by (simp add: DNS_initialize_def)
qed

text \<open>
  The theorem at the server with \<open>synRateLimit = 2\<close>: a first SYN from source 99 at
  time 1 sets the counter to 1 and is not dropped by the limiter; a SYN that finds the
  counter at 2 is dropped, though it carries a valid cookie; and of three SYNs from 99 at
  times 1, 2 and 3, with a sweep at 1.5, the first two reach the cookie check and the
  third is dropped by the limiter. And at the DNS server with \<open>rateLimit = 1\<close>: a SYN of
  source 1 that finds the counter of its source at 1 is dropped.
\<close>

theorem C9_syn_flood_limiter_witness:
  "(\<exists>s' out v. HTTP_handleTCPSyn 1 5000 (mkSyn 99 3 1000 (generateSYNCookie 99 3 1000)) http0 =
        Some (s', out, v) \<and> synCounts s' 99 = Some 1 \<and> synTimestamps s' 99 = Some 1 \<and>
        v \<noteq> SynFloodDrop)
   \<and> HTTP_handleTCPSyn 3 5002 (mkSyn 99 3 1002 (generateSYNCookie 99 3 1002))
        (http0\<lparr>synCounts := [99 \<mapsto> 2]\<rparr>) =
      Some (http0\<lparr>synCounts := [99 \<mapsto> 3], synTimestamps := [99 \<mapsto> 3]\<rparr>, [], SynFloodDrop)
   \<and> (\<exists>s1 vs. HTTP_run http0 flood_events = Some (s1, vs) \<and> length vs = 3 \<and>
         vs ! 0 \<noteq> SynFloodDrop \<and> vs ! 1 \<noteq> SynFloodDrop \<and> vs ! 2 = SynFloodDrop)
   \<and> DNS_handleMessage (1 / 2) 5000 (mkSyn 1 2 1000 (generateSYNCookie 1 2 1000))
        (dns0\<lparr>requestCounts := [1 \<mapsto> 1]\<rparr>) =
      Some (dns0\<lparr>requestCounts := [1 \<mapsto> 2]\<rparr>, [], RateLimitDrop)
   \<and> (\<exists>d' out w. DNS_handleMessage (1 / 4) 5000 (mkSyn 1 2 1000 (generateSYNCookie 1 2 1000)) dns0 =
         Some (d', out, w) \<and> requestCounts d' 1 = Some 1 \<and> w = Dispatched)"
proof -
  have src: "SRC (mkSyn 99 3 q c) = 99" "longPar (mkSyn 99 3 q c) ''synCookie'' \<noteq> None" for q c
    by (simp_all add: mkSyn_def SRC_def longPar_def addPar_def mk_def)
  have dur: "\<forall>m. 0 \<le> chDuration http0 m" by (simp add: http0_fields example_dur_nonneg)
  \<comment> \<open>one SYN\<close>
  from HTTP_syn_total[OF src(2) dur] obtain s' out v where
    h: "HTTP_handleTCPSyn 1 5000 (mkSyn 99 3 1000 (generateSYNCookie 99 3 1000)) http0 = Some (s', out, v)"
    by (metis prod_cases3)
  from C9_syn_flood_limiter[THEN conjunct1, THEN mp, OF h]
  have one: "synCounts s' 99 = Some 1 \<and> synTimestamps s' 99 = Some 1 \<and> v \<noteq> SynFloodDrop"
    by (simp add: src synCountOf_def http0_fields)
  \<comment> \<open>a SYN over the limit\<close>
  let ?s = "http0\<lparr>synCounts := [99 \<mapsto> 2]\<rparr>"
  let ?m = "mkSyn 99 3 1002 (generateSYNCookie 99 3 1002)"
  have over: "synRateLimit ?s < real_of_int (sint (synCountOf ?s (SRC ?m) + 1))"
    by (simp add: src synCountOf_def http0_fields)
  from C9_syn_flood_limiter[where s = ?s and msg = ?m and now = 3 and sq = 5002,
      THEN conjunct2, THEN conjunct1, THEN mp, OF over]
  have two: "HTTP_handleTCPSyn 3 5002 ?m ?s =
      Some (http0\<lparr>synCounts := [99 \<mapsto> 3], synTimestamps := [99 \<mapsto> 3]\<rparr>, [], SynFloodDrop)"
    by (simp add: src synCountOf_def http0_fields)
  \<comment> \<open>the burst\<close>
  have ev: "\<forall>(t, e) \<in> set flood_events. 0 \<le> t \<and> t \<le> 0 + 60 \<and>
           (\<forall>q m. e = SynArrival q m \<longrightarrow> SRC m = 99 \<and> longPar m ''synCookie'' \<noteq> None)"
    by (simp add: flood_events_def mkSyn_def SRC_def longPar_def addPar_def mk_def)
  have st: "synCounts http0 99 = None \<and> synTimestamps http0 99 = None \<and> (\<forall>m. 0 \<le> chDuration http0 m)"
    by (simp add: http0_fields example_dur_nonneg)
  have len: "length flood_events < 2 ^ 31" by (simp add: flood_events_def)
  have n: "length (filter (\<lambda>(t, e). e \<noteq> SynFloodCheck) flood_events) = 3"
    by (simp add: flood_events_def)
  from C9_syn_flood_limiter[where evs = flood_events and ?t0.0 = 0 and a = 99 and ?s0.0 = http0,
      THEN conjunct2, THEN conjunct2, THEN conjunct1, THEN mp, OF conjI[OF ev conjI[OF conjunct1[OF st]
        conjI[OF conjunct1[OF conjunct2[OF st]] conjI[OF conjunct2[OF conjunct2[OF st]] len]]]]]
  obtain s1 vs where r: "HTTP_run http0 flood_events = Some (s1, vs)"
    and l: "length vs = length (filter (\<lambda>(t, e). e \<noteq> SynFloodCheck) flood_events)"
    and v: "\<forall>i < length vs. (vs ! i = SynFloodDrop) = (synRateLimit http0 < real (i + 1))"
    by blast
  from l n have l3: "length vs = 3" by simp
  from v l3 have "vs ! 0 \<noteq> SynFloodDrop" "vs ! 1 \<noteq> SynFloodDrop" "vs ! 2 = SynFloodDrop"
    by (simp_all add: http0_fields)
  with r l3 have three: "\<exists>s1 vs. HTTP_run http0 flood_events = Some (s1, vs) \<and> length vs = 3 \<and>
         vs ! 0 \<noteq> SynFloodDrop \<and> vs ! 1 \<noteq> SynFloodDrop \<and> vs ! 2 = SynFloodDrop" by blast
  \<comment> \<open>the DNS server: a SYN after one other frame of the same source\<close>
  let ?d = "dns0\<lparr>requestCounts := [1 \<mapsto> 1]\<rparr>"
  let ?y = "mkSyn 1 2 1000 (generateSYNCookie 1 2 1000)"
  have dover: "rateLimit ?d < real_of_int (sint (requestCountOf ?d (SRC ?y) + 1))"
    by (simp add: requestCountOf_def dns0_def DNS_initialize_def mkSyn_def SRC_def addPar_def mk_def)
  from C9_syn_flood_limiter[where d = ?d and msg = ?y and now = "1 / 2" and sq = 5000,
      THEN conjunct2, THEN conjunct2, THEN conjunct2, THEN conjunct2, THEN conjunct2,
      THEN conjunct2, THEN conjunct1, THEN mp, OF dover]
  have dns: "DNS_handleMessage (1 / 2) 5000 ?y ?d =
      Some (dns0\<lparr>requestCounts := [1 \<mapsto> 2]\<rparr>, [], RateLimitDrop)"
    by (simp add: requestCountOf_def dns0_def DNS_initialize_def mkSyn_def SRC_def addPar_def mk_def)
  \<comment> \<open>the DNS server: the first frame of a source\<close>
  have "\<exists>r. DNS_handleMessage (1 / 4) 5000 ?y dns0 = Some r"
    by (simp add: dns0_def DNS_initialize_def DNS_handleMessage_def Let_def DNS_handleTCPSyn_def
        mkSyn_def mk_def addPar_def SRC_def SEQ_def longPar_def validate_generated
        sendPacketOnGate_def startTransmission_def send_def scheduleAt_def example_dur_def)
  then obtain d' out' w where
    hd: "DNS_handleMessage (1 / 4) 5000 ?y dns0 = Some (d', out', w)" by (metis prod_cases3)
  from C9_syn_flood_limiter[where d = dns0 and msg = ?y and now = "1 / 4" and sq = 5000
      and d' = d' and out' = out' and w = w,
      THEN conjunct2, THEN conjunct2, THEN conjunct2, THEN conjunct2, THEN conjunct2,
      THEN conjunct1, THEN mp, OF hd]
  have "requestCounts d' 1 = Some 1 \<and> w \<noteq> RateLimitDrop"
    by (simp add: requestCountOf_def dns0_def DNS_initialize_def mkSyn_def SRC_def addPar_def mk_def)
  then have first: "requestCounts d' 1 = Some 1 \<and> w = Dispatched"
    by (cases w) simp_all
  from hd first have dns1: "\<exists>d' out w. DNS_handleMessage (1 / 4) 5000 ?y dns0 =
         Some (d', out, w) \<and> requestCounts d' 1 = Some 1 \<and> w = Dispatched" by blast
  from h one two three dns dns1 show ?thesis by blast
qed

text \<open>
  Against claim C9 as stated, at the DNS server with \<open>rateLimit = 1\<close>: the client of
  address 1 sends its key exchange at 0.25 and its first SYN, with a valid cookie, at
  0.5; the SYN is the second frame of its source and is dropped before the cookie is
  read. The timer clears the counters at 1 and at 2, so of the SYNs at 1.25, 1.5 and
  2.25 the first and the last are handed to \<open>handleTCPSyn\<close>: two SYNs of one source
  reach the cookie check within one second though the limit is 1, and a counter that is
  half a second old has been erased.
\<close>

theorem C9_dns_limiter_counterexample:
  "rateLimit dns0 = 1 \<and>
   map_option snd (DNS_run dns0 dns_events) =
     Some [Dispatched, RateLimitDrop, Dispatched, RateLimitDrop, Dispatched]"
  by (simp add: dns0_def dns_events_def DNS_initialize_def DNS_handleMessage_def Let_def
      DNS_rateLimitReset_def scheduleAt_def handleEndTx_def DNS_handleTCPSyn_def
      handleKeyExchange_def keyMsg_def mkSyn_def mk_def addPar_def SRC_def SEQ_def longPar_def
      stringPar_def validate_generated sendPacketOnGate_def startTransmission_def send_def
      example_dur_def computeSharedSecret_def c_str_def generateECDHPublicKey_def hex_def
      hexDigit_def literal_def)

text \<open>
  Claim C1 (the code departs from it). The transmitter of an endpoint sends a frame only
  on an idle channel with no timer pending, and queues it otherwise (lemma
  \<open>sendPacketOnGate_Some\<close>); but the HTTP server does not hand every frame to it. A
  response to a GET of priority high or critical, and every response to a UDP request
  with a path, goes to \<open>sendDelayed\<close> on the gate itself: whenever these handlers return,
  the transmit queue, the timer and the channel were neither consulted nor changed, and
  the response is put on the wire after half (or 0.3 of) the service time, whatever the
  channel is doing then.
\<close>

theorem C1_http_response_bypasses_transmitter:
  "(word_sle 2 (PRIORITY msg) \<and> HTTP_handleHTTPGet now msg s = Some (s', out) \<longrightarrow>
      txQueue s' = txQueue s \<and> endTxEvent s' = endTxEvent s \<and> chFinishTime s' = chFinishTime s \<and>
      (\<exists>resp. out = [SendDelayed (serviceTime s * 0.5) 0 resp]))
   \<and> (hasPar msg ''path'' \<and> HTTP_handleUDPRequest now msg s = Some (s', out) \<longrightarrow>
      s' = s \<and> (\<exists>resp. out = [SendDelayed (serviceTime s * 0.3) 0 resp]))"
proof -
  have get: "word_sle 2 (PRIORITY msg) \<and> HTTP_handleHTTPGet now msg s = Some (s', out) \<longrightarrow>
      txQueue s' = txQueue s \<and> endTxEvent s' = endTxEvent s \<and> chFinishTime s' = chFinishTime s \<and>
      (\<exists>resp. out = [SendDelayed (serviceTime s * 0.5) 0 resp])"
    using HTTP_get_high by blast
  have udp: "hasPar msg ''path'' \<and> HTTP_handleUDPRequest now msg s = Some (s', out) \<longrightarrow>
      s' = s \<and> (\<exists>resp. out = [SendDelayed (serviceTime s * 0.3) 0 resp])"
    using HTTP_udp_path by blast
  show ?thesis by (rule conjI[OF get udp])
qed

text \<open>
  The theorem at the HTTP server in its initial state, with a service time of 10 ms and
  a channel that takes 80 microseconds for a frame: two GETs of priority high arrive 20
  microseconds apart at time 5. Each response is scheduled 5 ms later on the gate; the
  simulator puts the first on the wire at 5.005, which keeps the channel busy until
  5.00508, and its \<open>send\<close> of the second at 5.00502 fails. The same happens with two UDP
  GETs as the client sends them with \<open>protocol = "UDP"\<close> (responses at 5.003 and
  5.00302).
\<close>

theorem C1_http_response_bypasses_transmitter_witness:
  "word_sle 2 (PRIORITY getMsg) \<and> hasPar udpGetMsg ''path'' \<and>
   HTTP_handleHTTPGet 5 getMsg http0 = Some (http0, [SendDelayed (1 / 200) 0 getResp]) \<and>
   HTTP_handleHTTPGet (5 + 1 / 50000) getMsg http0 = Some (http0, [SendDelayed (1 / 200) 0 getResp]) \<and>
   send (5 + 1 / 200) getResp http0 =
     Some (http0\<lparr>chFinishTime := 5 + 1 / 200 + 1 / 12500\<rparr>, [Send 0 getResp]) \<and>
   send (5 + 1 / 50000 + 1 / 200) getResp (http0\<lparr>chFinishTime := 5 + 1 / 200 + 1 / 12500\<rparr>) = None \<and>
   HTTP_handleUDPRequest 5 udpGetMsg http0 = Some (http0, [SendDelayed (3 / 1000) 0 udpGetResp]) \<and>
   HTTP_handleUDPRequest (5 + 1 / 50000) udpGetMsg http0 = Some (http0, [SendDelayed (3 / 1000) 0 udpGetResp]) \<and>
   send (5 + 3 / 1000) udpGetResp http0 =
     Some (http0\<lparr>chFinishTime := 5 + 3 / 1000 + 1 / 12500\<rparr>, [Send 0 udpGetResp]) \<and>
   send (5 + 1 / 50000 + 3 / 1000) udpGetResp (http0\<lparr>chFinishTime := 5 + 3 / 1000 + 1 / 12500\<rparr>) = None"
proof -
  have p: "word_sle 2 (PRIORITY getMsg)"
    by (simp add: PRIORITY_def getMsg_def addPar_def mk_def word_sle_eq)
  have q: "hasPar udpGetMsg ''path''"
    by (simp add: hasPar_def udpGetMsg_def addPar_def mk_def)
  have g: "\<exists>s' out. HTTP_handleHTTPGet t getMsg http0 = Some (s', out)" for t
    by (simp add: HTTP_handleHTTPGet_def Let_def getMsg_def stringPar_def hasPar_def
        addPar_def mk_def PRIORITY_def SRC_def word_sle_eq http0_fields)
  have gv: "HTTP_handleHTTPGet t getMsg http0 = Some (s', out) \<Longrightarrow>
            s' = http0 \<and> out = [SendDelayed (1 / 200) 0 getResp]" for t s' out
    by (auto simp add: HTTP_handleHTTPGet_def Let_def getMsg_def getResp_def stringPar_def hasPar_def
        addPar_def mk_def PRIORITY_def SRC_def word_sle_eq http0_fields)
  have u: "\<exists>s' out. HTTP_handleUDPRequest t udpGetMsg http0 = Some (s', out)" for t
    by (simp add: HTTP_handleUDPRequest_def Let_def udpGetMsg_def stringPar_def hasPar_def
        addPar_def mk_def PRIORITY_def SRC_def http0_fields)
  have uv: "HTTP_handleUDPRequest t udpGetMsg http0 = Some (s', out) \<Longrightarrow>
            out = [SendDelayed (3 / 1000) 0 udpGetResp]" for t s' out
    by (auto simp add: HTTP_handleUDPRequest_def Let_def udpGetMsg_def udpGetResp_def stringPar_def
        hasPar_def addPar_def mk_def PRIORITY_def SRC_def http0_fields)
  have G: "HTTP_handleHTTPGet t getMsg http0 = Some (http0, [SendDelayed (1 / 200) 0 getResp])" for t
    using g[of t] gv[of t] by auto
  have U: "HTTP_handleUDPRequest t udpGetMsg http0 = Some (http0, [SendDelayed (3 / 1000) 0 udpGetResp])" for t
  proof -
    from u[of t] obtain s' out where r: "HTTP_handleUDPRequest t udpGetMsg http0 = Some (s', out)" by blast
    from C1_http_response_bypasses_transmitter[where msg = udpGetMsg and now = t and s = http0
        and s' = s' and out = out, THEN conjunct2] q r have "s' = http0" by blast
    with r uv[OF r] show ?thesis by simp
  qed
  have d: "example_dur getResp = 1 / 12500" "example_dur udpGetResp = 1 / 12500"
    by (simp_all add: example_dur_def getResp_def udpGetResp_def addPar_def mk_def)
  have s1: "send (5 + 1 / 200) getResp http0 =
     Some (http0\<lparr>chFinishTime := 5 + 1 / 200 + 1 / 12500\<rparr>, [Send 0 getResp])"
    and s2: "send (5 + 1 / 50000 + 1 / 200) getResp (http0\<lparr>chFinishTime := 5 + 1 / 200 + 1 / 12500\<rparr>) = None"
    and s3: "send (5 + 3 / 1000) udpGetResp http0 =
     Some (http0\<lparr>chFinishTime := 5 + 3 / 1000 + 1 / 12500\<rparr>, [Send 0 udpGetResp])"
    and s4: "send (5 + 1 / 50000 + 3 / 1000) udpGetResp (http0\<lparr>chFinishTime := 5 + 3 / 1000 + 1 / 12500\<rparr>) = None"
    by (simp_all add: send_def http0_fields d)
  show ?thesis using p q G U s1 s2 s3 s4 by simp
qed

text \<open>
  Claim C8, as the code has it. The HTTP server (\<open>MailServer\<close> and \<open>DatabaseServer\<close>
  have the same handler) answers a FIN from a peer with a FIN to that peer, sent at once
  or appended to the transmit queue, and erases the peer's entry from its connection map
  and from its window maps. The client answers with a FIN in the same way, but keeps the
  peer's entry, with the state \<open>TCP_CLOSED\<close>, and creates that entry when the peer had
  none. Both handlers return when the channel's duration for the reply is not negative.
\<close>

theorem C8_fin_reply_and_connection_entry:
  "(HTTP_handleTCPFin now msg s = Some (s', out) \<longrightarrow>
      tcpConnections s' (SRC msg) = None \<and> cwndMap s' (SRC msg) = None \<and>
      ssthreshMap s' (SRC msg) = None \<and>
      (out = [Send 0 (finMsg (scast (addr s)) (SRC msg))] \<and> txQueue s' = txQueue s
       \<or> out = [] \<and> txQueue s' = txQueue s @ [finMsg (scast (addr s)) (SRC msg)]))
   \<and> (0 \<le> chDuration s (finMsg (scast (addr s)) (SRC msg)) \<longrightarrow>
        (\<exists>r. HTTP_handleTCPFin now msg s = Some r))
   \<and> (PC_handleTCPFin now msg p = Some (p', out') \<longrightarrow>
        tcpConnections p' (SRC msg) =
          Some ((case tcpConnections p (SRC msg) of None \<Rightarrow> TCPConnection_new | Some c \<Rightarrow> c)
                  \<lparr>state := TCP_CLOSED\<rparr>) \<and>
        (out' = [Send 0 (finMsg (scast (addr p)) (SRC msg))] \<and> txQueue p' = txQueue p
         \<or> out' = [] \<and> txQueue p' = txQueue p @ [finMsg (scast (addr p)) (SRC msg)]))
   \<and> (0 \<le> chDuration p (finMsg (scast (addr p)) (SRC msg)) \<longrightarrow>
        (\<exists>r. PC_handleTCPFin now msg p = Some r))"
proof -
  have a: "HTTP_handleTCPFin now msg s = Some (s', out) \<longrightarrow>
      tcpConnections s' (SRC msg) = None \<and> cwndMap s' (SRC msg) = None \<and>
      ssthreshMap s' (SRC msg) = None \<and>
      (out = [Send 0 (finMsg (scast (addr s)) (SRC msg))] \<and> txQueue s' = txQueue s
       \<or> out = [] \<and> txQueue s' = txQueue s @ [finMsg (scast (addr s)) (SRC msg)])"
    using HTTP_fin_Some by blast
  have b: "0 \<le> chDuration s (finMsg (scast (addr s)) (SRC msg)) \<longrightarrow>
        (\<exists>r. HTTP_handleTCPFin now msg s = Some r)"
    using HTTP_fin_total by blast
  have c: "PC_handleTCPFin now msg p = Some (p', out') \<longrightarrow>
        tcpConnections p' (SRC msg) =
          Some ((case tcpConnections p (SRC msg) of None \<Rightarrow> TCPConnection_new | Some c \<Rightarrow> c)
                  \<lparr>state := TCP_CLOSED\<rparr>) \<and>
        (out' = [Send 0 (finMsg (scast (addr p)) (SRC msg))] \<and> txQueue p' = txQueue p
         \<or> out' = [] \<and> txQueue p' = txQueue p @ [finMsg (scast (addr p)) (SRC msg)])"
    using PC_fin_Some by blast
  have d: "0 \<le> chDuration p (finMsg (scast (addr p)) (SRC msg)) \<longrightarrow>
        (\<exists>r. PC_handleTCPFin now msg p = Some r)"
    using PC_fin_total by blast
  show ?thesis by (rule conjI[OF a conjI[OF b conjI[OF c d]]])
qed

text \<open>
  The theorem at a FIN from client 1 to the HTTP server that holds a connection for it,
  and at a FIN from server 3 to the client that holds a connection for it: the server's
  entry is gone, the client's is still there, closed.
\<close>

theorem C8_fin_reply_and_connection_entry_witness:
  "tcpConnections http_est 1 = Some (conn3\<lparr>remoteAddr := 1\<rparr>) \<and>
   tcpConnections pc_est 3 = Some conn3 \<and>
   (\<exists>s' p'. HTTP_handleTCPFin 1 (finMsg 1 3) http_est = Some (s', [Send 0 (finMsg 3 1)]) \<and>
      tcpConnections s' 1 = None \<and>
      PC_handleTCPFin 1 (finMsg 3 1) pc_est = Some (p', [Send 0 (finMsg 1 3)]) \<and>
      tcpConnections p' 3 = Some (conn3\<lparr>state := TCP_CLOSED\<rparr>))"
proof -
  have f: "addr http_est = 3" "chDuration http_est = example_dur" "txQueue http_est = []"
    "endTxEvent http_est = None" "chFinishTime http_est = 0"
    "tcpConnections http_est 1 = Some (conn3\<lparr>remoteAddr := 1\<rparr>)"
    by (simp_all add: http_est_def http0_fields)
  have g: "addr pc_est = 1" "chDuration pc_est = example_dur" "txQueue pc_est = []"
    "endTxEvent pc_est = None" "chFinishTime pc_est = 0" "tcpConnections pc_est 3 = Some conn3"
    by (simp_all add: pc_est_def pc0_fields)
  have src: "SRC (finMsg 1 3) = 1" "SRC (finMsg 3 1) = 3"
    by (simp_all add: SRC_def finMsg_def mk_def)
  have "0 \<le> chDuration http_est (finMsg (scast (addr http_est)) (SRC (finMsg 1 3)))"
    by (simp add: f example_dur_nonneg)
  with C8_fin_reply_and_connection_entry[where now = 1 and msg = "finMsg 1 3" and s = http_est]
  obtain s' out where hs: "HTTP_handleTCPFin 1 (finMsg 1 3) http_est = Some (s', out)"
    by (metis surj_pair)
  have "0 \<le> chDuration pc_est (finMsg (scast (addr pc_est)) (SRC (finMsg 3 1)))"
    by (simp add: g example_dur_nonneg)
  with C8_fin_reply_and_connection_entry[where now = 1 and msg = "finMsg 3 1" and p = pc_est]
  obtain p' out' where ps: "PC_handleTCPFin 1 (finMsg 3 1) pc_est = Some (p', out')"
    by (metis surj_pair)
  from C8_fin_reply_and_connection_entry[where now = 1 and msg = "finMsg 1 3" and s = http_est and s' = s' and out = out] hs
  have h1: "tcpConnections s' 1 = None"
    and h2: "out = [Send 0 (finMsg 3 1)] \<and> txQueue s' = [] \<or> out = [] \<and> txQueue s' = [finMsg 3 1]"
    by (simp_all add: src f)
  have "out \<noteq> []" using hs
    by (auto simp: HTTP_handleTCPFin_def Let_def sendPacketOnGate_def startTransmission_def send_def
        scheduleAt_def f example_dur_nonneg split: option.splits if_splits)
  with h2 have h3: "out = [Send 0 (finMsg 3 1)]" by auto
  from C8_fin_reply_and_connection_entry[where now = 1 and msg = "finMsg 3 1" and p = pc_est and p' = p' and out' = out'] ps
  have p1: "tcpConnections p' 3 = Some (conn3\<lparr>state := TCP_CLOSED\<rparr>)"
    and p2: "out' = [Send 0 (finMsg 1 3)] \<and> txQueue p' = [] \<or> out' = [] \<and> txQueue p' = [finMsg 1 3]"
    by (simp_all add: src g)
  have "out' \<noteq> []" using ps
    by (auto simp: PC_handleTCPFin_def Let_def sendPacketOnGate_def startTransmission_def send_def
        scheduleAt_def g example_dur_nonneg split: option.splits if_splits)
  with p2 have p3: "out' = [Send 0 (finMsg 1 3)]" by auto
  from hs ps h1 h3 p1 p3 f(6) g(6) show ?thesis by blast
qed

text \<open>
  Against claim C8 as stated: the client of address 1 holds an established connection
  to peer 3 and receives a FIN from 3 at time 1. It sends its FIN reply, and the entry of
  peer 3 is still in its connection map afterwards, marked closed.
\<close>

theorem C8_client_keeps_entry_counterexample:
  "tcpConnections pc_est 3 = Some conn3 \<and>
   PC_handleTCPFin 1 (finMsg 3 1) pc_est = Some (pc_closed, [Send 0 (finMsg 1 3)]) \<and>
   tcpConnections pc_closed 3 = Some (conn3\<lparr>state := TCP_CLOSED\<rparr>)"
  by (simp add: PC_handleTCPFin_def Let_def sendPacketOnGate_def startTransmission_def send_def
      scheduleAt_def pc_est_def pc_closed_def pc0_def PC_initialize_def example_dur_def
      finMsg_def mk_def SRC_def)

text \<open>
  Claim C3 (the code departs from it). For an item of a distance-vector update that
  \<open>sscanf\<close> reads as \<open>(dest, metric, hops)\<close>, the router computes \<open>metric + 1\<close> and
  \<open>hops + 1\<close>. As long as \<open>hops\<close> is not \<open>INT_MAX\<close> it does what the claim says: when
  \<open>hops + 1\<close> is 16 or more the routing table is unchanged; otherwise the entry with the
  arrival gate as next hop, \<open>metric + 1\<close> and \<open>hops + 1\<close> is installed when \<open>dest\<close> is
  unknown or \<open>metric + 1\<close> is strictly less than the stored metric, and the table is
  unchanged when it is not. At \<open>hops = INT_MAX\<close> the addition overflows: the sum the
  test \<open>newHops < 16\<close> sees is \<open>INT_MIN\<close>, and the entry is installed, with the hop
  count -2147483648, where the claim has it skipped. \<open>handleRIPUpdate\<close> applies this to
  every item of the routes string, in order, and \<open>getlines\<close> gives back the items of a
  string in which a comma follows each of them. Whatever the handler changes in the
  routing table is an entry with a hop count below 16 and the arrival gate as next hop,
  and every item of the update whose \<open>hops + 1\<close> is below 16 leaves its destination
  known, with a metric of at most \<open>metric + 1\<close>. An empty item, or one that \<open>sscanf\<close>
  does not read, changes nothing.
\<close>

theorem C3_rip_import:
  "(item \<noteq> [] \<and> scanRoute L item = Some (dest, mtr, hops) \<longrightarrow>
      (hops \<noteq> 0x7FFFFFFF \<and> 16 \<le> sint hops + 1 \<longrightarrow> ripImport L now g item tbl = tbl) \<and>
      (sint hops + 1 < 16 \<and> (tbl dest = None \<or> (\<exists>e. tbl dest = Some e \<and> mtr + 1 < metric e)) \<longrightarrow>
         ripImport L now g item tbl =
           tbl(dest \<mapsto> \<lparr>destAddr = dest, nextHop = of_nat g, metric = mtr + 1, bandwidth = 0,
                         delay = 0, hopCount = hops + 1, lastUpdate = now\<rparr>)) \<and>
      (sint hops + 1 < 16 \<and> (\<exists>e. tbl dest = Some e \<and> metric e \<le> mtr + 1) \<longrightarrow>
         ripImport L now g item tbl = tbl) \<and>
      (hops = 0x7FFFFFFF \<and> (tbl dest = None \<or> (\<exists>e. tbl dest = Some e \<and> mtr + 1 < metric e)) \<longrightarrow>
         ripImport L now g item tbl =
           tbl(dest \<mapsto> \<lparr>destAddr = dest, nextHop = of_nat g, metric = mtr + 1, bandwidth = 0,
                         delay = 0, hopCount = 0x80000000, lastUpdate = now\<rparr>)) \<and>
      (hops = 0x7FFFFFFF \<and> (\<exists>e. tbl dest = Some e \<and> metric e \<le> mtr + 1) \<longrightarrow>
         ripImport L now g item tbl = tbl))
   \<and> sint (0x80000000 :: cint) = - 2147483648
   \<and> (stringPar msg ''routes'' = Some routes \<longrightarrow>
        handleRIPUpdate L now g msg s =
          Some (s\<lparr>routingTable := foldl (\<lambda>tbl item. ripImport L now g item tbl)
                                     (routingTable s) (getlines [] routes)\<rparr>, []))
   \<and> ((\<forall>i \<in> set items. 0x2C \<notin> set i) \<longrightarrow>
        getlines [] (concat (map (\<lambda>i. i @ [0x2C]) items)) = items)
   \<and> (handleRIPUpdate L now g msg s = Some (s', out) \<longrightarrow>
        (\<forall>d. routingTable s' d = routingTable s d \<or>
             (\<exists>e. routingTable s' d = Some e \<and> sint (hopCount e) < 16 \<and> nextHop e = of_nat g)))
   \<and> (handleRIPUpdate L now g msg s = Some (s', out) \<and> stringPar msg ''routes'' = Some routes \<and>
       item \<in> set (getlines [] routes) \<and> item \<noteq> [] \<and>
       scanRoute L item = Some (dest, mtr, hops) \<and> sint hops + 1 < 16 \<longrightarrow>
        (\<exists>e. routingTable s' dest = Some e \<and> metric e \<le> mtr + 1))
   \<and> (item = [] \<or> scanRoute L item = None \<longrightarrow> ripImport L now g item tbl = tbl)"
proof -
  have a: "item \<noteq> [] \<and> scanRoute L item = Some (dest, mtr, hops) \<longrightarrow>
      (hops \<noteq> 0x7FFFFFFF \<and> 16 \<le> sint hops + 1 \<longrightarrow> ripImport L now g item tbl = tbl) \<and>
      (sint hops + 1 < 16 \<and> (tbl dest = None \<or> (\<exists>e. tbl dest = Some e \<and> mtr + 1 < metric e)) \<longrightarrow>
         ripImport L now g item tbl =
           tbl(dest \<mapsto> \<lparr>destAddr = dest, nextHop = of_nat g, metric = mtr + 1, bandwidth = 0,
                         delay = 0, hopCount = hops + 1, lastUpdate = now\<rparr>)) \<and>
      (sint hops + 1 < 16 \<and> (\<exists>e. tbl dest = Some e \<and> metric e \<le> mtr + 1) \<longrightarrow>
         ripImport L now g item tbl = tbl) \<and>
      (hops = 0x7FFFFFFF \<and> (tbl dest = None \<or> (\<exists>e. tbl dest = Some e \<and> mtr + 1 < metric e)) \<longrightarrow>
         ripImport L now g item tbl =
           tbl(dest \<mapsto> \<lparr>destAddr = dest, nextHop = of_nat g, metric = mtr + 1, bandwidth = 0,
                         delay = 0, hopCount = 0x80000000, lastUpdate = now\<rparr>)) \<and>
      (hops = 0x7FFFFFFF \<and> (\<exists>e. tbl dest = Some e \<and> metric e \<le> mtr + 1) \<longrightarrow>
         ripImport L now g item tbl = tbl)"
  proof (cases "hops = 0x7FFFFFFF")
    case True
    then show ?thesis by (auto simp: ripImport_def Let_def)
  next
    case False
    from sint_succ[OF this] False show ?thesis by (auto simp: ripImport_def Let_def)
  qed
  have a': "sint (0x80000000 :: cint) = - 2147483648" by simp
  have b: "stringPar msg ''routes'' = Some routes \<longrightarrow>
        handleRIPUpdate L now g msg s =
          Some (s\<lparr>routingTable := foldl (\<lambda>tbl item. ripImport L now g item tbl)
                                     (routingTable s) (getlines [] routes)\<rparr>, [])"
    by (simp add: handleRIPUpdate_def)
  have c: "(\<forall>i \<in> set items. 0x2C \<notin> set i) \<longrightarrow>
        getlines [] (concat (map (\<lambda>i. i @ [0x2C]) items)) = items"
    using getlines_items by blast
  have d: "handleRIPUpdate L now g msg s = Some (s', out) \<longrightarrow>
        (\<forall>d. routingTable s' d = routingTable s d \<or>
             (\<exists>e. routingTable s' d = Some e \<and> sint (hopCount e) < 16 \<and> nextHop e = of_nat g))"
  proof (intro impI allI)
    fix d
    assume "handleRIPUpdate L now g msg s = Some (s', out)"
    then obtain routes where
      "routingTable s' = foldl (\<lambda>tbl item. ripImport L now g item tbl) (routingTable s) (getlines [] routes)"
      by (auto simp: handleRIPUpdate_def split: option.splits)
    with foldl_ripImport_installed[of L now g "routingTable s" "getlines [] routes" d]
    show "routingTable s' d = routingTable s d \<or>
             (\<exists>e. routingTable s' d = Some e \<and> sint (hopCount e) < 16 \<and> nextHop e = of_nat g)"
      by auto
  qed
  have e: "handleRIPUpdate L now g msg s = Some (s', out) \<and> stringPar msg ''routes'' = Some routes \<and>
       item \<in> set (getlines [] routes) \<and> item \<noteq> [] \<and>
       scanRoute L item = Some (dest, mtr, hops) \<and> sint hops + 1 < 16 \<longrightarrow>
        (\<exists>e. routingTable s' dest = Some e \<and> metric e \<le> mtr + 1)"
  proof
    assume h: "handleRIPUpdate L now g msg s = Some (s', out) \<and> stringPar msg ''routes'' = Some routes \<and>
       item \<in> set (getlines [] routes) \<and> item \<noteq> [] \<and>
       scanRoute L item = Some (dest, mtr, hops) \<and> sint hops + 1 < 16"
    then have rt: "routingTable s' =
        foldl (\<lambda>tbl item. ripImport L now g item tbl) (routingTable s) (getlines [] routes)"
      by (auto simp: handleRIPUpdate_def)
    from h have "hops \<noteq> 0x7FFFFFFF" by auto
    from sint_succ[OF this] h have lt: "sint (hops + 1) < 16" by simp
    from h have i: "item \<in> set (getlines [] routes)" "item \<noteq> []"
      "scanRoute L item = Some (dest, mtr, hops)" by simp_all
    from foldl_ripImport_learns[OF i lt, of now g "routingTable s"] rt
    show "\<exists>e. routingTable s' dest = Some e \<and> metric e \<le> mtr + 1" by simp
  qed
  have f: "item = [] \<or> scanRoute L item = None \<longrightarrow> ripImport L now g item tbl = tbl"
    by (auto simp: ripImport_def)
  show ?thesis
    by (rule conjI[OF a conjI[OF a' conjI[OF b conjI[OF c conjI[OF d conjI[OF e f]]]]]])
qed

text \<open>
  The theorem at the router of address 100, on gate 0 at time 5. Of the update
  \<open>7:2:3,8:1:15,9:1:1,\<close> destination 7, when unknown, is installed with metric 3 and 4
  hops (it replaces an entry of metric 10 and leaves an entry of metric 3 alone),
  destination 8 would have 16 hops and is skipped, and destination 9 is installed with
  metric 2 and 2 hops. The update \<open>7:2:2147483647,\<close> installs destination 7 with the hop
  count -2147483648 (and leaves alone an entry for 7 whose metric is 3); an item that
  \<open>sscanf\<close> does not read changes nothing.
\<close>

theorem C3_rip_import_witness:
  "ripImport libc0 5 0 (literal ''7:2:3'') Map.empty =
     [7 \<mapsto> \<lparr>destAddr = 7, nextHop = 0, metric = 3, bandwidth = 0, delay = 0, hopCount = 4,
            lastUpdate = 5\<rparr>]
   \<and> ripImport libc0 5 0 (literal ''7:2:3'')
        [7 \<mapsto> \<lparr>destAddr = 7, nextHop = 1, metric = 10, bandwidth = 100, delay = 1, hopCount = 1,
               lastUpdate = 0\<rparr>] =
      [7 \<mapsto> \<lparr>destAddr = 7, nextHop = 0, metric = 3, bandwidth = 0, delay = 0, hopCount = 4,
            lastUpdate = 5\<rparr>]
   \<and> ripImport libc0 5 0 (literal ''7:2:3'')
        [7 \<mapsto> \<lparr>destAddr = 7, nextHop = 1, metric = 3, bandwidth = 100, delay = 1, hopCount = 1,
               lastUpdate = 0\<rparr>] =
      [7 \<mapsto> \<lparr>destAddr = 7, nextHop = 1, metric = 3, bandwidth = 100, delay = 1, hopCount = 1,
               lastUpdate = 0\<rparr>]
   \<and> ripImport libc0 5 0 (literal ''8:1:15'') Map.empty = Map.empty
   \<and> ripImport libc0 5 0 (literal ''7:2:2147483647'') Map.empty =
      [7 \<mapsto> \<lparr>destAddr = 7, nextHop = 0, metric = 3, bandwidth = 0, delay = 0,
            hopCount = 0x80000000, lastUpdate = 5\<rparr>]
   \<and> ripImport libc0 5 0 (literal ''7:2:2147483647'')
        [7 \<mapsto> \<lparr>destAddr = 7, nextHop = 1, metric = 3, bandwidth = 100, delay = 1, hopCount = 1,
               lastUpdate = 0\<rparr>] =
      [7 \<mapsto> \<lparr>destAddr = 7, nextHop = 1, metric = 3, bandwidth = 100, delay = 1, hopCount = 1,
               lastUpdate = 0\<rparr>]
   \<and> ripImport libc0 5 0 (literal ''x'')
        [7 \<mapsto> \<lparr>destAddr = 7, nextHop = 1, metric = 3, bandwidth = 100, delay = 1, hopCount = 1,
               lastUpdate = 0\<rparr>] =
      [7 \<mapsto> \<lparr>destAddr = 7, nextHop = 1, metric = 3, bandwidth = 100, delay = 1, hopCount = 1,
               lastUpdate = 0\<rparr>]
   \<and> sint (0x80000000 :: cint) = - 2147483648
   \<and> getlines [] (literal ''7:2:3,8:1:15,9:1:1,'') =
        [literal ''7:2:3'', literal ''8:1:15'', literal ''9:1:1'']
   \<and> (\<exists>s'. handleRIPUpdate libc0 5 0 ripMsg router0 = Some (s', []) \<and>
         routingTable s' 7 = Some \<lparr>destAddr = 7, nextHop = 0, metric = 3, bandwidth = 0, delay = 0,
            hopCount = 4, lastUpdate = 5\<rparr> \<and>
         routingTable s' 8 = None \<and>
         routingTable s' 9 = Some \<lparr>destAddr = 9, nextHop = 0, metric = 2, bandwidth = 0, delay = 0,
            hopCount = 2, lastUpdate = 5\<rparr> \<and>
         (\<exists>e. routingTable s' 7 = Some e \<and> sint (hopCount e) < 16 \<and> nextHop e = 0) \<and>
         (\<exists>e. routingTable s' 9 = Some e \<and> metric e \<le> 2))
   \<and> (\<exists>s'. handleRIPUpdate libc0 5 0 ripMsgMax router0 = Some (s', []) \<and>
         routingTable s' 7 = Some \<lparr>destAddr = 7, nextHop = 0, metric = 3, bandwidth = 0, delay = 0,
            hopCount = 0x80000000, lastUpdate = 5\<rparr>)"
proof -
  let ?new = "\<lparr>destAddr = 7, nextHop = 0, metric = 3, bandwidth = 0, delay = 0, hopCount = 4,
            lastUpdate = 5\<rparr> :: RouteEntry"
  let ?e10 = "\<lparr>destAddr = 7, nextHop = 1, metric = 10, bandwidth = 100, delay = 1, hopCount = 1,
               lastUpdate = 0\<rparr> :: RouteEntry"
  let ?e3 = "\<lparr>destAddr = 7, nextHop = 1, metric = 3, bandwidth = 100, delay = 1, hopCount = 1,
               lastUpdate = 0\<rparr> :: RouteEntry"
  let ?max = "\<lparr>destAddr = 7, nextHop = 0, metric = 3, bandwidth = 0, delay = 0,
            hopCount = 0x80000000, lastUpdate = 5\<rparr> :: RouteEntry"
  let ?e9 = "\<lparr>destAddr = 9, nextHop = 0, metric = 2, bandwidth = 0, delay = 0,
            hopCount = 2, lastUpdate = 5\<rparr> :: RouteEntry"
  have i7: "literal ''7:2:3'' \<noteq> [] \<and> scanRoute libc0 (literal ''7:2:3'') = Some (7, 2, 3)"
    by (simp add: libc0_def literal_def)
  have i8: "literal ''8:1:15'' \<noteq> [] \<and> scanRoute libc0 (literal ''8:1:15'') = Some (8, 1, 15)"
    by (simp add: libc0_def literal_def)
  have iM: "literal ''7:2:2147483647'' \<noteq> [] \<and>
      scanRoute libc0 (literal ''7:2:2147483647'') = Some (7, 2, 0x7FFFFFFF)"
    by (simp add: libc0_def literal_def)
  have r7: "ripImport libc0 5 0 (literal ''7:2:3'') Map.empty = [7 \<mapsto> ?new]"
    using C3_rip_import[where item = "literal ''7:2:3''" and L = libc0 and dest = 7 and mtr = 2
        and hops = 3 and now = 5 and g = 0 and tbl = Map.empty, THEN conjunct1, THEN mp, OF i7,
        THEN conjunct2, THEN conjunct1] by simp
  have r10: "ripImport libc0 5 0 (literal ''7:2:3'') [7 \<mapsto> ?e10] = [7 \<mapsto> ?new]"
    using C3_rip_import[where item = "literal ''7:2:3''" and L = libc0 and dest = 7 and mtr = 2
        and hops = 3 and now = 5 and g = 0 and tbl = "[7 \<mapsto> ?e10]", THEN conjunct1, THEN mp, OF i7,
        THEN conjunct2, THEN conjunct1] by simp
  have r3: "ripImport libc0 5 0 (literal ''7:2:3'') [7 \<mapsto> ?e3] = [7 \<mapsto> ?e3]"
    using C3_rip_import[where item = "literal ''7:2:3''" and L = libc0 and dest = 7 and mtr = 2
        and hops = 3 and now = 5 and g = 0 and tbl = "[7 \<mapsto> ?e3]", THEN conjunct1, THEN mp, OF i7,
        THEN conjunct2, THEN conjunct2, THEN conjunct1] by simp
  have r8: "ripImport libc0 5 0 (literal ''8:1:15'') Map.empty = Map.empty"
    using C3_rip_import[where item = "literal ''8:1:15''" and L = libc0 and dest = 8 and mtr = 1
      and hops = 15 and now = 5 and g = 0 and tbl = Map.empty, THEN conjunct1, THEN mp, OF i8,
      THEN conjunct1] by simp
  have rM: "ripImport libc0 5 0 (literal ''7:2:2147483647'') Map.empty = [7 \<mapsto> ?max]"
    using C3_rip_import[where item = "literal ''7:2:2147483647''" and L = libc0 and dest = 7
      and mtr = 2 and hops = "0x7FFFFFFF" and now = 5 and g = 0 and tbl = Map.empty,
      THEN conjunct1, THEN mp, OF iM, THEN conjunct2, THEN conjunct2, THEN conjunct2,
      THEN conjunct1] by simp
  have rK: "ripImport libc0 5 0 (literal ''7:2:2147483647'') [7 \<mapsto> ?e3] = [7 \<mapsto> ?e3]"
    using C3_rip_import[where item = "literal ''7:2:2147483647''" and L = libc0 and dest = 7
      and mtr = 2 and hops = "0x7FFFFFFF" and now = 5 and g = 0 and tbl = "[7 \<mapsto> ?e3]",
      THEN conjunct1, THEN mp, OF iM, THEN conjunct2, THEN conjunct2, THEN conjunct2,
      THEN conjunct2] by simp
  have iU: "literal ''x'' = [] \<or> scanRoute libc0 (literal ''x'') = None"
    by (simp add: libc0_def literal_def)
  have rU: "ripImport libc0 5 0 (literal ''x'') [7 \<mapsto> ?e3] = [7 \<mapsto> ?e3]"
    by (rule C3_rip_import[where item = "literal ''x''" and L = libc0 and now = 5 and g = 0
      and tbl = "[7 \<mapsto> ?e3]", THEN conjunct2, THEN conjunct2, THEN conjunct2, THEN conjunct2,
      THEN conjunct2, THEN conjunct2, THEN mp, OF iU])
  have sM: "sint (0x80000000 :: cint) = - 2147483648"
    by (rule C3_rip_import[THEN conjunct2, THEN conjunct1])
  have gl: "getlines [] (literal ''7:2:3,8:1:15,9:1:1,'') =
      [literal ''7:2:3'', literal ''8:1:15'', literal ''9:1:1'']"
    using C3_rip_import[where items = "[literal ''7:2:3'', literal ''8:1:15'', literal ''9:1:1'']",
      THEN conjunct2, THEN conjunct2, THEN conjunct2, THEN conjunct1]
    by (simp add: literal_def)
  have glM: "getlines [] (literal ''7:2:2147483647,'') = [literal ''7:2:2147483647'']"
    using C3_rip_import[where items = "[literal ''7:2:2147483647'']",
      THEN conjunct2, THEN conjunct2, THEN conjunct2, THEN conjunct1]
    by (simp add: literal_def)
  have rt: "routingTable router0 = [3 \<mapsto> \<lparr>destAddr = 3, nextHop = 1, metric = 1, bandwidth = 100,
      delay = 1, hopCount = 1, lastUpdate = 0\<rparr>]"
    by (simp add: router0_def Router_initialize_def rpars0_def literal_def staticRoute_def libc0_def)
  have sp: "stringPar ripMsg ''routes'' = Some (literal ''7:2:3,8:1:15,9:1:1,'')"
    by (simp add: stringPar_def ripMsg_def addPar_def mk_def)
  have spM: "stringPar ripMsgMax ''routes'' = Some (literal ''7:2:2147483647,'')"
    by (simp add: stringPar_def ripMsgMax_def addPar_def mk_def)
  define s1 where "s1 = router0\<lparr>routingTable := foldl (\<lambda>tbl item. ripImport libc0 5 0 item tbl)
              (routingTable router0) (getlines [] (literal ''7:2:3,8:1:15,9:1:1,''))\<rparr>"
  define s2 where "s2 = router0\<lparr>routingTable := foldl (\<lambda>tbl item. ripImport libc0 5 0 item tbl)
              (routingTable router0) (getlines [] (literal ''7:2:2147483647,''))\<rparr>"
  have h1: "handleRIPUpdate libc0 5 0 ripMsg router0 = Some (s1, [])"
    unfolding s1_def
    by (rule C3_rip_import[THEN conjunct2, THEN conjunct2, THEN conjunct1, THEN mp, OF sp])
  have h2: "handleRIPUpdate libc0 5 0 ripMsgMax router0 = Some (s2, [])"
    unfolding s2_def
    by (rule C3_rip_import[THEN conjunct2, THEN conjunct2, THEN conjunct1, THEN mp, OF spM])
  have t7: "routingTable s1 7 = Some ?new"
    by (simp add: s1_def gl rt ripImport_def Let_def libc0_def literal_def)
  have t8: "routingTable s1 8 = None"
    by (simp add: s1_def gl rt ripImport_def Let_def libc0_def literal_def)
  have t9: "routingTable s1 9 = Some ?e9"
    by (simp add: s1_def gl rt ripImport_def Let_def libc0_def literal_def)
  have tM: "routingTable s2 7 = Some ?max"
    by (simp add: s2_def glM rt ripImport_def Let_def libc0_def literal_def)
  have n7: "routingTable s1 7 \<noteq> routingTable router0 7"
    by (simp add: t7 rt)
  have d7: "routingTable s1 7 = routingTable router0 7 \<or>
      (\<exists>e. routingTable s1 7 = Some e \<and> sint (hopCount e) < 16 \<and> nextHop e = of_nat 0)"
    using C3_rip_import[where L = libc0 and now = 5 and g = 0 and msg = ripMsg and s = router0
      and s' = s1 and out = "[]", THEN conjunct2, THEN conjunct2, THEN conjunct2, THEN conjunct2,
      THEN conjunct1, THEN mp, OF h1] by (rule spec)
  with n7 have c7: "\<exists>e. routingTable s1 7 = Some e \<and> sint (hopCount e) < 16 \<and> nextHop e = 0"
    by simp
  have i9: "handleRIPUpdate libc0 5 0 ripMsg router0 = Some (s1, []) \<and>
      stringPar ripMsg ''routes'' = Some (literal ''7:2:3,8:1:15,9:1:1,'') \<and>
      literal ''9:1:1'' \<in> set (getlines [] (literal ''7:2:3,8:1:15,9:1:1,'')) \<and>
      literal ''9:1:1'' \<noteq> [] \<and> scanRoute libc0 (literal ''9:1:1'') = Some (9, 1, 1) \<and>
      sint (1 :: cint) + 1 < 16"
    using h1 sp by (simp add: gl) (simp add: libc0_def literal_def)
  have c9: "\<exists>e. routingTable s1 9 = Some e \<and> metric e \<le> 2"
    using C3_rip_import[where L = libc0 and now = 5 and g = 0 and msg = ripMsg and s = router0
      and s' = s1 and out = "[]" and routes = "literal ''7:2:3,8:1:15,9:1:1,''"
      and item = "literal ''9:1:1''" and dest = 9 and mtr = 1 and hops = 1,
      THEN conjunct2, THEN conjunct2, THEN conjunct2, THEN conjunct2, THEN conjunct2,
      THEN conjunct1, THEN mp, OF i9] by simp
  have A: "\<exists>s'. handleRIPUpdate libc0 5 0 ripMsg router0 = Some (s', []) \<and>
         routingTable s' 7 = Some ?new \<and> routingTable s' 8 = None \<and> routingTable s' 9 = Some ?e9 \<and>
         (\<exists>e. routingTable s' 7 = Some e \<and> sint (hopCount e) < 16 \<and> nextHop e = 0) \<and>
         (\<exists>e. routingTable s' 9 = Some e \<and> metric e \<le> 2)"
    by (intro exI[of _ s1] conjI) (fact h1 t7 t8 t9 c7 c9)+
  have B: "\<exists>s'. handleRIPUpdate libc0 5 0 ripMsgMax router0 = Some (s', []) \<and>
         routingTable s' 7 = Some ?max"
    by (intro exI[of _ s2] conjI) (fact h2 tM)+
  show ?thesis
    by (intro conjI) (fact r7 r10 r3 r8 rM rK rU sM gl A B)+
qed

text \<open>
  Claim C4, as the code has it. A received LSA carries no timestamp: \<open>handleOSPFLSA\<close>
  stamps the record with the time of receipt and stores it under
  \<open>originRouter * 1000 + linkId\<close> whatever the database holds there, with no comparison
  (and it returns whenever the four attributes are present). Hence, over a run whose
  events come in time order, the timestamp stored under a key never decreases.
\<close>

theorem C4_lsa_overwrites_and_timestamps_grow:
  "(handleOSPFLSA now g msg s = Some (s', out) \<longrightarrow>
      (\<exists>l c b d. longPar msg ''linkId'' = Some l \<and> doublePar msg ''cost'' = Some c \<and>
         doublePar msg ''bandwidth'' = Some b \<and> doublePar msg ''delay'' = Some d \<and>
         linkStateDB s' = (linkStateDB s)(SRC msg * 1000 + scast (ucast l :: cint) \<mapsto>
           \<lparr>ls_routerId = SRC msg, ls_linkId = ucast l, ls_cost = c, ls_bandwidth = b,
            ls_delay = d, ls_timestamp = now\<rparr>)))
   \<and> (longPar msg ''linkId'' = Some l0 \<and> doublePar msg ''cost'' = Some c0 \<and>
       doublePar msg ''bandwidth'' = Some b0 \<and> doublePar msg ''delay'' = Some d0 \<longrightarrow>
        (\<exists>r. handleOSPFLSA now g msg s = Some r))
   \<and> (Router_run L s0 evs = Some s1 \<and> linkStateDB s0 k = Some r \<and>
       (\<forall>(t, e) \<in> set evs. ls_timestamp r \<le> t) \<and> sorted (map fst evs) \<longrightarrow>
        (\<exists>r'. linkStateDB s1 k = Some r' \<and> ls_timestamp r \<le> ls_timestamp r'))"
proof -
  have a: "handleOSPFLSA now g msg s = Some (s', out) \<longrightarrow>
      (\<exists>l c b d. longPar msg ''linkId'' = Some l \<and> doublePar msg ''cost'' = Some c \<and>
         doublePar msg ''bandwidth'' = Some b \<and> doublePar msg ''delay'' = Some d \<and>
         linkStateDB s' = (linkStateDB s)(SRC msg * 1000 + scast (ucast l :: cint) \<mapsto>
           \<lparr>ls_routerId = SRC msg, ls_linkId = ucast l, ls_cost = c, ls_bandwidth = b,
            ls_delay = d, ls_timestamp = now\<rparr>))"
  proof
    assume "handleOSPFLSA now g msg s = Some (s', out)"
    from handleOSPFLSA_Some[OF this] show "\<exists>l c b d. longPar msg ''linkId'' = Some l \<and>
         doublePar msg ''cost'' = Some c \<and>
         doublePar msg ''bandwidth'' = Some b \<and> doublePar msg ''delay'' = Some d \<and>
         linkStateDB s' = (linkStateDB s)(SRC msg * 1000 + scast (ucast l :: cint) \<mapsto>
           \<lparr>ls_routerId = SRC msg, ls_linkId = ucast l, ls_cost = c, ls_bandwidth = b,
            ls_delay = d, ls_timestamp = now\<rparr>)"
      by blast
  qed
  have b: "longPar msg ''linkId'' = Some l0 \<and> doublePar msg ''cost'' = Some c0 \<and>
       doublePar msg ''bandwidth'' = Some b0 \<and> doublePar msg ''delay'' = Some d0 \<longrightarrow>
        (\<exists>r. handleOSPFLSA now g msg s = Some r)"
    using handleOSPFLSA_total by blast
  have c: "Router_run L s0 evs = Some s1 \<and> linkStateDB s0 k = Some r \<and>
       (\<forall>(t, e) \<in> set evs. ls_timestamp r \<le> t) \<and> sorted (map fst evs) \<longrightarrow>
        (\<exists>r'. linkStateDB s1 k = Some r' \<and> ls_timestamp r \<le> ls_timestamp r')"
    using Router_run_lsdb_monotone by blast
  show ?thesis by (rule conjI[OF a conjI[OF b c]])
qed

lemma origin_fields:
  "routerId origin_a = 2" "linkBandwidth origin_a 0 = 100" "linkUtilization origin_a 0 = 0"
  "routerId origin_b = 2" "linkBandwidth origin_b 0 = 100" "linkUtilization origin_b 0 = 50"
  by (simp_all add: origin_a_def origin_b_def Router_initialize_def rpars0_def)

lemma Router_step_lsa:
  "Router_step L t (Arrival g (lsaOf t' orig i)) s = handleOSPFLSA t g (lsaOf t' orig i) s"
  by (simp add: Router_step_def Router_handleMessage_def Let_def lsaOf_pars(6))

lemma lsa_received:
  "\<exists>s' out. handleOSPFLSA t g (lsaOf t' orig 0) s = Some (s', out) \<and>
     linkStateDB s' = (linkStateDB s)(routerId orig * 1000 \<mapsto>
       \<lparr>ls_routerId = routerId orig, ls_linkId = 0,
        ls_cost = 1 / (linkBandwidth orig 0 - linkUtilization orig 0 + 1),
        ls_bandwidth = linkBandwidth orig 0 - linkUtilization orig 0,
        ls_delay = 1, ls_timestamp = t\<rparr>)"
proof -
  from handleOSPFLSA_total[OF lsaOf_pars(1) lsaOf_pars(2) lsaOf_pars(3) lsaOf_pars(4)]
  obtain s' out where
    h: "handleOSPFLSA t g (lsaOf t' orig 0) s = Some (s', out)" by (metis surj_pair)
  from handleOSPFLSA_Some[OF h] h show ?thesis by (simp add: lsaOf_pars)
qed

text \<open>
  The theorem at the router of address 100, which receives on gate 1 the advertisement
  of link 0 of router 2 (50 Mbit/s used) at time 3 and again at time 4: the handler
  returns, the record under key 2000 is the advertised one stamped 3, and after the
  second receipt the stored timestamp is not smaller.
\<close>

theorem C4_lsa_overwrites_and_timestamps_grow_witness:
  "\<exists>s1 s2 out r'. handleOSPFLSA 3 1 (lsaOf 2 origin_b 0) router0 = Some (s1, out) \<and>
     linkStateDB s1 2000 = Some \<lparr>ls_routerId = 2, ls_linkId = 0, ls_cost = 1 / 51,
           ls_bandwidth = 50, ls_delay = 1, ls_timestamp = 3\<rparr> \<and>
     Router_run libc0 s1 [(4, Arrival 1 (lsaOf 2 origin_b 0))] = Some s2 \<and>
     linkStateDB s2 2000 = Some r' \<and> 3 \<le> ls_timestamp r'"
proof -
  let ?m = "lsaOf 2 origin_b 0"
  have pars: "longPar ?m ''linkId'' = Some 0 \<and> doublePar ?m ''cost'' = Some (1 / 51) \<and>
       doublePar ?m ''bandwidth'' = Some 50 \<and> doublePar ?m ''delay'' = Some 1"
    by (simp add: lsaOf_pars origin_fields)
  from C4_lsa_overwrites_and_timestamps_grow[where msg = ?m and now = 3 and g = 1 and s = router0,
      THEN conjunct2, THEN conjunct1, THEN mp, OF pars]
  obtain s1 out1 where h1: "handleOSPFLSA 3 1 ?m router0 = Some (s1, out1)" by (metis surj_pair)
  from C4_lsa_overwrites_and_timestamps_grow[where msg = ?m and now = 3 and g = 1 and s = router0
      and s' = s1 and out = out1, THEN conjunct1, THEN mp, OF h1] pars
  have d1: "linkStateDB s1 2000 = Some \<lparr>ls_routerId = 2, ls_linkId = 0, ls_cost = 1 / 51,
           ls_bandwidth = 50, ls_delay = 1, ls_timestamp = 3\<rparr>"
    by (auto simp: lsaOf_pars origin_fields router0_def Router_initialize_def)
  from lsa_received[of 4 1 2 origin_b s1] obtain s2 out2 where
    h2: "handleOSPFLSA 4 1 ?m s1 = Some (s2, out2)" by blast
  have run2: "Router_run libc0 s1 [(4, Arrival 1 ?m)] = Some s2"
    by (simp only: Router_run.simps Router_step_lsa h2 option.case prod.case)
  have pre: "Router_run libc0 s1 [(4, Arrival 1 ?m)] = Some s2 \<and>
       linkStateDB s1 2000 = Some \<lparr>ls_routerId = 2, ls_linkId = 0, ls_cost = 1 / 51,
           ls_bandwidth = 50, ls_delay = 1, ls_timestamp = 3\<rparr> \<and>
       (\<forall>(t, e) \<in> set [(4 :: real, Arrival 1 ?m)].
          ls_timestamp \<lparr>ls_routerId = 2, ls_linkId = 0, ls_cost = 1 / 51,
           ls_bandwidth = 50, ls_delay = 1, ls_timestamp = 3\<rparr> \<le> t) \<and>
       sorted (map fst [(4 :: real, Arrival 1 ?m)])"
    using run2 d1 by simp
  from C4_lsa_overwrites_and_timestamps_grow[where L = libc0 and ?s0.0 = s1 and ?s1.0 = s2
      and evs = "[(4, Arrival 1 ?m)]" and k = 2000,
      THEN conjunct2, THEN conjunct2, THEN mp, OF pre]
  obtain r' where "linkStateDB s2 2000 = Some r'" "3 \<le> ls_timestamp r'" by auto
  with h1 run2 d1 show ?thesis by blast
qed

text \<open>
  Against claim C4 as stated: router 2 advertises its link 0 at time 1 (nothing used:
  cost 1/101) and again at time 2 (50 Mbit/s used: cost 1/51); the router of address 100
  receives the second advertisement at time 3 and the first one, which took a longer
  way, at time 4. The older advertisement is not ignored: it replaces the record of the
  newer one.
\<close>

theorem C4_stale_lsa_overwrites_counterexample:
  "ls_timestamp (lsOf 1 origin_a 0) = 1 \<and> ls_timestamp (lsOf 2 origin_b 0) = 2 \<and>
   lsdb_after (Router_run libc0 router0 [(3, Arrival 1 (lsaOf 2 origin_b 0))]) 2000 =
     Some \<lparr>ls_routerId = 2, ls_linkId = 0, ls_cost = 1 / 51, ls_bandwidth = 50, ls_delay = 1,
           ls_timestamp = 3\<rparr> \<and>
   lsdb_after (Router_run libc0 router0
       [(3, Arrival 1 (lsaOf 2 origin_b 0)), (4, Arrival 0 (lsaOf 1 origin_a 0))]) 2000 =
     Some \<lparr>ls_routerId = 2, ls_linkId = 0, ls_cost = 1 / 101, ls_bandwidth = 100, ls_delay = 1,
           ls_timestamp = 4\<rparr>"
proof -
  from lsa_received[of 3 1 2 origin_b router0] obtain s1 out1 where
    h1: "handleOSPFLSA 3 1 (lsaOf 2 origin_b 0) router0 = Some (s1, out1)" and
    d1: "linkStateDB s1 2000 = Some \<lparr>ls_routerId = 2, ls_linkId = 0, ls_cost = 1 / 51,
           ls_bandwidth = 50, ls_delay = 1, ls_timestamp = 3\<rparr>"
    by (auto simp: origin_fields)
  from lsa_received[of 4 0 1 origin_a s1] obtain s2 out2 where
    h2: "handleOSPFLSA 4 0 (lsaOf 1 origin_a 0) s1 = Some (s2, out2)" and
    d2: "linkStateDB s2 2000 = Some \<lparr>ls_routerId = 2, ls_linkId = 0, ls_cost = 1 / 101,
           ls_bandwidth = 100, ls_delay = 1, ls_timestamp = 4\<rparr>"
    by (auto simp: origin_fields)
  have "ls_timestamp (lsOf 1 origin_a 0) = 1 \<and> ls_timestamp (lsOf 2 origin_b 0) = 2"
    by (simp add: lsOf_def)
  moreover have "lsdb_after (Router_run libc0 router0 [(3, Arrival 1 (lsaOf 2 origin_b 0))]) 2000 =
     Some \<lparr>ls_routerId = 2, ls_linkId = 0, ls_cost = 1 / 51, ls_bandwidth = 50, ls_delay = 1,
           ls_timestamp = 3\<rparr>"
    by (simp only: lsdb_after_def Router_run.simps Router_step_lsa h1 d1 option.case prod.case)
  moreover have "lsdb_after (Router_run libc0 router0
       [(3, Arrival 1 (lsaOf 2 origin_b 0)), (4, Arrival 0 (lsaOf 1 origin_a 0))]) 2000 =
     Some \<lparr>ls_routerId = 2, ls_linkId = 0, ls_cost = 1 / 101, ls_bandwidth = 100, ls_delay = 1,
           ls_timestamp = 4\<rparr>"
    by (simp only: lsdb_after_def Router_run.simps Router_step_lsa h1 h2 d2 option.case prod.case)
  ultimately show ?thesis by blast
qed

text \<open>
  Claim C10. In every state the router reaches from \<open>initialize\<close>, whatever the events,
  every priority output queue is empty (and there is one per gate), so a frame whose
  destination has a routing-table entry with a valid gate is handed to that gate's
  transmitter by \<open>forwardPacket\<close>, whatever its priority: the branch that pushes on a
  priority queue is never taken. (No handler pops from these queues.)
\<close>

theorem C10_priority_queues_stay_empty:
  "Router_run L (Router_initialize L t0 P u1 u2 u3) evs = Some s \<longrightarrow>
     outputQueues s = replicate (gateSize s) [] \<and>
     (\<forall>now inGate msg e.
        routingTable s (DST msg) = Some e \<and> 0 \<le> sint (nextHop e) \<and> sint (nextHop e) < int (gateSize s)
        \<longrightarrow> forwardPacket now inGate msg s =
              r_sendPacketOnGate now msg (nat (sint (nextHop e)))
                (s\<lparr>linkUtilization := (linkUtilization s)(nat (sint (nextHop e)) :=
                      linkUtilization s (nat (sint (nextHop e))) +
                      (if byteLength msg > 0 then real_of_int (byteLength msg) else 1000) / 1000000)\<rparr>))"
proof
  assume run: "Router_run L (Router_initialize L t0 P u1 u2 u3) evs = Some s"
  have q: "outputQueues s = replicate (gateSize s) []"
    by (rule Router_run_queues[OF run Router_initialize_queues])
  show "outputQueues s = replicate (gateSize s) [] \<and>
     (\<forall>now inGate msg e.
        routingTable s (DST msg) = Some e \<and> 0 \<le> sint (nextHop e) \<and> sint (nextHop e) < int (gateSize s)
        \<longrightarrow> forwardPacket now inGate msg s =
              r_sendPacketOnGate now msg (nat (sint (nextHop e)))
                (s\<lparr>linkUtilization := (linkUtilization s)(nat (sint (nextHop e)) :=
                      linkUtilization s (nat (sint (nextHop e))) +
                      (if byteLength msg > 0 then real_of_int (byteLength msg) else 1000) / 1000000)\<rparr>))"
    using q forwardPacket_hit[OF q] by blast
qed

text \<open>
  The theorem at the router with two gates and the static route \<open>3:1\<close>: two
  normal-priority frames for destination 3 arrive at time 1, the second while gate 1 is
  busy with the first. The run returns and both priority queues are empty: the first
  frame went on the wire and the second into the transmitter's FIFO.
\<close>

theorem C10_priority_queues_stay_empty_witness:
  "\<exists>s. Router_run libc0 router0 [(1, Arrival 0 dataMsg), (1, Arrival 0 dataMsg)] = Some s \<and>
     outputQueues s = [[], []] \<and> r_txQueue s 1 = [dataMsg]"
proof -
  have k: "msgKind dataMsg = TCP_DATA" by (simp add: dataMsg_def addPar_def mk_def)
  have rt: "routingTable router0 = [3 \<mapsto> \<lparr>destAddr = 3, nextHop = 1, metric = 1, bandwidth = 100,
      delay = 1, hopCount = 1, lastUpdate = 0\<rparr>]"
    by (simp add: router0_def Router_initialize_def rpars0_def literal_def staticRoute_def libc0_def)
  have f: "gateSize router0 = 2" "outputQueues router0 = [[], []]"
    "r_chFinishTime router0 (Suc 0) = 0" "r_txQueue router0 (Suc 0) = []"
    "r_chDuration router0 (Suc 0) = example_dur"
    by (simp_all add: router0_def Router_initialize_def rpars0_def numeral_2_eq_2)
  have d: "DST dataMsg = 3" "byteLength dataMsg = 1000" "PRIORITY dataMsg = 1"
    by (simp_all add: DST_def PRIORITY_def dataMsg_def addPar_def mk_def)
  let ?u = "router0\<lparr>linkUtilization := (linkUtilization router0)(1 := linkUtilization router0 1 + 1000 / 1000000)\<rparr>"
  let ?s1 = "?u\<lparr>r_chFinishTime := (r_chFinishTime ?u)(1 := 1 + example_dur dataMsg),
                r_endTxEvent := (r_endTxEvent ?u)(1 := Some (1 + example_dur dataMsg))\<rparr>"
  have pos: "0 < example_dur dataMsg" by (simp add: example_dur_def d)
  have st1: "Router_step libc0 1 (Arrival 0 dataMsg) router0 = Some (?s1, [Send 1 dataMsg])"
    using pos
    by (simp add: Router_step_def Router_handleMessage_def Let_def k forwardPacket_def d rt f
        word_sle_eq r_sendPacketOnGate_def r_startTransmission_def r_send_def)
  let ?v = "?s1\<lparr>linkUtilization := (linkUtilization ?s1)(1 := linkUtilization ?s1 1 + 1000 / 1000000)\<rparr>"
  let ?s2 = "?v\<lparr>r_txQueue := (r_txQueue ?v)(1 := r_txQueue ?v 1 @ [dataMsg])\<rparr>"
  have st2: "Router_step libc0 1 (Arrival 0 dataMsg) ?s1 = Some (?s2, [])"
    using pos
    by (simp add: Router_step_def Router_handleMessage_def Let_def k forwardPacket_def d rt f
        word_sle_eq r_sendPacketOnGate_def r_startTransmission_def r_send_def)
  have run: "Router_run libc0 router0 [(1, Arrival 0 dataMsg), (1, Arrival 0 dataMsg)] = Some ?s2"
    by (simp only: Router_run.simps st1 st2 option.case prod.case)
  have "Router_run libc0 (Router_initialize libc0 0 rpars0 (1 / 2) (1 / 2) (1 / 2))
          [(1, Arrival 0 dataMsg), (1, Arrival 0 dataMsg)] = Some ?s2"
    using run unfolding router0_def .
  from C10_priority_queues_stay_empty[where L = libc0 and ?t0.0 = 0 and P = rpars0
      and ?u1.0 = "1 / 2" and ?u2.0 = "1 / 2" and ?u3.0 = "1 / 2"
      and evs = "[(1, Arrival 0 dataMsg), (1, Arrival 0 dataMsg)]" and s = ?s2, THEN mp, OF this]
  have "outputQueues ?s2 = replicate (gateSize ?s2) []" by blast
  then have "outputQueues ?s2 = [[], []]" by (simp add: f numeral_2_eq_2)
  moreover have "r_txQueue ?s2 1 = [dataMsg]" by (simp add: f)
  ultimately show ?thesis using run by blast
qed

end
